theory Spec2Isabelle
  imports Complex_Main
begin

section \<open>Entity model (types.ts)\<close>

text \<open>
  The records follow the interfaces of \<^verbatim>\<open>types.ts\<close>. JavaScript numbers that hold
  counts and grid coordinates are integers. Field names that several interfaces share
  (\<^verbatim>\<open>id\<close>, \<^verbatim>\<open>name\<close>, \<^verbatim>\<open>x\<close>, \<^verbatim>\<open>y\<close>, \<^verbatim>\<open>health\<close>, \<^verbatim>\<open>description\<close>)
  carry a prefix naming the interface; purely visual fields (colours, image URLs, the
  bounding box of a room) are left out.
\<close>

datatype Attribute = Strength | Agility | Observation | Lore | Influence | Will

datatype DiceFace = ElderSign | Clue | Blank

datatype TokenType = Explore | Search | Interact | Sight | Escape

datatype Direction = North | South | East | West

datatype GamePhase =
  Lobby | ItemDistribution | Setup | Playing | Mythos | DiceRoll | Puzzle | GameOver | Victory

datatype PuzzleType = Sliding | Rune | Code

datatype NetworkMode = Offline | Host | Client

datatype Difficulty = Easy | Normal | Hard

record AttributeScores =
  strength :: int
  agility :: int
  observation :: int
  lore :: int
  influence :: int
  will :: int

text \<open>\<^verbatim>\<open>player.attributes[attr]\<close>: the lookup in the \<^verbatim>\<open>Record<Attribute, number>\<close>.\<close>

fun attr_score :: "AttributeScores \<Rightarrow> Attribute \<Rightarrow> int" where
  "attr_score a Strength = strength a"
| "attr_score a Agility = agility a"
| "attr_score a Observation = observation a"
| "attr_score a Lore = lore a"
| "attr_score a Influence = influence a"
| "attr_score a Will = will a"

record Player =
  p_id :: string
  p_name :: string
  investigatorId :: string
  clues :: int
  items :: "string list"
  p_health :: int
  sanity :: int
  attributes :: AttributeScores
  p_x :: int
  p_y :: int
  movesRemaining :: int
  actionsRemaining :: int
  isWounded :: bool
  isInsane :: bool
  secretObjective :: "string option"
  p_usedItemAbilityRound :: bool
  isReady :: bool

text \<open>
  A monster's health is the one number of the session that the code can turn into
  \<^verbatim>\<open>NaN\<close> (see \<^verbatim>\<open>resolveCombat\<close> below), so it is kept as a JavaScript number: an integer
  or \<^verbatim>\<open>NaN\<close>. Subtraction with \<^verbatim>\<open>NaN\<close> gives \<^verbatim>\<open>NaN\<close>, and every comparison with
  \<^verbatim>\<open>NaN\<close> is false.
\<close>

datatype jsnum = Num int | NaN

fun js_minus :: "jsnum \<Rightarrow> jsnum \<Rightarrow> jsnum" where
  "js_minus (Num a) (Num b) = Num (a - b)"
| "js_minus (Num a) NaN = NaN"
| "js_minus NaN b = NaN"

fun js_le :: "jsnum \<Rightarrow> jsnum \<Rightarrow> bool" where
  "js_le (Num a) (Num b) = (a \<le> b)"
| "js_le (Num a) NaN = False"
| "js_le NaN b = False"

record Monster =
  m_id :: string
  templateId :: string
  m_name :: string
  m_health :: jsnum
  maxHealth :: int
  damage :: int
  horror :: int
  m_x :: int
  m_y :: int
  tier :: int

record Token =
  tok_id :: string
  tok_type :: TokenType
  tok_x :: int
  tok_y :: int
  tok_description :: string
  resolved :: bool
  requiredAttribute :: "Attribute option"
  tok_difficulty :: "int option"
  direction :: "Direction option"

record Tile =
  tile_id :: string
  roomId :: string
  tile_name :: string
  tile_description :: string
  tile_x :: int
  tile_y :: int
  imageType :: string

text \<open>The tagged action context that names what a deferred dice roll or puzzle resolves.\<close>

datatype ActionContext = SEARCH string | COMBAT string

record ActiveDiceRoll =
  playerId :: string
  adr_attribute :: Attribute
  adr_count :: int
  adr_target :: int
  adr_description :: string
  adr_context :: ActionContext

record ActivePuzzle =
  puzzle_type :: PuzzleType
  puzzle_token :: Token
  puzzle_context :: ActionContext

datatype MythosEventType = SPAWN | TEST | FLAVOR

record MythosEvent =
  ev_text :: string
  ev_type :: MythosEventType

record GameState =
  roomCode :: string
  phase :: GamePhase
  difficulty :: Difficulty
  round :: int
  players :: "Player list"
  monsters :: "Monster list"
  currentPlayerIndex :: int
  tiles :: "Tile list"
  tokens :: "Token list"
  itemDeck :: "string list"
  log :: "string list"
  storyContext :: string
  evidenceCollected :: int
  evidenceRequired :: int
  isEscapeOpen :: bool
  networkMode :: NetworkMode
  activeDiceRoll :: "ActiveDiceRoll option"
  activePuzzle :: "ActivePuzzle option"
  mythosEvent :: "MythosEvent option"

text \<open>
  Helpers for the array methods the code uses: \<^verbatim>\<open>arr.slice(-50)\<close> keeps the last fifty
  entries, \<^verbatim>\<open>arr[i]\<close> is \<^verbatim>\<open>undefined\<close> outside the array (also for a negative
  index), \<^verbatim>\<open>arr.find\<close> is the library's \<^const>\<open>find\<close>.
\<close>

definition slice_last50 :: "'a list \<Rightarrow> 'a list" where
  "slice_last50 xs = drop (length xs - 50) xs"

definition at_index :: "'a list \<Rightarrow> int \<Rightarrow> 'a option" where
  "at_index xs i = (if 0 \<le> i \<and> i < int (length xs) then Some (xs ! nat i) else None)"

definition addLog :: "string \<Rightarrow> GameState \<Rightarrow> GameState" where
  "addLog msg prev = prev\<lparr>log := slice_last50 (log prev @ [msg])\<rparr>"

section \<open>Constants (constants.ts)\<close>

record Investigator =
  inv_id :: string
  inv_name :: string
  inv_health :: int
  inv_sanity :: int
  inv_attributes :: AttributeScores

definition mkInvestigator :: "string \<Rightarrow> string \<Rightarrow> int \<Rightarrow> int \<Rightarrow> int list \<Rightarrow> Investigator" where
  "mkInvestigator i n h s a =
     \<lparr>inv_id = i, inv_name = n, inv_health = h, inv_sanity = s,
      inv_attributes = \<lparr>strength = a ! 0, agility = a ! 1, observation = a ! 2, lore = a ! 3,
                        influence = a ! 4, will = a ! 5\<rparr>\<rparr>"

definition INVESTIGATOR_TEMPLATES :: "Investigator list" where
  "INVESTIGATOR_TEMPLATES =
     [mkInvestigator ''inv_1'' ''Father Mateo'' 7 7 [2, 3, 3, 4, 5, 5],
      mkInvestigator ''inv_2'' ''Wendy Adams'' 7 7 [2, 5, 4, 3, 3, 4],
      mkInvestigator ''inv_3'' ''Harvey Walters'' 6 8 [2, 2, 5, 5, 3, 4],
      mkInvestigator ''inv_4'' ''Leo Anderson'' 8 6 [4, 3, 4, 2, 4, 3],
      mkInvestigator ''inv_5'' ''Agatha Crane'' 6 8 [2, 3, 4, 5, 3, 4],
      mkInvestigator ''inv_6'' ''Preston Fairmont'' 7 7 [3, 3, 3, 2, 5, 3],
      mkInvestigator ''inv_7'' ''William Yorick'' 9 5 [5, 3, 3, 2, 2, 4],
      mkInvestigator ''inv_8'' ''Akachi Onyele'' 6 8 [3, 3, 2, 5, 3, 5],
      mkInvestigator ''inv_9'' ''Carson Sinclair'' 6 8 [2, 2, 4, 3, 4, 4],
      mkInvestigator ''inv_10'' ''Diana Stanley'' 7 7 [3, 3, 3, 4, 2, 5]]"

datatype ItemType = Weapon | Utility | Relic

text \<open>The item catalogue, in the order of the object's keys; the descriptions are left out.\<close>

definition ITEMS :: "(string \<times> ItemType) list" where
  "ITEMS =
     [(''Old Revolver'', Weapon), (''Rusty Knife'', Weapon), (''Holy Water'', Weapon),
      (''Crowbar'', Weapon), (''Brass Knuckles'', Weapon), (''Shotgun'', Weapon),
      (''Ritual Dagger'', Weapon),
      (''Lantern'', Utility), (''Bandages'', Utility), (''Ancient Tome'', Relic),
      (''Pocket Watch'', Relic), (''Magnifying Glass'', Utility), (''Elder Sign'', Relic),
      (''Painkillers'', Utility), (''Smelling Salts'', Utility), (''Kerosene'', Utility),
      (''Lockpick'', Utility),
      (''First Aid Kit'', Utility), (''Lucky Cigarette Case'', Relic),
      (''Detective's Journal'', Utility), (''Eldritch Glyph'', Relic)]"

text \<open>\<^verbatim>\<open>ITEMS[i]?.type === 'Weapon'\<close>\<close>

definition isWeapon :: "string \<Rightarrow> bool" where
  "isWeapon i \<longleftrightarrow> map_of ITEMS i = Some Weapon"

definition STARTING_ITEMS :: "string list" where
  "STARTING_ITEMS = map fst ITEMS"

definition DICE_FACES :: "DiceFace list" where
  "DICE_FACES = [ElderSign, ElderSign, ElderSign, Clue, Clue, Blank, Blank, Blank]"

record MonsterTemplate =
  mt_id :: string
  mt_name :: string
  mt_tier :: int
  mt_health :: int
  mt_damage :: int
  mt_horror :: int

definition MONSTER_TEMPLATES :: "MonsterTemplate list" where
  "MONSTER_TEMPLATES =
     [\<lparr>mt_id = ''m_cultist'', mt_name = ''Cultist'', mt_tier = 1, mt_health = 2, mt_damage = 0, mt_horror = 1\<rparr>,
      \<lparr>mt_id = ''m_rat'', mt_name = ''Swarm of Rats'', mt_tier = 1, mt_health = 1, mt_damage = 1, mt_horror = 0\<rparr>,
      \<lparr>mt_id = ''m_maniac'', mt_name = ''Crazed Maniac'', mt_tier = 1, mt_health = 3, mt_damage = 1, mt_horror = 0\<rparr>,
      \<lparr>mt_id = ''m_deepone'', mt_name = ''Deep One'', mt_tier = 2, mt_health = 4, mt_damage = 1, mt_horror = 0\<rparr>,
      \<lparr>mt_id = ''m_ghost'', mt_name = ''Vengeful Spirit'', mt_tier = 2, mt_health = 4, mt_damage = 0, mt_horror = 1\<rparr>,
      \<lparr>mt_id = ''m_hound'', mt_name = ''Hound of Tindalos'', mt_tier = 2, mt_health = 5, mt_damage = 1, mt_horror = 1\<rparr>,
      \<lparr>mt_id = ''m_shoggoth'', mt_name = ''Shoggoth'', mt_tier = 3, mt_health = 10, mt_damage = 2, mt_horror = 2\<rparr>,
      \<lparr>mt_id = ''m_starspawn'', mt_name = ''Star Spawn'', mt_tier = 3, mt_health = 12, mt_damage = 2, mt_horror = 3\<rparr>]"

section \<open>Strings and numbers\<close>

text \<open>\<^verbatim>\<open>s.startsWith(sub)\<close> and \<^verbatim>\<open>s.includes(sub)\<close> on strings.\<close>

fun startsWith :: "string \<Rightarrow> string \<Rightarrow> bool" where
  "startsWith s [] = True"
| "startsWith [] (c # cs) = False"
| "startsWith (x # xs) (c # cs) = (x = c \<and> startsWith xs cs)"

fun includes_str :: "string \<Rightarrow> string \<Rightarrow> bool" where
  "includes_str [] sub = (sub = [])"
| "includes_str (x # xs) sub = (startsWith (x # xs) sub \<or> includes_str xs sub)"

text \<open>The decimal rendering of an integer inside a template string.\<close>

fun show_nat :: "nat \<Rightarrow> string" where
  "show_nat n = (if n < 10 then [''0123456789'' ! n] else show_nat (n div 10) @ [''0123456789'' ! (n mod 10)])"

declare show_nat.simps [simp del]

definition show_int :: "int \<Rightarrow> string" where
  "show_int i = (if i < 0 then ''-'' @ show_nat (nat (- i)) else show_nat (nat i))"

text \<open>A property access on \<^verbatim>\<open>undefined\<close> throws; the model returns the error instead.\<close>

datatype error = TypeError

section \<open>The dice roller (components/DiceRoller.tsx)\<close>

record DiceRollerProps =
  attribute :: Attribute
  amount :: int
  playerClues :: int
  playerItems :: "string list"
  usedItemAbilityRound :: bool
  target :: int

text \<open>The component state: \<^verbatim>\<open>results\<close> is \<^verbatim>\<open>null\<close> until the dice are rolled.\<close>

record DiceRollerState =
  results :: "DiceFace list option"
  spentClues :: int
  bonusDice :: int


definition passes :: "DiceRollerState \<Rightarrow> nat" where
  "passes st = (case results st of Some rs \<Rightarrow> length (filter (\<lambda>r. r = ElderSign) rs) | None \<Rightarrow> 0)"


definition isPass :: "DiceRollerProps \<Rightarrow> DiceRollerState \<Rightarrow> bool" where
  "isPass props st \<longleftrightarrow> int (passes st) \<ge> target props"


definition hasAllConvertItem :: "DiceRollerProps \<Rightarrow> bool" where
  "hasAllConvertItem props \<longleftrightarrow> ''Eldritch Glyph'' \<in> set (playerItems props)"

text \<open>\<^verbatim>\<open>findIndex\<close>: the first position whose face satisfies the test, if any.\<close>

fun findIndex :: "('a \<Rightarrow> bool) \<Rightarrow> 'a list \<Rightarrow> nat option" where
  "findIndex P [] = None"
| "findIndex P (x # xs) =
     (if P x then Some 0 else (case findIndex P xs of None \<Rightarrow> None | Some i \<Rightarrow> Some (Suc i)))"



text \<open>
  The handler the application passes as \<^verbatim>\<open>onComplete\<close>: the faces it receives are the
  roller's \<^verbatim>\<open>results\<close> when the player confirms.
\<close>

definition onComplete_successes :: "DiceFace list \<Rightarrow> nat" where
  "onComplete_successes faces = length (filter (\<lambda>f. f = ElderSign) faces)"

definition onComplete_success :: "DiceFace list \<Rightarrow> int \<Rightarrow> bool" where
  "onComplete_success faces tgt \<longleftrightarrow> int (onComplete_successes faces) \<ge> tgt"

text \<open>
  The clue deduction of the completion handler: the state updater that runs when
  \<^verbatim>\<open>cluesSpent > 0\<close>, for the player that was current when the roller was shown.
\<close>

definition onComplete_deductClues :: "string \<Rightarrow> int \<Rightarrow> GameState \<Rightarrow> GameState" where
  "onComplete_deductClues currentPlayerId cluesSpent prev =
     (if cluesSpent > 0
      then prev\<lparr>players := map (\<lambda>p. if p_id p = currentPlayerId then p\<lparr>clues := clues p - cluesSpent\<rparr> else p)
                               (players prev)\<rparr>
      else prev)"






subsection \<open>Confirming a roll (onComplete, handleActionComplete)\<close>

text \<open>
  What a client sends to the host when a pending resolution completes: the payload is
  \<^verbatim>\<open>{context, success, data}\<close>. A confirmed roll passes its dice faces as \<^verbatim>\<open>data\<close>, a
  puzzle passes none. The number of clues spent is not part of the payload.
\<close>

datatype ClientAction = ACTION_COMPLETE_TASK ActionContext bool "DiceFace list option"

text \<open>
  \<^verbatim>\<open>handleActionComplete\<close> reads the state of the render that created it. On a client it
  sends the task to the host and clears the pending resolution locally; otherwise it
  starts the resolver that the context names, \<^verbatim>\<open>resolveSearch(token, success, data)\<close> or
  \<^verbatim>\<open>resolveCombat(monsterId, success, data)\<close>, or clears the pending resolution when the
  Search token is gone.
\<close>

datatype Resolution =
  SentToHost ClientAction
| RunSearch Token bool
| RunCombat string bool "DiceFace list option"
| NoToken

definition handleActionComplete ::
  "GameState \<Rightarrow> ActionContext \<Rightarrow> bool \<Rightarrow> DiceFace list option \<Rightarrow> Resolution" where
  "handleActionComplete gameState context success data =
     (if networkMode gameState = Client then SentToHost (ACTION_COMPLETE_TASK context success data)
      else case context of
             SEARCH tokenId \<Rightarrow>
               (case find (\<lambda>t. tok_id t = tokenId) (tokens gameState) of
                  Some token \<Rightarrow> RunSearch token success
                | None \<Rightarrow> NoToken)
           | COMBAT monsterId \<Rightarrow> RunCombat monsterId success data)"

definition clearPending :: "GameState \<Rightarrow> GameState" where
  "clearPending prev = prev\<lparr>activeDiceRoll := None, activePuzzle := None, phase := Playing\<rparr>"

text \<open>
  The handler the application passes to the roller as \<^verbatim>\<open>onComplete\<close>, with the pending roll
  and the current player of the render that shows the roller: the clue deduction is queued
  on the local state, then \<^verbatim>\<open>handleActionComplete\<close> runs. The result is the local state
  after the updaters that the handler itself queues, and what it started or sent.
\<close>

definition onComplete ::
  "GameState \<Rightarrow> ActiveDiceRoll \<Rightarrow> Player \<Rightarrow> DiceFace list \<Rightarrow> int \<Rightarrow> GameState \<Rightarrow> GameState \<times> Resolution" where
  "onComplete gameState roll currentPlayer faces cluesSpent prev =
     (let success = onComplete_success faces (adr_target roll);
          prev1 = onComplete_deductClues (p_id currentPlayer) cluesSpent prev;
          started = handleActionComplete gameState (adr_context roll) success (Some faces)
      in case started of
           SentToHost a \<Rightarrow> (clearPending prev1, started)
         | NoToken \<Rightarrow> (clearPending prev1, started)
         | RunSearch token ok \<Rightarrow> (prev1, started)
         | RunCombat monsterId ok data \<Rightarrow> (prev1, started))"

text \<open>
  The host's side of the exchange. \<^verbatim>\<open>handleNetworkData\<close> ignores the message unless the
  session is hosted here (by \<^verbatim>\<open>gameStateRef.current\<close>), and hands a completed task to
  \<^verbatim>\<open>handleActionComplete\<close>, which reads the state of its render, with the three fields
  of the payload. Every change of the host's state is broadcast, and a client replaces its
  whole state, \<^verbatim>\<open>networkMode\<close> included, by the one received
  (\<^verbatim>\<open>setGameState(data.state)\<close>, the log cut to its last fifty lines by the sender).
\<close>

definition handleNetworkData :: "GameState \<Rightarrow> GameState \<Rightarrow> ClientAction \<Rightarrow> Resolution option" where
  "handleNetworkData currentState gameState action =
     (if networkMode currentState \<noteq> Host then None
      else case action of
             ACTION_COMPLETE_TASK context success data \<Rightarrow>
               Some (handleActionComplete gameState context success data))"

definition receiveSync :: "GameState \<Rightarrow> GameState \<Rightarrow> GameState" where
  "receiveSync hostState local = hostState\<lparr>log := slice_last50 (log hostState)\<rparr>"

section \<open>Damage to a player (applyDamage)\<close>

text \<open>
  The state updater of \<^verbatim>\<open>applyDamage\<close>. A player whose health falls to 0 or below while
  already wounded is removed, and the updater returns at once; otherwise the first such
  fall wounds the player and restores the template's health, and sanity at 0 or below is
  clamped to 0 and drives the player insane. The record \<^verbatim>\<open>updatedPlayer\<close> and the text
  \<^verbatim>\<open>logMsg\<close> that the updater builds on that second path are given as functions of their
  own.
\<close>

definition applyDamage_updatedPlayer :: "Player \<Rightarrow> int \<Rightarrow> int \<Rightarrow> Player" where
  "applyDamage_updatedPlayer player dmg hor =
     (let woundedNow = (p_health player - dmg \<le> 0);
          newHealth = (if woundedNow
                       then (case find (\<lambda>t. inv_id t = investigatorId player) INVESTIGATOR_TEMPLATES of
                               Some template \<Rightarrow> inv_health template | None \<Rightarrow> 7)
                       else p_health player - dmg);
          newIsWounded = (woundedNow \<or> isWounded player);
          newSanity = (if sanity player - hor \<le> 0 then 0 else sanity player - hor);
          newIsInsane = ((sanity player - hor \<le> 0 \<and> \<not> isInsane player) \<or> isInsane player)
      in player\<lparr>
           p_health := newHealth, sanity := newSanity,
           isWounded := newIsWounded, isInsane := newIsInsane,
           actionsRemaining := (if newIsWounded \<and> \<not> isWounded player
                                then min (actionsRemaining player) 1 else actionsRemaining player),
           movesRemaining := (if newIsWounded \<and> \<not> isWounded player
                              then min (movesRemaining player) 1 else movesRemaining player)\<rparr>)"

definition applyDamage_logMsg :: "Player \<Rightarrow> int \<Rightarrow> int \<Rightarrow> string" where
  "applyDamage_logMsg player dmg hor =
     (if p_health player - dmg \<le> 0
      then p_name player @ '' is broken and Wounded! Health restored, but mobility is limited. ''
      else [])
     @ (if sanity player - hor \<le> 0 \<and> \<not> isInsane player then p_name player @ '' has gone INSANE! '' else [])"

definition applyDamage_update :: "string \<Rightarrow> int \<Rightarrow> int \<Rightarrow> GameState \<Rightarrow> GameState" where
  "applyDamage_update pid dmg hor prev =
     (case find (\<lambda>p. p_id p = pid) (players prev) of
        None \<Rightarrow> prev
      | Some player \<Rightarrow>
          if p_health player - dmg \<le> 0 \<and> isWounded player
          then prev\<lparr>players := filter (\<lambda>p. p_id p \<noteq> pid) (players prev),
                    log := slice_last50 (log prev @ [p_name player @ '' has succumbed to their wounds!''])\<rparr>
          else prev\<lparr>players := map (\<lambda>p. if p_id p = pid then applyDamage_updatedPlayer player dmg hor else p)
                                     (players prev),
                    log := (if applyDamage_logMsg player dmg hor \<noteq> []
                            then slice_last50 (log prev @ [applyDamage_logMsg player dmg hor])
                            else log prev)\<rparr>)"

text \<open>
  After queuing the updater, \<^verbatim>\<open>applyDamage\<close> looks the player up in \<^verbatim>\<open>gameState\<close>, the
  state of the render that created the function, not in the state the updater runs on. If
  by that state this horror is what drives the player insane, it asks the content bridge
  for a secret objective and stores the answer.
\<close>

definition applyDamage_wantsObjective :: "string \<Rightarrow> int \<Rightarrow> GameState \<Rightarrow> bool" where
  "applyDamage_wantsObjective pid hor gameState =
     (case find (\<lambda>p. p_id p = pid) (players gameState) of
        None \<Rightarrow> False
      | Some player \<Rightarrow> \<not> isInsane player \<and> sanity player - hor \<le> 0)"

definition applyDamage_setObjective :: "string \<Rightarrow> string \<Rightarrow> GameState \<Rightarrow> GameState" where
  "applyDamage_setObjective pid objective prev =
     prev\<lparr>players := map (\<lambda>p. if p_id p = pid then p\<lparr>secretObjective := Some objective\<rparr> else p)
                           (players prev)\<rparr>"

text \<open>
  The whole of \<^verbatim>\<open>applyDamage\<close> when no other updater comes between its two:
  \<^verbatim>\<open>gameState\<close> is the state of the render, \<^verbatim>\<open>prev\<close> the state the updaters run on, and
  \<^verbatim>\<open>objective\<close> the text the content bridge answers with.
\<close>

definition applyDamage :: "string \<Rightarrow> int \<Rightarrow> int \<Rightarrow> string \<Rightarrow> GameState \<Rightarrow> GameState \<Rightarrow> GameState" where
  "applyDamage pid dmg hor objective gameState prev =
     (if applyDamage_wantsObjective pid hor gameState
      then applyDamage_setObjective pid objective (applyDamage_update pid dmg hor prev)
      else applyDamage_update pid dmg hor prev)"

definition updatePlayerAction :: "string \<Rightarrow> int \<Rightarrow> GameState \<Rightarrow> GameState" where
  "updatePlayerAction pid delta prev =
     prev\<lparr>players := map (\<lambda>p. if p_id p = pid then p\<lparr>actionsRemaining := actionsRemaining p + delta\<rparr> else p)
                           (players prev)\<rparr>"

section \<open>Resolving a search (resolveSearch)\<close>

text \<open>
  \<^verbatim>\<open>Math.random()\<close> is a number in \<open>[0, 1)\<close>; every draw is a parameter of the model, a
  rational. \<^verbatim>\<open>Math.floor(Math.random() * n)\<close> picks an index.
\<close>

definition random_index :: "rat \<Rightarrow> nat \<Rightarrow> int" where
  "random_index rand n = \<lfloor>rand * of_nat n\<rfloor>"

datatype RewardType = RNone | REvidence | RItem | RClue

text \<open>The first updater: back to the playing phase, the pending resolution cleared.\<close>

definition resolveSearch_begin :: "GameState \<Rightarrow> GameState" where
  "resolveSearch_begin prev = prev\<lparr>phase := Playing, activeDiceRoll := None, activePuzzle := None\<rparr>"

text \<open>
  The reward draw, against the state the handler reads when it is called
  (\<^verbatim>\<open>gameStateRef.current\<close>): the reward type and the name of the found object.
\<close>

definition resolveSearch_draw :: "bool \<Rightarrow> rat \<Rightarrow> GameState \<Rightarrow> RewardType \<times> string" where
  "resolveSearch_draw success roll state =
     (if \<not> success then (RNone, [])
      else if \<not> isEscapeOpen state \<and> roll < 20 / 100 then (REvidence, ''Incriminating Evidence'')
      else if roll < 65 / 100 \<and> length (itemDeck state) > 0 then (RItem, last (itemDeck state))
      else (RClue, ''a Clue''))"

text \<open>
  The updater that applies the reward, after the narrative has come back from the content
  bridge: it runs against the state of that later moment. \<^verbatim>\<open>pop()\<close> on an empty deck
  gives \<^verbatim>\<open>undefined\<close>, and the test \<^verbatim>\<open>if (popped)\<close> also fails for an empty string.
\<close>

definition resolveSearch_apply ::
  "Token \<Rightarrow> bool \<Rightarrow> RewardType \<Rightarrow> string \<Rightarrow> GameState \<Rightarrow> error + GameState" where
  "resolveSearch_apply token success rewardType narrative prev =
     (case at_index (players prev) (currentPlayerIndex prev) of
        None \<Rightarrow> Inl TypeError
      | Some currentPlayer \<Rightarrow>
          let (rewarded, newItemDeck, newEvidenceCount, rewardMsg) =
                (if success then
                   (if rewardType = REvidence
                    then (currentPlayer, itemDeck prev, evidenceCollected prev + 1, ''Found: EVIDENCE'')
                    else if rewardType = RItem
                    then (if itemDeck prev = []
                          then (currentPlayer\<lparr>clues := clues currentPlayer + 1\<rparr>, itemDeck prev,
                                evidenceCollected prev, ''Found: 1 Clue'')
                          else if last (itemDeck prev) \<noteq> []
                          then (currentPlayer\<lparr>items := items currentPlayer @ [last (itemDeck prev)]\<rparr>,
                                butlast (itemDeck prev), evidenceCollected prev,
                                ''Found: '' @ last (itemDeck prev))
                          else (currentPlayer\<lparr>clues := clues currentPlayer + 1\<rparr>, butlast (itemDeck prev),
                                evidenceCollected prev, ''Found: 1 Clue''))
                    else (currentPlayer\<lparr>clues := clues currentPlayer + 1\<rparr>, itemDeck prev,
                          evidenceCollected prev, ''Found: 1 Clue''))
                 else (currentPlayer, itemDeck prev, evidenceCollected prev, ''Found nothing''));
              newTokens = (if success then filter (\<lambda>t. tok_id t \<noteq> tok_id token) (tokens prev)
                           else tokens prev);
              logMsg = (if success then ''SUCCESS'' else ''FAILURE'') @ '': '' @ rewardMsg @ ''. '' @ narrative
          in Inr (prev\<lparr>
               players := (players prev)[nat (currentPlayerIndex prev) :=
                            rewarded\<lparr>actionsRemaining := actionsRemaining rewarded - 1\<rparr>],
               tokens := newTokens,
               itemDeck := newItemDeck,
               log := slice_last50 (log prev @ [logMsg]),
               storyContext := storyContext prev @ '' Investigation of '' @ tok_description token @ '': '' @ narrative,
               evidenceCollected := newEvidenceCount\<rparr>))"

text \<open>
  The finale check that runs a moment after every resolved search: \<^verbatim>\<open>rand\<close> picks the
  spawn tile and \<^verbatim>\<open>stamp\<close> is the text of \<^verbatim>\<open>Date.now()\<close>.
\<close>

definition finaleMsg :: string where
  "finaleMsg = ''You found the final piece of evidence! The ancient ritual is exposed. The Master of the House has awoken! RETREAT TO THE FOYER!''"

definition resolveSearch_finale :: "rat \<Rightarrow> string \<Rightarrow> GameState \<Rightarrow> error + GameState" where
  "resolveSearch_finale rand stamp current =
     (if evidenceCollected current \<ge> evidenceRequired current \<and> \<not> isEscapeOpen current
      then (case at_index (tiles current) (random_index rand (length (tiles current))) of
              None \<Rightarrow> Inl TypeError
            | Some spawnTile \<Rightarrow>
                let bossTemplate = (case find (\<lambda>m. mt_tier m = 3) MONSTER_TEMPLATES of
                                      Some t \<Rightarrow> t | None \<Rightarrow> last MONSTER_TEMPLATES);
                    boss = \<lparr>m_id = ''boss_'' @ stamp,
                            templateId = mt_id bossTemplate,
                            m_name = mt_name bossTemplate,
                            m_health = Num (mt_health bossTemplate + int (length (players current)) * 3),
                            maxHealth = mt_health bossTemplate + int (length (players current)) * 3,
                            damage = mt_damage bossTemplate + 1,
                            horror = mt_horror bossTemplate + 1,
                            m_x = tile_x spawnTile, m_y = tile_y spawnTile, tier = 3\<rparr>;
                    escapeToken = \<lparr>tok_id = ''tok_escape'', tok_type = Escape, tok_x = 0, tok_y = 0,
                                   tok_description = ''Exit the Mansion'', resolved = False,
                                   requiredAttribute = None, tok_difficulty = None, direction = None\<rparr>
                in Inr (current\<lparr>isEscapeOpen := True,
                                monsters := monsters current @ [boss],
                                tokens := tokens current @ [escapeToken],
                                log := slice_last50 (log current @ [''FINALE: '' @ finaleMsg])\<rparr>))
      else Inr current)"

text \<open>
  A whole resolution: the draw reads \<^verbatim>\<open>state\<close>, the reward is applied to \<^verbatim>\<open>prev\<close>,
  then the finale check runs on the result.
\<close>

definition resolveSearch ::
  "Token \<Rightarrow> bool \<Rightarrow> rat \<Rightarrow> string \<Rightarrow> rat \<Rightarrow> string \<Rightarrow> GameState \<Rightarrow> GameState \<Rightarrow> error + GameState" where
  "resolveSearch token success roll narrative rand stamp state prev =
     (case resolveSearch_apply token success (fst (resolveSearch_draw success roll state)) narrative
             (resolveSearch_begin prev) of
        Inl e \<Rightarrow> Inl e
      | Inr s \<Rightarrow> resolveSearch_finale rand stamp s)"

text \<open>
  Of the hundred equally spaced draws \<open>0/100, \<dots>, 99/100\<close>, the number that a successful
  search turns into the given reward. The two thresholds of the draw are hundredths, so
  this is the probability of the reward in percent.
\<close>

definition rewardPercent :: "GameState \<Rightarrow> RewardType \<Rightarrow> nat" where
  "rewardPercent state r =
     length (filter (\<lambda>k. fst (resolveSearch_draw True (of_nat k / 100) state) = r) [0..<100])"

section \<open>Combat\<close>

subsection \<open>The resolver that applies weapon damage (resolveCombat with dice faces)\<close>

text \<open>
  In the variant of the application that keeps the resolution callbacks in the pending dice
  roll, both callbacks of an attack call \<^verbatim>\<open>resolveCombat(monster, player, rolls)\<close> with the
  monster and the player captured at the click. The number of hits:
\<close>

definition combat_hits :: "Monster \<Rightarrow> Player \<Rightarrow> DiceFace list \<Rightarrow> int" where
  "combat_hits monster player rolls =
     (let hasWeapon = list_ex isWeapon (items player);
          hasShotgun = (''Shotgun'' \<in> set (items player));
          hasHolyWater = (''Holy Water'' \<in> set (items player));
          isSpirit = (includes_str (m_name monster) ''Spirit'' \<or> includes_str (m_name monster) ''Ghost'');
          bonusHits = (if hasShotgun then 2 else if hasWeapon then 1 else 0);
          rollHits = int (length (filter (\<lambda>r. r = ElderSign) rolls))
      in if hasHolyWater \<and> isSpirit then 999 else rollHits + bonusHits)"

text \<open>This variant's \<^verbatim>\<open>addLog\<close> appends without trimming the log.\<close>

definition addLog_untrimmed :: "string \<Rightarrow> GameState \<Rightarrow> GameState" where
  "addLog_untrimmed msg prev = prev\<lparr>log := log prev @ [msg]\<rparr>"

text \<open>
  \<^verbatim>\<open>gameState\<close> is the state of the render that created the callbacks; the monsters and
  players written back are computed from it. \<^verbatim>\<open>prev\<close> is the state the updaters run on.
\<close>

definition resolveCombat_faces ::
  "GameState \<Rightarrow> Monster \<Rightarrow> Player \<Rightarrow> DiceFace list \<Rightarrow> GameState \<Rightarrow> error + GameState" where
  "resolveCombat_faces gameState monster player rolls prev =
     (let hasWeapon = list_ex isWeapon (items player);
          hasShotgun = (''Shotgun'' \<in> set (items player));
          hasHolyWater = (''Holy Water'' \<in> set (items player));
          isSpirit = (includes_str (m_name monster) ''Spirit'' \<or> includes_str (m_name monster) ''Ghost'');
          hits = combat_hits monster player rolls;
          prev1 = (if hasHolyWater \<and> isSpirit
                   then addLog_untrimmed ''Holy Water burns the spirit away instantly!'' prev else prev);
          newMonsterHealth = js_minus (m_health monster) (Num hits);
          msg = (if hasShotgun then ''(+2 Shotgun) '' else if hasWeapon then ''(+1 Weapon) '' else []);
          updatedMonsters =
            (if js_le newMonsterHealth (Num 0)
             then filter (\<lambda>m. m_id m \<noteq> m_id monster) (monsters gameState)
             else map (\<lambda>m. if m_id m = m_id monster then m\<lparr>m_health := newMonsterHealth\<rparr> else m)
                      (monsters gameState));
          prev2 = (if js_le newMonsterHealth (Num 0)
                   then addLog_untrimmed (msg @ m_name monster @ '' defeated!'') prev1
                   else addLog_untrimmed (msg @ ''Hit for '' @ show_int hits @ '' damage.'') prev1)
      in case findIndex (\<lambda>p. p_id p = p_id player) (players gameState) of
           None \<Rightarrow> Inl TypeError
         | Some pIndex \<Rightarrow>
             Inr (prev2\<lparr>phase := Playing,
                        players := (players gameState)[pIndex :=
                           (players gameState ! pIndex)\<lparr>actionsRemaining :=
                              actionsRemaining (players gameState ! pIndex) - 1\<rparr>],
                        monsters := updatedMonsters,
                        activeDiceRoll := None\<rparr>))"

subsection \<open>The variant with tagged action contexts (handleMonsterClick, resolveCombat)\<close>

text \<open>
  Here the click computes a damage value from the first weapon the player holds, but the
  pending dice roll it creates carries only the monster's id.
\<close>

definition handleMonsterClick_totalDmg :: "Player \<Rightarrow> int" where
  "handleMonsterClick_totalDmg player =
     1 + (case find isWeapon (items player) of
            None \<Rightarrow> 0
          | Some weapon \<Rightarrow> if includes_str weapon ''Shotgun'' then 2 else 1)"

definition handleMonsterClick :: "Monster \<Rightarrow> bool \<Rightarrow> GameState \<Rightarrow> error + GameState" where
  "handleMonsterClick monster remote currentState =
     (if phase currentState \<noteq> Playing then Inr currentState
      else if networkMode currentState = Client \<and> \<not> remote then Inr currentState
      else case at_index (players currentState) (currentPlayerIndex currentState) of
             None \<Rightarrow> Inl TypeError
           | Some player \<Rightarrow>
               if actionsRemaining player \<le> 0 then Inr (addLog ''No actions remaining.'' currentState)
               else if \<bar>p_x player - m_x monster\<bar> + \<bar>p_y player - m_y monster\<bar> > 0
                       \<and> \<not> list_ex (\<lambda>i. includes_str i ''Revolver'' \<or> includes_str i ''Shotgun'') (items player)
               then Inr (addLog ''Too far to attack! (Need firearm)'' currentState)
               else Inr (updatePlayerAction (p_id player) (- 1)
                      (currentState\<lparr>phase := DiceRoll,
                         activeDiceRoll := Some \<lparr>playerId = p_id player, adr_attribute = Strength,
                           adr_count = attr_score (attributes player) Strength, adr_target = 2,
                           adr_description = ''Attacking '' @ m_name monster,
                           adr_context = COMBAT (m_id monster)\<rparr>\<rparr>)))"

text \<open>
  \<^verbatim>\<open>resolveCombat(monsterId, hit, damage)\<close> declares \<^verbatim>\<open>damage\<close> a number, and the caller
  comments \<^verbatim>\<open>data is damage amount\<close>; what the application passes is the array of dice
  faces that the roller hands to \<^verbatim>\<open>onComplete\<close>, forwarded unchanged by
  \<^verbatim>\<open>handleActionComplete\<close>. The faces are the strings of the enum. Where a number is
  expected (\<^verbatim>\<open>health - damage\<close>) the array is first turned into its text, the faces joined
  by commas, and the text into a number: 0 for the empty text, \<^verbatim>\<open>NaN\<close> for a text that
  names a face. In the log line the array appears as its text. Without any data the
  value is \<^verbatim>\<open>undefined\<close>, which is \<^verbatim>\<open>NaN\<close> as a number.
\<close>

definition faceText :: "DiceFace \<Rightarrow> string" where
  "faceText f = (case f of ElderSign \<Rightarrow> ''PASS'' | Clue \<Rightarrow> ''CLUE'' | Blank \<Rightarrow> ''FAIL'')"

fun joinComma :: "string list \<Rightarrow> string" where
  "joinComma [] = []"
| "joinComma [x] = x"
| "joinComma (x # y # ys) = x @ '','' @ joinComma (y # ys)"

definition facesText :: "DiceFace list option \<Rightarrow> string" where
  "facesText data = (case data of None \<Rightarrow> ''undefined'' | Some faces \<Rightarrow> joinComma (map faceText faces))"

definition facesNumber :: "DiceFace list option \<Rightarrow> jsnum" where
  "facesNumber data = (case data of None \<Rightarrow> NaN | Some faces \<Rightarrow> if faces = [] then Num 0 else NaN)"

text \<open>\<^verbatim>\<open>splice(mIdx, 1)\<close> removes the monster found.\<close>

definition resolveCombat :: "string \<Rightarrow> bool \<Rightarrow> DiceFace list option \<Rightarrow> GameState \<Rightarrow> GameState" where
  "resolveCombat monsterId hit dmg prev =
     (case (if hit then findIndex (\<lambda>m. m_id m = monsterId) (monsters prev) else None) of
        Some mIdx \<Rightarrow>
          let m = monsters prev ! mIdx; newHealth = js_minus (m_health m) (facesNumber dmg) in
          if js_le newHealth (Num 0)
          then prev\<lparr>monsters := take mIdx (monsters prev) @ drop (Suc mIdx) (monsters prev),
                    phase := Playing, activeDiceRoll := None,
                    log := slice_last50 (log prev @ [''You defeated the '' @ m_name m @ ''!''])\<rparr>
          else prev\<lparr>monsters := (monsters prev)[mIdx := m\<lparr>m_health := newHealth\<rparr>],
                    phase := Playing, activeDiceRoll := None,
                    log := slice_last50 (log prev @ [''You hit the '' @ m_name m @ '' for '' @ facesText dmg @ '' damage.''])\<rparr>
      | None \<Rightarrow>
          prev\<lparr>phase := Playing, activeDiceRoll := None,
               log := slice_last50 (log prev @ [''Attack missed!''])\<rparr>)"

section \<open>Turn order and the round transition (endTurn, runMythosPhase, endMythosPhase)\<close>

text \<open>The reset of moves and actions at the start of a turn or round.\<close>

definition refreshed :: "Player \<Rightarrow> Player" where
  "refreshed p = p\<lparr>actionsRemaining := (if isWounded p then 1 else 2),
                    movesRemaining := (if isWounded p then 1 else 2)\<rparr>"

text \<open>
  The first updater of \<^verbatim>\<open>runMythosPhase\<close>: the next round number is computed from the
  state the handler read (\<^verbatim>\<open>currentState\<close>) and written into the state the updater runs on.
\<close>

definition runMythosPhase_begin :: "GameState \<Rightarrow> GameState \<Rightarrow> GameState" where
  "runMythosPhase_begin currentState prev = prev\<lparr>phase := Mythos, round := round currentState + 1\<rparr>"

definition runMythosPhase_threat :: "GameState \<Rightarrow> int" where
  "runMythosPhase_threat currentState =
     min 10 (round currentState + 1 + (if difficulty currentState = Hard then 2 else 0))"

text \<open>
  The remainder \<^verbatim>\<open>a % b\<close> for a positive \<^verbatim>\<open>b\<close>: its sign follows the dividend.
\<close>

definition js_rem :: "int \<Rightarrow> int \<Rightarrow> int" where
  "js_rem a b = (if 0 \<le> a then a mod b else - ((- a) mod b))"

text \<open>
  The second half of \<^verbatim>\<open>endTurn\<close>. The next index is computed from \<^verbatim>\<open>currentState\<close>, the
  state the handler read when it was called. At index 0 the Mythos phase starts. Otherwise
  the handler queues the updater that installs the index and announces the next player,
  \<^verbatim>\<open>currentState.players[nextIndex].name\<close>; the updater reads \<^verbatim>\<open>prev.players[nextIndex]\<close>
  once for every player of \<^verbatim>\<open>prev\<close>, the state the updaters queued before it have
  produced.
\<close>

definition endTurn_advance :: "GameState \<Rightarrow> GameState \<Rightarrow> error + GameState" where
  "endTurn_advance currentState prev =
     (let nextIndex = js_rem (currentPlayerIndex currentState + 1) (int (length (players currentState)))
      in if nextIndex = 0 then Inr (runMythosPhase_begin currentState prev)
         else case at_index (players currentState) nextIndex of
                None \<Rightarrow> Inl TypeError
              | Some announced \<Rightarrow>
                  (case at_index (players prev) nextIndex of
                     None \<Rightarrow> (if players prev = [] then Inr (prev\<lparr>currentPlayerIndex := nextIndex\<rparr>)
                               else Inl TypeError)
                   | Some next \<Rightarrow>
                       Inr (prev\<lparr>currentPlayerIndex := nextIndex,
                                 players := map (\<lambda>p. if p_id p = p_id next then refreshed p else p)
                                                (players prev)\<rparr>)))"

text \<open>
  \<^verbatim>\<open>endTurn\<close> on a session in which nothing else is pending, so that the handler's
  \<^verbatim>\<open>currentState\<close> is the state its updaters start from. The updaters it queues run in
  order: the log line and the damage of the monsters on the player's tile, then either
  the start of the Mythos phase or the move to the next index. (The secret objective that
  \<^verbatim>\<open>applyDamage\<close> may request arrives later and touches none of the fields read here.)

  The current player is read with \<^verbatim>\<open>currentState.players[currentPlayerIndex]\<close> and is
  dereferenced only inside the callback of \<^verbatim>\<open>monsters.filter\<close>: with an index outside the
  list the handler fails when there is a monster, and goes on without damage when there is
  none. With no player at all it fails in either case: without a monster the next index is
  \<^verbatim>\<open>NaN\<close> (the remainder by 0), and \<^verbatim>\<open>currentState.players[nextIndex].name\<close> throws. The
  updater queued just before that would store \<^verbatim>\<open>NaN\<close> as the index, which the integer
  index of the model cannot hold; the model reports the failure.
\<close>

definition endTurn :: "bool \<Rightarrow> GameState \<Rightarrow> error + GameState" where
  "endTurn remote currentState =
     (if networkMode currentState = Client \<and> \<not> remote then Inr currentState
      else if players currentState = [] then Inl TypeError
      else case at_index (players currentState) (currentPlayerIndex currentState) of
             None \<Rightarrow> (if monsters currentState \<noteq> [] then Inl TypeError
                       else endTurn_advance currentState currentState)
           | Some player \<Rightarrow>
               let enemies = filter (\<lambda>m. m_x m = p_x player \<and> m_y m = p_y player) (monsters currentState);
                   totalDmg = sum_list (map damage enemies);
                   totalHorror = sum_list (map horror enemies);
                   prev = (if enemies \<noteq> [] \<and> (totalDmg > 0 \<or> totalHorror > 0)
                           then applyDamage_update (p_id player) totalDmg totalHorror
                                  (addLog (p_name player @ '' is attacked by enemies!'') currentState)
                           else currentState)
               in endTurn_advance currentState prev)"

text \<open>
  The Mythos event, once the content bridge has answered: monsters and players are rebuilt
  from \<^verbatim>\<open>currentState\<close>. A failure inside (no tile to spawn on) is caught and ends the
  Mythos phase at once.
\<close>

record MythosEventData =
  me_narrative :: string
  me_type :: MythosEventType
  me_param :: string

definition endMythosPhase :: "GameState \<Rightarrow> GameState \<Rightarrow> GameState" where
  "endMythosPhase currentState prev =
     (if players currentState = []
      then (addLog ''ALL INVESTIGATORS ELIMINATED'' prev)\<lparr>phase := GameOver\<rparr>
      else addLog ''New Round.''
             (prev\<lparr>phase := Playing, mythosEvent := None, currentPlayerIndex := 0,
                   players := map (\<lambda>p. (refreshed p)\<lparr>p_usedItemAbilityRound := False\<rparr>) (players prev)\<rparr>))"

definition runMythosPhase_event ::
  "GameState \<Rightarrow> MythosEventData \<Rightarrow> rat \<Rightarrow> string \<Rightarrow> GameState \<Rightarrow> GameState" where
  "runMythosPhase_event currentState event rand stamp prev =
     (case me_type event of
        SPAWN \<Rightarrow>
          (case at_index (tiles currentState) (random_index rand (length (tiles currentState))) of
             None \<Rightarrow> endMythosPhase prev prev
           | Some tile \<Rightarrow>
               let wanted = (if runMythosPhase_threat currentState > 6 then 2 else 1);
                   mTemplate = (case find (\<lambda>m. mt_tier m = wanted) MONSTER_TEMPLATES of
                                  Some t \<Rightarrow> t | None \<Rightarrow> hd MONSTER_TEMPLATES);
                   monster = \<lparr>m_id = ''m_'' @ stamp, templateId = mt_id mTemplate, m_name = mt_name mTemplate,
                               m_health = Num (mt_health mTemplate), maxHealth = mt_health mTemplate,
                               damage = mt_damage mTemplate, horror = mt_horror mTemplate,
                               m_x = tile_x tile, m_y = tile_y tile, tier = mt_tier mTemplate\<rparr>;
                   logMsg = me_narrative event @ '' A '' @ m_name monster @ '' appears!''
               in prev\<lparr>monsters := monsters currentState @ [monster],
                       players := players currentState,
                       mythosEvent := Some \<lparr>ev_text = logMsg, ev_type = SPAWN\<rparr>,
                       log := slice_last50 (log prev @ [logMsg])\<rparr>)
      | TEST \<Rightarrow>
          (let logMsg = me_narrative event @ '' The darkness presses in. All investigators take 1 Horror.''
           in prev\<lparr>monsters := monsters currentState,
                   players := map (\<lambda>p. p\<lparr>sanity := max 0 (sanity p - 1)\<rparr>) (players currentState),
                   mythosEvent := Some \<lparr>ev_text = logMsg, ev_type = TEST\<rparr>,
                   log := slice_last50 (log prev @ [logMsg])\<rparr>)
      | FLAVOR \<Rightarrow>
          prev\<lparr>monsters := monsters currentState,
               players := players currentState,
               mythosEvent := Some \<lparr>ev_text = me_narrative event, ev_type = FLAVOR\<rparr>,
               log := slice_last50 (log prev @ [me_narrative event])\<rparr>)"

text \<open>The damage the monsters on the player's tile deal at the end of the turn.\<close>

definition endTurn_totalDmg :: "GameState \<Rightarrow> Player \<Rightarrow> int" where
  "endTurn_totalDmg s player =
     sum_list (map damage (filter (\<lambda>m. m_x m = p_x player \<and> m_y m = p_y player) (monsters s)))"

section \<open>The content bridge (services/gemini)\<close>

text \<open>
  The bridge keeps one module-level flag, \<^verbatim>\<open>isOffline\<close>, initialised to \<^verbatim>\<open>!apiKey\<close>; the
  client object \<^verbatim>\<open>ai\<close> exists exactly when there is a key. The model adds a counter of
  the live calls attempted (each evaluation of the request thunk \<^verbatim>\<open>fn()\<close>), which the code
  does not keep, to make "no live call" a statement about the state.
\<close>

record Bridge =
  isOffline :: bool
  hasAi :: bool
  liveCalls :: nat

text \<open>
  What a live call may come back with: a response, whose \<^verbatim>\<open>text\<close> may be missing, or a
  rejection with an error object. The answers of the external service are a parameter of
  the model: \<^verbatim>\<open>env k\<close> is the outcome of the \<open>k\<close>-th live call.
\<close>

record ApiError =
  err_status :: "int option"
  err_code :: "int option"
  err_message :: "string option"

datatype LiveResult = Resolved "string option" | Rejected ApiError

definition isQuotaError :: "ApiError \<Rightarrow> bool" where
  "isQuotaError e \<longleftrightarrow>
     err_status e = Some 429 \<or> err_code e = Some 429
     \<or> (case err_message e of None \<Rightarrow> False | Some m \<Rightarrow> includes_str m ''quota'')
     \<or> (case err_message e of None \<Rightarrow> False | Some m \<Rightarrow> includes_str m ''429'')
     \<or> (case err_message e of None \<Rightarrow> False | Some m \<Rightarrow> includes_str m ''EXHAUSTED'')"

datatype BridgeError = OfflineMode | QuotaExceeded | ApiFailure ApiError

text \<open>
  \<^verbatim>\<open>generateWithRetry(fn, retries, delay)\<close>; the waiting between attempts has no effect on
  the state and is left out.
\<close>

fun generateWithRetry ::
  "(nat \<Rightarrow> LiveResult) \<Rightarrow> nat \<Rightarrow> Bridge \<Rightarrow> (BridgeError + string option) \<times> Bridge" where
  "generateWithRetry env retries br =
     (if isOffline br \<or> \<not> hasAi br then (Inl OfflineMode, br)
      else case env (liveCalls br) of
             Resolved r \<Rightarrow> (Inr r, br\<lparr>liveCalls := Suc (liveCalls br)\<rparr>)
           | Rejected e \<Rightarrow>
               if isQuotaError e
               then (Inl QuotaExceeded, br\<lparr>liveCalls := Suc (liveCalls br), isOffline := True\<rparr>)
               else (case retries of
                       Suc n \<Rightarrow> generateWithRetry env n (br\<lparr>liveCalls := Suc (liveCalls br)\<rparr>)
                     | 0 \<Rightarrow> (Inl (ApiFailure e), br\<lparr>liveCalls := Suc (liveCalls br)\<rparr>)))"

declare generateWithRetry.simps [simp del]

subsection \<open>Fallback generators\<close>

record Intro =
  title :: string
  introText :: string
  startingRoomDescription :: string

record SearchPoint =
  sp_description :: string
  sp_attribute :: string

record RoomData =
  rd_name :: string
  rd_description :: string
  visualType :: string
  searchPoints :: "SearchPoint list option"

definition getFallbackIntro :: Intro where
  "getFallbackIntro =
     \<lparr>title = ''The Silent Manor'',
      introText = ''You stand before the looming doors of Blackwood Manor. A letter from an old friend summoned you here, but the house stands silent. The heavy oak doors are unlocked, inviting you into the darkness.'',
      startingRoomDescription = ''A grand foyer, choked with dust and shadows. Portraits of long-dead ancestors seem to watch your every move.''\<rparr>"

text \<open>\<^verbatim>\<open>toLowerCase\<close> on the letters A to Z.\<close>

definition lower_char :: "char \<Rightarrow> char" where
  "lower_char c =
     (if (65::nat) \<le> of_char c \<and> of_char c \<le> (90::nat) then char_of (of_char c + (32::nat)) else c)"

definition toLowerCase :: "string \<Rightarrow> string" where
  "toLowerCase s = map lower_char s"

definition mkRoom :: "string \<Rightarrow> string \<Rightarrow> string \<Rightarrow> (string \<times> string) list \<Rightarrow> RoomData" where
  "mkRoom n d t points =
     \<lparr>rd_name = n, rd_description = d, visualType = t,
      searchPoints = Some (map (\<lambda>(d, a). \<lparr>sp_description = d, sp_attribute = a\<rparr>) points)\<rparr>"

definition fallbackMandatory :: "RoomData list" where
  "fallbackMandatory =
     [mkRoom ''Kitchen'' ''Smells of rot.'' ''kitchen'' [(''Pantry'', ''Observation''), (''Icebox'', ''Strength'')],
      mkRoom ''Bathroom'' ''Dripping tap.'' ''bathroom'' [(''Medicine Cabinet'', ''Lore''), (''Bathtub'', ''Observation'')]]"

definition fallbackRooms :: "RoomData list" where
  "fallbackRooms =
     [mkRoom ''Dusty Library'' ''Shelves lined with rotting books.'' ''study''
        [(''Ancient Tome'', ''Lore''), (''Desk Drawer'', ''Observation'')],
      mkRoom ''Guest Bedroom'' ''The bed is made, but cold.'' ''bedroom''
        [(''Under mattress'', ''Observation''), (''Wardrobe'', ''Strength'')],
      mkRoom ''Master Bedroom'' ''The grandeur has faded.'' ''bedroom''
        [(''Vanity'', ''Influence''), (''Jewelry Box'', ''Agility'')],
      mkRoom ''Storage Closet'' ''Filled with junk.'' ''closet''
        [(''Old boxes'', ''Strength''), (''Shelf'', ''Observation'')],
      mkRoom ''Ritual Chamber'' ''Bloodstains mar the floor.'' ''ritual''
        [(''The Altar'', ''Will''), (''Runes'', ''Lore'')]]"

text \<open>
  \<^verbatim>\<open>getFallbackRoom\<close>: \<^verbatim>\<open>rand\<close> is the \<^verbatim>\<open>Math.random()\<close> that picks among the missing
  mandatory rooms, \<^verbatim>\<open>now\<close> the \<^verbatim>\<open>Date.now()\<close> that picks from the pool.
\<close>

definition getFallbackRoom :: "rat \<Rightarrow> nat \<Rightarrow> string \<Rightarrow> string \<Rightarrow> string list \<Rightarrow> RoomData" where
  "getFallbackRoom rand now dir fromType existingTypes =
     (let normalizedTypes = map toLowerCase existingTypes in
      if fromType \<noteq> ''hallway''
      then mkRoom ''Corridor'' ''A narrow, paneled hallway stretching into darkness.'' ''hallway''
             [(''A discarded note'', ''Observation''), (''A loose floorboard'', ''Strength'')]
      else
        let missing = filter (\<lambda>m. visualType m \<notin> set normalizedTypes) fallbackMandatory in
        if missing \<noteq> [] then missing ! nat (random_index rand (length missing))
        else
          let available = filter (\<lambda>r. visualType r = ''bedroom'' \<or> visualType r = ''closet''
                                         \<or> visualType r \<notin> set normalizedTypes) fallbackRooms;
              pool = (if available \<noteq> [] then available
                      else filter (\<lambda>r. visualType r = ''bedroom'' \<or> visualType r = ''closet'') fallbackRooms)
          in pool ! (now mod length pool))"

definition getFallbackMythos :: "int \<Rightarrow> MythosEventData" where
  "getFallbackMythos threatLevel =
     (if threatLevel < 3
      then \<lparr>me_narrative = ''A cold draft extinguishes the candles for a moment. You feel watched.'',
            me_type = FLAVOR, me_param = ''None''\<rparr>
      else if threatLevel < 6
      then \<lparr>me_narrative = ''A sudden noise from the darkness tests your nerves! Test Willpower.'',
            me_type = TEST, me_param = ''Will''\<rparr>
      else \<lparr>me_narrative = ''Something emerges from the shadows! A monster appears!'',
            me_type = SPAWN, me_param = ''Monster''\<rparr>)"

definition getFallbackInsanity :: "nat \<Rightarrow> string" where
  "getFallbackInsanity now =
     [''You must end the game with at least 2 items in your inventory.'',
      ''You must not attack any monsters for the rest of the game.'',
      ''You must try to set fire to the mansion (Roleplay only).'',
      ''You are convinced another investigator is a doppelganger. Do not end your turn in their space.'']
     ! (now mod 4)"

text \<open>The text \<^verbatim>\<open>generateInvestigationOutcome\<close> answers with while the bridge is offline.\<close>

definition offlineOutcome :: "string \<Rightarrow> bool \<Rightarrow> string option \<Rightarrow> string" where
  "offlineOutcome tokenDesc success foundObject =
     (if \<not> success then ''You search the '' @ tokenDesc @ '' but find nothing of value.''
      else case foundObject of
             Some obj \<Rightarrow> (if obj \<noteq> [] then ''You rummage through the '' @ tokenDesc @ '' and find '' @ obj @ ''.''
                          else ''You search the '' @ tokenDesc @ '' and find a clue.'')
           | None \<Rightarrow> ''You search the '' @ tokenDesc @ '' and find a clue.'')"

subsection \<open>The five generators\<close>

text \<open>
  \<^verbatim>\<open>JSON.parse(cleanJson(text))\<close> is a parameter of the model: a function that gives the
  parsed value, or nothing where the code would throw.
\<close>

record Parsers =
  parseIntro :: "string \<Rightarrow> Intro option"
  parseRoom :: "string \<Rightarrow> RoomData option"
  parseMythos :: "string \<Rightarrow> MythosEventData option"

definition generateIntro :: "Parsers \<Rightarrow> (nat \<Rightarrow> LiveResult) \<Rightarrow> Bridge \<Rightarrow> Intro \<times> Bridge" where
  "generateIntro ps env br =
     (if isOffline br then (getFallbackIntro, br)
      else case generateWithRetry env 1 br of
             (Inr (Some text), br') \<Rightarrow>
               (if text = [] then (getFallbackIntro, br')
                else case parseIntro ps text of Some v \<Rightarrow> (v, br') | None \<Rightarrow> (getFallbackIntro, br'))
           | (Inr None, br') \<Rightarrow> (getFallbackIntro, br')
           | (Inl e, br') \<Rightarrow> (getFallbackIntro, br'))"

definition generateRoomDiscovery ::
  "Parsers \<Rightarrow> (nat \<Rightarrow> LiveResult) \<Rightarrow> rat \<Rightarrow> nat \<Rightarrow> string \<Rightarrow> string \<Rightarrow> string list \<Rightarrow> Bridge
     \<Rightarrow> RoomData \<times> Bridge" where
  "generateRoomDiscovery ps env rand now dir fromRoomType existingTypes br =
     (if isOffline br then (getFallbackRoom rand now dir fromRoomType existingTypes, br)
      else case generateWithRetry env 1 br of
             (Inr text, br') \<Rightarrow>
               (case parseRoom ps (case text of Some t \<Rightarrow> t | None \<Rightarrow> []) of
                  Some v \<Rightarrow> (v, br')
                | None \<Rightarrow> (getFallbackRoom rand now dir fromRoomType existingTypes, br'))
           | (Inl e, br') \<Rightarrow> (getFallbackRoom rand now dir fromRoomType existingTypes, br'))"

text \<open>The two text generators return \<^verbatim>\<open>response.text\<close> as it is, which may be missing.\<close>

definition generateInvestigationOutcome ::
  "(nat \<Rightarrow> LiveResult) \<Rightarrow> string \<Rightarrow> bool \<Rightarrow> string option \<Rightarrow> Bridge \<Rightarrow> string option \<times> Bridge" where
  "generateInvestigationOutcome env tokenDesc success foundObject br =
     (if isOffline br then (Some (offlineOutcome tokenDesc success foundObject), br)
      else case generateWithRetry env 1 br of
             (Inr text, br') \<Rightarrow> (text, br')
           | (Inl e, br') \<Rightarrow>
               (Some (if success
                      then ''You found '' @ (case foundObject of Some obj \<Rightarrow> (if obj \<noteq> [] then obj else ''something'')
                                                             | None \<Rightarrow> ''something'') @ ''.''
                      else ''You found nothing.''), br'))"

definition generateMythosEvent ::
  "Parsers \<Rightarrow> (nat \<Rightarrow> LiveResult) \<Rightarrow> int \<Rightarrow> Bridge \<Rightarrow> MythosEventData \<times> Bridge" where
  "generateMythosEvent ps env threatLevel br =
     (if isOffline br then (getFallbackMythos threatLevel, br)
      else case generateWithRetry env 1 br of
             (Inr text, br') \<Rightarrow>
               (case parseMythos ps (case text of Some t \<Rightarrow> t | None \<Rightarrow> []) of
                  Some v \<Rightarrow> (v, br')
                | None \<Rightarrow> (getFallbackMythos threatLevel, br'))
           | (Inl e, br') \<Rightarrow> (getFallbackMythos threatLevel, br'))"

definition generateInsanityCondition ::
  "(nat \<Rightarrow> LiveResult) \<Rightarrow> nat \<Rightarrow> Bridge \<Rightarrow> string option \<times> Bridge" where
  "generateInsanityCondition env now br =
     (if isOffline br then (Some (getFallbackInsanity now), br)
      else case generateWithRetry env 1 br of
             (Inr text, br') \<Rightarrow> (text, br')
           | (Inl e, br') \<Rightarrow> (Some (getFallbackInsanity now), br'))"

subsection \<open>A session's calls to the bridge\<close>

text \<open>
  A request names one of the five generators with its arguments and with the readings of
  \<^verbatim>\<open>Math.random()\<close> and \<^verbatim>\<open>Date.now()\<close> its fallback would take.
\<close>

datatype Request =
  ReqIntro
| ReqRoom rat nat string string "string list"
| ReqOutcome string bool "string option"
| ReqMythos int
| ReqInsanity nat

datatype Content = CIntro Intro | CRoom RoomData | CMythos MythosEventData | CText "string option"

fun serve :: "Parsers \<Rightarrow> (nat \<Rightarrow> LiveResult) \<Rightarrow> Request \<Rightarrow> Bridge \<Rightarrow> Content \<times> Bridge" where
  "serve ps env ReqIntro br = map_prod CIntro id (generateIntro ps env br)"
| "serve ps env (ReqRoom rand now dir fromType existing) br =
     map_prod CRoom id (generateRoomDiscovery ps env rand now dir fromType existing br)"
| "serve ps env (ReqOutcome tokenDesc success foundObject) br =
     map_prod CText id (generateInvestigationOutcome env tokenDesc success foundObject br)"
| "serve ps env (ReqMythos threatLevel) br = map_prod CMythos id (generateMythosEvent ps env threatLevel br)"
| "serve ps env (ReqInsanity now) br = map_prod CText id (generateInsanityCondition env now br)"

text \<open>The fallback content of a request.\<close>

fun fallbackFor :: "Request \<Rightarrow> Content" where
  "fallbackFor ReqIntro = CIntro getFallbackIntro"
| "fallbackFor (ReqRoom rand now dir fromType existing) = CRoom (getFallbackRoom rand now dir fromType existing)"
| "fallbackFor (ReqOutcome tokenDesc success foundObject) = CText (Some (offlineOutcome tokenDesc success foundObject))"
| "fallbackFor (ReqMythos threatLevel) = CMythos (getFallbackMythos threatLevel)"
| "fallbackFor (ReqInsanity now) = CText (Some (getFallbackInsanity now))"

text \<open>The calls of a session, one after the other.\<close>

fun serveAll :: "Parsers \<Rightarrow> (nat \<Rightarrow> LiveResult) \<Rightarrow> Request list \<Rightarrow> Bridge \<Rightarrow> Content list \<times> Bridge" where
  "serveAll ps env [] br = ([], br)"
| "serveAll ps env (req # reqs) br =
     (case serve ps env req br of
        (c, br') \<Rightarrow> (case serveAll ps env reqs br' of (cs, br'') \<Rightarrow> (c # cs, br'')))"

section \<open>Exploring through a door (handleTokenClick)\<close>

definition formatRoomName :: "string \<Rightarrow> string" where
  "formatRoomName n = (if startsWith (toLowerCase n) ''the '' then n else ''The '' @ n)"

text \<open>The cell a door leads to; a door without a direction counts as a north door.\<close>

definition tokenDir :: "Token \<Rightarrow> Direction" where
  "tokenDir token = (case direction token of Some d \<Rightarrow> d | None \<Rightarrow> North)"

definition entryCell :: "Token \<Rightarrow> int \<times> int" where
  "entryCell token =
     (case tokenDir token of
        North \<Rightarrow> (tok_x token, tok_y token - 1)
      | South \<Rightarrow> (tok_x token, tok_y token + 1)
      | East \<Rightarrow> (tok_x token + 1, tok_y token)
      | West \<Rightarrow> (tok_x token - 1, tok_y token))"

definition oppositeDir :: "Direction \<Rightarrow> Direction" where
  "oppositeDir d = (case d of North \<Rightarrow> South | South \<Rightarrow> North | East \<Rightarrow> West | West \<Rightarrow> East)"

definition dirName :: "Direction \<Rightarrow> string" where
  "dirName d = (case d of North \<Rightarrow> ''North'' | South \<Rightarrow> ''South'' | East \<Rightarrow> ''East'' | West \<Rightarrow> ''West'')"

text \<open>\<^verbatim>\<open>tiles.some(t => t.x === x && t.y === y)\<close>\<close>

definition tileAt :: "Tile list \<Rightarrow> int \<Rightarrow> int \<Rightarrow> bool" where
  "tileAt ts x y = list_ex (\<lambda>t. tile_x t = x \<and> tile_y t = y) ts"

text \<open>
  What the handler does before it asks the content bridge for a room. \<^verbatim>\<open>rand\<close> and
  \<^verbatim>\<open>rand2\<close> are the two draws of the Search branch. The outcome is either a finished
  state, or the request for a room that the handler now waits for.
\<close>

datatype ClickOutcome = Finished GameState | AwaitRoom

definition attributeOf :: "string \<Rightarrow> Attribute option" where
  "attributeOf a =
     (if a = ''Strength'' then Some Strength else if a = ''Agility'' then Some Agility
      else if a = ''Observation'' then Some Observation else if a = ''Lore'' then Some Lore
      else if a = ''Influence'' then Some Influence else if a = ''Will'' then Some Will
      else if a = [] then Some Observation else None)"

definition handleTokenClick_start :: "Token \<Rightarrow> bool \<Rightarrow> rat \<Rightarrow> rat \<Rightarrow> GameState \<Rightarrow> error + ClickOutcome" where
  "handleTokenClick_start token remote rand rand2 currentState =
     (if phase currentState \<noteq> Playing then Inr (Finished currentState)
      else if networkMode currentState = Client \<and> \<not> remote then Inr (Finished currentState)
      else case at_index (players currentState) (currentPlayerIndex currentState) of
        None \<Rightarrow> Inl TypeError
      | Some player \<Rightarrow>
          if p_x player \<noteq> tok_x token \<or> p_y player \<noteq> tok_y token
          then Inr (Finished (addLog ''You must be in the same area to interact.'' currentState))
          else if tok_type token = Escape then Inr (Finished (currentState\<lparr>phase := Victory\<rparr>))
          else if actionsRemaining player \<le> 0
          then Inr (Finished (addLog ''No actions remaining.'' currentState))
          else if tok_type token = Explore
          then (if tileAt (tiles currentState) (fst (entryCell token)) (snd (entryCell token))
                then Inr (Finished
                       ((updatePlayerAction (p_id player) (- 1)
                          (addLog (p_name player @ '' opens the door, but it leads to a known room.'') currentState))
                        \<lparr>tokens := map (\<lambda>t. if tok_id t = tok_id token then t\<lparr>resolved := True\<rparr> else t)
                                       (tokens currentState)\<rparr>))
                else Inr AwaitRoom)
          else if tok_type token = Search
          then (if rand > 7 / 10
                then Inr (Finished (currentState\<lparr>phase := Puzzle,
                       activePuzzle := Some \<lparr>puzzle_type = (if rand2 < 33 / 100 then Sliding
                                                              else if rand2 < 66 / 100 then Rune else Code),
                                              puzzle_token = token,
                                              puzzle_context = SEARCH (tok_id token)\<rparr>\<rparr>))
                else Inr (Finished (currentState\<lparr>phase := DiceRoll,
                       activeDiceRoll := Some
                         \<lparr>playerId = p_id player,
                          adr_attribute = (case requiredAttribute token of Some a \<Rightarrow> a | None \<Rightarrow> Observation),
                          adr_count = attr_score (attributes player)
                                        (case requiredAttribute token of Some a \<Rightarrow> a | None \<Rightarrow> Observation),
                          adr_target = (case tok_difficulty token of
                                          Some d \<Rightarrow> (if d = 0 then 1 else d) | None \<Rightarrow> 1),
                          adr_description = tok_description token,
                          adr_context = SEARCH (tok_id token)\<rparr>\<rparr>)))
          else Inr (Finished currentState))"

text \<open>
  The draws of the room layout: whether to take the 2 by 2 footprint, the forward and the
  sideways extension, the number of exits, the picks among the remaining directions and
  among the candidate door tiles (a reading of \<^verbatim>\<open>Math.random()\<close> each), and the order
  in which the random sort leaves the new tiles (positions into the list of new tiles).
\<close>

record ExploreDraws =
  draw2x2 :: rat
  drawForward :: rat
  drawSideways :: rat
  drawExitCount :: rat
  drawExits :: "rat list"
  drawDoorTiles :: "rat list"
  shuffleOrder :: "nat list"

text \<open>
  The tiles of the new room: the entry tile, and for every kind of room but hallways and
  closets up to three more cells, each checked against the tiles of \<^verbatim>\<open>currentState\<close> (the
  state read when the door was clicked) and against the new tiles so far.
\<close>

definition mkTile :: "string \<Rightarrow> string \<Rightarrow> string \<Rightarrow> string \<Rightarrow> int \<times> int \<Rightarrow> string \<Rightarrow> Tile" where
  "mkTile i room n d pos t =
     \<lparr>tile_id = i, roomId = room, tile_name = n, tile_description = d,
      tile_x = fst pos, tile_y = snd pos, imageType = t\<rparr>"

definition explore_newTiles :: "Token \<Rightarrow> RoomData \<Rightarrow> ExploreDraws \<Rightarrow> string \<Rightarrow> GameState \<Rightarrow> Tile list" where
  "explore_newTiles token roomData draws stamp currentState =
     (let dir = tokenDir token;
          (entryX, entryY) = entryCell token;
          roomName = formatRoomName (rd_name roomData);
          newRoomId = ''room_'' @ stamp;
          vt = toLowerCase (visualType roomData);
          entryTile = mkTile (''tile_'' @ stamp @ ''_entry'') newRoomId roomName (rd_description roomData)
                        (entryX, entryY) vt;
          checkOccupied = (\<lambda>(x, y). tileAt (tiles currentState) x y \<or> tileAt [entryTile] x y);
          (dx, dy, orthoX, orthoY) =
             (case dir of North \<Rightarrow> (0, - 1, 1, 0) | South \<Rightarrow> (0, 1, 1, 0)
                        | East \<Rightarrow> (1, 0, 0, 1) | West \<Rightarrow> (- 1, 0, 0, 1));
          p1 = (entryX + dx, entryY + dy);
          p2 = (entryX + orthoX, entryY + orthoY);
          p3 = (entryX + dx + orthoX, entryY + dy + orthoY);
          can2x2 = (\<not> checkOccupied p1 \<and> \<not> checkOccupied p2 \<and> \<not> checkOccupied p3)
      in if vt = ''hallway'' \<or> vt = ''closet'' then [entryTile]
         else if can2x2 \<and> draw2x2 draws > 5 / 10
         then [entryTile,
               mkTile (''tile_'' @ stamp @ ''_0'') newRoomId roomName [] p1 vt,
               mkTile (''tile_'' @ stamp @ ''_1'') newRoomId roomName [] p2 vt,
               mkTile (''tile_'' @ stamp @ ''_2'') newRoomId roomName [] p3 vt]
         else if \<not> checkOccupied p1 \<and> drawForward draws > 2 / 10
         then [entryTile, mkTile (''tile_'' @ stamp @ ''_fwd'') newRoomId roomName [] p1 vt]
         else if \<not> checkOccupied p2 \<and> drawSideways draws > 2 / 10
         then [entryTile, mkTile (''tile_'' @ stamp @ ''_side'') newRoomId roomName [] p2 vt]
         else [entryTile])"

text \<open>The exits: directions are spliced out of the three that do not lead back.\<close>

fun pickExits :: "nat \<Rightarrow> rat list \<Rightarrow> Direction list \<Rightarrow> Direction list" where
  "pickExits 0 rs possibleDirs = []"
| "pickExits (Suc n) rs [] = []"
| "pickExits (Suc n) [] possibleDirs = []"
| "pickExits (Suc n) (r # rs) possibleDirs =
     (let k = nat (random_index r (length possibleDirs))
      in possibleDirs ! k # pickExits n rs (take k possibleDirs @ drop (Suc k) possibleDirs))"

definition explore_selectedExits :: "Token \<Rightarrow> RoomData \<Rightarrow> ExploreDraws \<Rightarrow> Direction list" where
  "explore_selectedExits token roomData draws =
     (let exitCount = (if toLowerCase (visualType roomData) = ''hallway'' then 2
                       else if drawExitCount draws > 6 / 10 then 2 else 1)
      in pickExits exitCount (drawExits draws)
           (filter (\<lambda>d. d \<noteq> oppositeDir (tokenDir token)) [North, South, East, West]))"

definition explore_newTokens ::
  "Token \<Rightarrow> RoomData \<Rightarrow> ExploreDraws \<Rightarrow> string \<Rightarrow> Tile list \<Rightarrow> Token list" where
  "explore_newTokens token roomData draws stamp newTiles =
     (let xs = map tile_x newTiles; ys = map tile_y newTiles;
          minX = Min (set xs); minY = Min (set ys); maxX = Max (set xs); maxY = Max (set ys);
          isHallway = (toLowerCase (visualType roomData) = ''hallway'');
          points = (case searchPoints roomData of
                      Some ps \<Rightarrow> ps
                    | None \<Rightarrow> [\<lparr>sp_description = ''Unknown'', sp_attribute = ''Observation''\<rparr>]);
          shuffledTiles = map (\<lambda>i. newTiles ! i) (shuffleOrder draws);
          searchTokens =
            map (\<lambda>(index, point).
                   let targetTile = shuffledTiles ! (index mod length shuffledTiles)
                   in \<lparr>tok_id = ''tok_'' @ stamp @ ''_search_'' @ show_nat index, tok_type = Search,
                       tok_x = tile_x targetTile, tok_y = tile_y targetTile,
                       tok_description = sp_description point, resolved = False,
                       requiredAttribute = attributeOf (sp_attribute point),
                       tok_difficulty = Some 2, direction = None\<rparr>)
                (enumerate 0 points);
          doorTokens =
            map (\<lambda>(i, exDir, r).
                   let candidates = filter (\<lambda>t. case exDir of
                                                     North \<Rightarrow> tile_y t = minY | South \<Rightarrow> tile_y t = maxY
                                                   | West \<Rightarrow> tile_x t = minX | East \<Rightarrow> tile_x t = maxX)
                                           newTiles;
                       doorTile = (if candidates \<noteq> []
                                   then candidates ! nat (random_index r (length candidates))
                                   else newTiles ! nat (random_index r (length newTiles)))
                   in \<lparr>tok_id = ''tok_'' @ stamp @ ''_door_'' @ show_nat i, tok_type = Explore,
                       tok_x = tile_x doorTile, tok_y = tile_y doorTile,
                       tok_description = (if isHallway then ''Heavy Door'' else ''Side Door''),
                       resolved = False, requiredAttribute = None, tok_difficulty = None,
                       direction = Some exDir\<rparr>)
                (zip [0..<length (explore_selectedExits token roomData draws)]
                     (zip (explore_selectedExits token roomData draws) (drawDoorTiles draws)))
      in searchTokens @ doorTokens)"

text \<open>
  The continuation that runs when the room has come back from the content bridge. The new
  tiles were computed against \<^verbatim>\<open>currentState\<close>; the updater appends them to the tiles of
  \<^verbatim>\<open>prev\<close>, the state at that later moment, and takes tokens and players from
  \<^verbatim>\<open>currentState\<close>.
\<close>

definition handleTokenClick_place ::
  "Token \<Rightarrow> RoomData \<Rightarrow> ExploreDraws \<Rightarrow> string \<Rightarrow> GameState \<Rightarrow> GameState \<Rightarrow> error + GameState" where
  "handleTokenClick_place token roomData draws stamp currentState prev =
     (case at_index (players currentState) (currentPlayerIndex currentState) of
        None \<Rightarrow> Inl TypeError
      | Some player \<Rightarrow>
          let newTiles = explore_newTiles token roomData draws stamp currentState;
              newTokens = explore_newTokens token roomData draws stamp newTiles;
              roomName = formatRoomName (rd_name roomData);
              (entryX, entryY) = entryCell token;
              updatedPlayers = map (\<lambda>p. if p_id p = p_id player
                                         then p\<lparr>p_x := entryX, p_y := entryY,
                                                actionsRemaining := actionsRemaining p - 1\<rparr>
                                         else p) (players currentState);
              updatedTokens = map (\<lambda>t. if tok_id t = tok_id token then t\<lparr>resolved := True\<rparr> else t)
                                  (tokens currentState)
          in Inr (prev\<lparr>tiles := tiles prev @ newTiles,
                       tokens := updatedTokens @ newTokens,
                       players := updatedPlayers,
                       storyContext := storyContext prev @ '' They entered '' @ roomName @ ''. ''
                                         @ rd_description roomData,
                       log := slice_last50 (log prev @ [p_name player @ '' explores '' @ roomName @ ''. ''
                                                         @ rd_description roomData])\<rparr>))"

text \<open>No two tiles of a list on the same grid cell.\<close>

definition tileCoords :: "Tile list \<Rightarrow> (int \<times> int) list" where
  "tileCoords ts = map (\<lambda>t. (tile_x t, tile_y t)) ts"

section \<open>Monster movement (moveMonsters)\<close>

text \<open>
  \<^verbatim>\<open>moveMonsters\<close> belongs to the variant of the application whose round transition is
  \<^verbatim>\<open>startMythosPhase\<close>; the variant with tagged action contexts has no such function, and
  its \<^verbatim>\<open>runMythosPhase\<close> (above) stores the monsters it read.
\<close>

text \<open>
  The door-connectivity test between two tiles. The direction from the first tile to the
  second is found by four assignments in a row, a later one overriding an earlier one;
  it stays empty when the tiles are on the same cell.
\<close>

definition canMove :: "Token list \<Rightarrow> Tile \<Rightarrow> Tile \<Rightarrow> bool" where
  "canMove toks t1 t2 =
     (if roomId t1 = roomId t2 then True
      else
        let d0 = (if tile_y t2 < tile_y t1 then Some North else None);
            d1 = (if tile_y t2 > tile_y t1 then Some South else d0);
            d2 = (if tile_x t2 > tile_x t1 then Some East else d1);
            dir = (if tile_x t2 < tile_x t1 then Some West else d2);
            doorAtT1 = find (\<lambda>t. tok_type t = Explore \<and> resolved t \<and> tok_x t = tile_x t1 \<and> tok_y t = tile_y t1
                                  \<and> dir \<noteq> None \<and> direction t = dir) toks;
            oppDir = (case dir of Some North \<Rightarrow> South | Some South \<Rightarrow> North | Some East \<Rightarrow> West
                                | Some West \<Rightarrow> East | None \<Rightarrow> East);
            doorAtT2 = find (\<lambda>t. tok_type t = Explore \<and> resolved t \<and> tok_x t = tile_x t2 \<and> tok_y t = tile_y t2
                                  \<and> direction t = Some oppDir) toks
        in doorAtT1 \<noteq> None \<or> doorAtT2 \<noteq> None)"

type_synonym cell = "int \<times> int"

definition neighbors :: "cell \<Rightarrow> cell list" where
  "neighbors c = [(fst c, snd c - 1), (fst c, snd c + 1), (fst c + 1, snd c), (fst c - 1, snd c)]"

text \<open>\<^verbatim>\<open>tiles.find(t => t.x === x && t.y === y)\<close> and \<^verbatim>\<open>players.some(p => p.x === x && p.y === y)\<close>\<close>

definition tileOn :: "Tile list \<Rightarrow> cell \<Rightarrow> Tile option" where
  "tileOn ts c = find (\<lambda>t. tile_x t = fst c \<and> tile_y t = snd c) ts"

definition playerOn :: "Player list \<Rightarrow> cell \<Rightarrow> bool" where
  "playerOn ps c = list_ex (\<lambda>p. p_x p = fst c \<and> p_y p = snd c) ps"

text \<open>
  The inner loop over the four neighbours of the cell taken from the queue: a neighbour not
  yet visited that has a tile the current tile connects to is marked visited and queued
  with the path extended by it. The visited set of the code holds the cells as strings
  \<^verbatim>\<open>"x,y"\<close>; the model keeps the cells.
\<close>

fun visitNeighbors ::
  "Tile list \<Rightarrow> Token list \<Rightarrow> Tile \<Rightarrow> cell list \<Rightarrow> cell list \<Rightarrow> (cell \<times> cell list) list \<times> cell list
     \<Rightarrow> (cell \<times> cell list) list \<times> cell list" where
  "visitNeighbors ts toks currentTile path [] (queue, visited) = (queue, visited)"
| "visitNeighbors ts toks currentTile path (n # ns) (queue, visited) =
     (if n \<in> set visited then visitNeighbors ts toks currentTile path ns (queue, visited)
      else case tileOn ts n of
             None \<Rightarrow> visitNeighbors ts toks currentTile path ns (queue, visited)
           | Some nextTile \<Rightarrow>
               if canMove toks currentTile nextTile
               then visitNeighbors ts toks currentTile path ns (queue @ [(n, path @ [n])], visited @ [n])
               else visitNeighbors ts toks currentTile path ns (queue, visited))"

text \<open>What is left to visit: the number of cells that carry a tile and are not yet visited.\<close>

definition unvisited :: "Tile list \<Rightarrow> cell list \<Rightarrow> nat" where
  "unvisited ts visited = card (set (tileCoords ts) - set visited)"

lemma tileOn_Some_coords: "tileOn ts c = Some t \<Longrightarrow> c \<in> set (tileCoords ts)"
proof -
  assume "tileOn ts c = Some t"
  then have "t \<in> set ts" "tile_x t = fst c \<and> tile_y t = snd c"
    by (auto simp: tileOn_def find_Some_iff)
  then show ?thesis
    by (force simp: tileCoords_def)
qed

lemma unvisited_mark:
  assumes "c \<in> set (tileCoords ts)" "c \<notin> set visited"
  shows "Suc (unvisited ts (visited @ [c])) = unvisited ts visited"
proof -
  have "set (tileCoords ts) - set (visited @ [c]) = (set (tileCoords ts) - set visited) - {c}"
    by auto
  moreover have "c \<in> set (tileCoords ts) - set visited"
    using assms by simp
  ultimately show ?thesis
    using card.remove [of "set (tileCoords ts) - set visited" c]
    by (simp add: unvisited_def)
qed

lemma visitNeighbors_measure:
  "visitNeighbors ts toks currentTile path ns (queue, visited) = (queue', visited') \<Longrightarrow>
   2 * unvisited ts visited' + length queue' \<le> 2 * unvisited ts visited + length queue"
proof (induction ns arbitrary: queue visited)
  case Nil
  then show ?case by simp
next
  case (Cons n ns)
  show ?case
  proof (cases "n \<in> set visited")
    case True
    with Cons show ?thesis by simp
  next
    case False
    show ?thesis
    proof (cases "tileOn ts n")
      case None
      with False Cons show ?thesis by simp
    next
      case (Some nextTile)
      show ?thesis
      proof (cases "canMove toks currentTile nextTile")
        case True
        with False Some Cons.prems
        have "visitNeighbors ts toks currentTile path ns (queue @ [(n, path @ [n])], visited @ [n]) = (queue', visited')"
          by simp
        from Cons.IH [OF this] unvisited_mark [OF tileOn_Some_coords [OF Some] False]
        show ?thesis by simp
      next
        case nc: False
        with False Some Cons show ?thesis by simp
      qed
    qed
  qed
qed

text \<open>
  The search loop: the queue holds cells with the path that led to them; the first cell
  taken from the queue on which a player stands ends the search with its path. A cell
  without a tile is dropped.
\<close>

function bfs ::
  "Player list \<Rightarrow> Tile list \<Rightarrow> Token list \<Rightarrow> (cell \<times> cell list) list \<Rightarrow> cell list \<Rightarrow> cell list option" where
  "bfs ps ts toks [] visited = None"
| "bfs ps ts toks ((c, path) # queue) visited =
     (if playerOn ps c then Some path
      else case tileOn ts c of
             None \<Rightarrow> bfs ps ts toks queue visited
           | Some currentTile \<Rightarrow>
               bfs ps ts toks (fst (visitNeighbors ts toks currentTile path (neighbors c) (queue, visited)))
                              (snd (visitNeighbors ts toks currentTile path (neighbors c) (queue, visited))))"
  by pat_completeness auto
termination
proof (relation "measure (\<lambda>(ps, ts, toks, queue, visited). 2 * unvisited ts visited + length queue)")
  show "wf (measure (\<lambda>(ps, ts, toks, queue, visited). 2 * unvisited ts visited + length queue))"
    by simp
next
  fix ps :: "Player list" and ts :: "Tile list" and toks :: "Token list" and c :: cell
    and path :: "cell list" and queue :: "(cell \<times> cell list) list" and visited :: "cell list"
  show "((ps, ts, toks, queue, visited), (ps, ts, toks, (c, path) # queue, visited))
        \<in> measure (\<lambda>(ps, ts, toks, queue, visited). 2 * unvisited ts visited + length queue)"
    by simp
next
  fix ps :: "Player list" and ts :: "Tile list" and toks :: "Token list" and c :: cell
    and path :: "cell list" and queue :: "(cell \<times> cell list) list" and visited :: "cell list"
    and currentTile :: Tile
  obtain q' v' where r: "visitNeighbors ts toks currentTile path (neighbors c) (queue, visited) = (q', v')"
    by (cases "visitNeighbors ts toks currentTile path (neighbors c) (queue, visited)") auto
  from visitNeighbors_measure [OF r]
  show "((ps, ts, toks, fst (visitNeighbors ts toks currentTile path (neighbors c) (queue, visited)),
           snd (visitNeighbors ts toks currentTile path (neighbors c) (queue, visited))),
          (ps, ts, toks, (c, path) # queue, visited))
        \<in> measure (\<lambda>(ps, ts, toks, queue, visited). 2 * unvisited ts visited + length queue)"
    by (simp add: r)
qed

declare bfs.simps [simp del]

definition monsterSpeed :: "Monster \<Rightarrow> nat" where
  "monsterSpeed monster = (if tier monster = 3 then 3 else 2)"

text \<open>One monster's move: up to \<^verbatim>\<open>speed\<close> cells along the path found, if there is one.\<close>

definition moveMonster :: "Player list \<Rightarrow> Tile list \<Rightarrow> Token list \<Rightarrow> Monster \<Rightarrow> Monster" where
  "moveMonster ps ts toks monster =
     (case bfs ps ts toks [((m_x monster, m_y monster), [])] [(m_x monster, m_y monster)] of
        None \<Rightarrow> monster
      | Some targetPath \<Rightarrow>
          if targetPath \<noteq> []
          then let steps = min (monsterSpeed monster) (length targetPath);
                   dest = targetPath ! (steps - 1)
               in monster\<lparr>m_x := fst dest, m_y := snd dest\<rparr>
          else monster)"

definition moveMonsters :: "GameState \<Rightarrow> Monster list" where
  "moveMonsters currentGameState =
     map (moveMonster (players currentGameState) (tiles currentGameState) (tokens currentGameState))
         (monsters currentGameState)"

text \<open>
  The round transition of this variant starts with the move of every monster:
  \<^verbatim>\<open>startMythosPhase\<close> computes the moved monsters from the state it reads and stores them.
\<close>

definition startMythosPhase_move :: "GameState \<Rightarrow> GameState \<Rightarrow> GameState" where
  "startMythosPhase_move currentState prev = prev\<lparr>monsters := moveMonsters currentState\<rparr>"

subsection \<open>The graph the search runs on\<close>

text \<open>
  The graph the search runs on: a move from a cell to a neighbouring cell is open when both
  cells carry a tile and the door-connectivity test passes between the two tiles.
\<close>

definition passable :: "Tile list \<Rightarrow> Token list \<Rightarrow> Tile \<Rightarrow> cell \<Rightarrow> bool" where
  "passable ts toks currentTile n = (case tileOn ts n of Some t \<Rightarrow> canMove toks currentTile t | None \<Rightarrow> False)"

definition linked :: "Tile list \<Rightarrow> Token list \<Rightarrow> cell \<Rightarrow> cell \<Rightarrow> bool" where
  "linked ts toks u v =
     (v \<in> set (neighbors u) \<and> (case tileOn ts u of Some tu \<Rightarrow> passable ts toks tu v | None \<Rightarrow> False))"

text \<open>A walk from a cell: every step is an open move.\<close>

fun walk :: "Tile list \<Rightarrow> Token list \<Rightarrow> cell \<Rightarrow> cell list \<Rightarrow> bool" where
  "walk ts toks u [] = True"
| "walk ts toks u (v # p) = (linked ts toks u v \<and> walk ts toks v p)"

text \<open>The cells that the step from the head of the queue adds.\<close>

definition fresh :: "Tile list \<Rightarrow> Token list \<Rightarrow> cell \<Rightarrow> cell list \<Rightarrow> cell list" where
  "fresh ts toks c visited = filter (\<lambda>n. n \<notin> set visited \<and> linked ts toks c n) (neighbors c)"

text \<open>
  The door-connectivity predicate in the words of the specification: two tiles are
  traversable when they share a room, or when a resolved Explore token on one of them
  points toward the other. It is compared with \<^const>\<open>canMove\<close> below.
\<close>

definition doorToward :: "Token list \<Rightarrow> Tile \<Rightarrow> Tile \<Rightarrow> bool" where
  "doorToward toks t1 t2 =
     list_ex (\<lambda>k. tok_type k = Explore \<and> resolved k \<and> tok_x k = tile_x t1 \<and> tok_y k = tile_y t1
                  \<and> direction k \<noteq> None \<and> entryCell k = (tile_x t2, tile_y t2)) toks"

definition traversable :: "Token list \<Rightarrow> Tile \<Rightarrow> Tile \<Rightarrow> bool" where
  "traversable toks t1 t2 \<longleftrightarrow> roomId t1 = roomId t2 \<or> doorToward toks t1 t2 \<or> doorToward toks t2 t1"

text \<open>A shortest walk from the start to a cell.\<close>

definition shortest_to :: "Tile list \<Rightarrow> Token list \<Rightarrow> cell \<Rightarrow> cell list \<Rightarrow> cell \<Rightarrow> bool" where
  "shortest_to ts toks s p c \<longleftrightarrow>
     walk ts toks s p \<and> last (s # p) = c
     \<and> (\<forall>q. walk ts toks s q \<and> last (s # q) = c \<longrightarrow> length p \<le> length q)"

text \<open>
  The invariant of the search loop. The queue holds every cell once, with a shortest walk to
  it; its walks are ordered by length and differ by at most one step; every cell within the
  distance of the head of the queue is visited; and a cell that has left the queue carries
  no player and has had all its open moves visited.
\<close>

definition bfs_inv ::
  "Player list \<Rightarrow> Tile list \<Rightarrow> Token list \<Rightarrow> cell \<Rightarrow> (cell \<times> cell list) list \<Rightarrow> cell list \<Rightarrow> bool" where
  "bfs_inv ps ts toks s queue visited \<longleftrightarrow>
     s \<in> set visited \<and> fst ` set queue \<subseteq> set visited \<and> distinct (map fst queue)
     \<and> (\<forall>e \<in> set queue. shortest_to ts toks s (snd e) (fst e))
     \<and> sorted (map (\<lambda>e. length (snd e)) queue)
     \<and> (\<forall>e \<in> set queue. length (snd e) \<le> Suc (length (snd (hd queue))))
     \<and> (queue \<noteq> [] \<longrightarrow>
          (\<forall>q. walk ts toks s q \<and> length q \<le> length (snd (hd queue)) \<longrightarrow> last (s # q) \<in> set visited))
     \<and> (\<forall>u \<in> set visited - fst ` set queue.
          \<not> playerOn ps u \<and> (\<forall>v. linked ts toks u v \<longrightarrow> v \<in> set visited))"

text \<open>
  Where the loop ends: with a path, the invariant holds of a queue whose head is that path
  to a cell with a player; without one, it holds of the empty queue.
\<close>

definition bfs_final ::
  "Player list \<Rightarrow> Tile list \<Rightarrow> Token list \<Rightarrow> cell \<Rightarrow> cell list option \<Rightarrow> bool" where
  "bfs_final ps ts toks s r =
     (case r of
        Some path \<Rightarrow> \<exists>c rest visited. bfs_inv ps ts toks s ((c, path) # rest) visited \<and> playerOn ps c
      | None \<Rightarrow> \<exists>visited. bfs_inv ps ts toks s [] visited)"

section \<open>Sample sessions\<close>


definition demoPlayer :: Player where
  "demoPlayer = \<lparr>p_id = ''p1'', p_name = ''Ann'', investigatorId = ''inv_1'', clues = 1, items = [],
     p_health = 7, sanity = 7,
     attributes = \<lparr>strength = 2, agility = 3, observation = 3, lore = 4, influence = 5, will = 5\<rparr>,
     p_x = 0, p_y = 0, movesRemaining = 2, actionsRemaining = 2, isWounded = False, isInsane = False,
     secretObjective = None, p_usedItemAbilityRound = False, isReady = True\<rparr>"

definition demoState :: GameState where
  "demoState = \<lparr>roomCode = [], phase = DiceRoll, difficulty = Normal, round = 1, players = [demoPlayer],
     monsters = [], currentPlayerIndex = 0, tiles = [], tokens = [], itemDeck = [], log = [],
     storyContext = [], evidenceCollected = 0, evidenceRequired = 4, isEscapeOpen = False,
     networkMode = Offline, activeDiceRoll = None, activePuzzle = None, mythosEvent = None\<rparr>"

definition frailPlayer :: Player where
  "frailPlayer = demoPlayer\<lparr>sanity := 1\<rparr>"

definition frailState :: GameState where
  "frailState = demoState\<lparr>phase := Playing, players := [frailPlayer]\<rparr>"

definition foyerTile :: Tile where
  "foyerTile = \<lparr>tile_id = ''tile_start'', roomId = ''room_start_mansion'', tile_name = ''The Foyer'',
     tile_description = ''A grand foyer.'', tile_x = 0, tile_y = 0, imageType = ''hallway''\<rparr>"

definition coatRack :: Token where
  "coatRack = \<lparr>tok_id = ''t_search_foyer'', tok_type = Search, tok_x = 0, tok_y = 0,
     tok_description = ''Coat Rack'', resolved = False, requiredAttribute = Some Observation,
     tok_difficulty = Some 2, direction = None\<rparr>"

definition thresholdState :: GameState where
  "thresholdState = demoState\<lparr>phase := Playing, tiles := [foyerTile], tokens := [coatRack],
     itemDeck := [''Lantern'', ''Shotgun''], evidenceCollected := 4, evidenceRequired := 4\<rparr>"

definition escapeOpenState :: GameState where
  "escapeOpenState = thresholdState\<lparr>isEscapeOpen := True\<rparr>"

definition shotgunPlayer :: Player where
  "shotgunPlayer = demoPlayer\<lparr>p_name := ''Preston'', investigatorId := ''inv_6'', items := [''Shotgun''],
     attributes := \<lparr>strength = 3, agility = 3, observation = 3, lore = 2, influence = 5, will = 3\<rparr>\<rparr>"

definition deepOne :: Monster where
  "deepOne = \<lparr>m_id = ''mon_1'', templateId = ''m_deepone'', m_name = ''Deep One'', m_health = Num 3,
     maxHealth = 4, damage = 1, horror = 0, m_x = 0, m_y = 0, tier = 2\<rparr>"

definition combatState :: GameState where
  "combatState = demoState\<lparr>phase := Playing, players := [shotgunPlayer], monsters := [deepOne],
     tiles := [foyerTile]\<rparr>"

definition ann :: Player where
  "ann = demoPlayer\<lparr>p_id := ''pA'', p_name := ''Ann'', p_health := 1, isWounded := True,
     movesRemaining := 0, actionsRemaining := 0\<rparr>"

definition bea :: Player where
  "bea = demoPlayer\<lparr>p_id := ''pB'', p_name := ''Bea'', p_x := 1, movesRemaining := 0, actionsRemaining := 0\<rparr>"

definition cal :: Player where
  "cal = demoPlayer\<lparr>p_id := ''pC'', p_name := ''Cal'', p_x := 2, movesRemaining := 0, actionsRemaining := 0\<rparr>"

definition rats :: Monster where
  "rats = \<lparr>m_id = ''m_1'', templateId = ''m_rat'', m_name = ''Swarm of Rats'', m_health = Num 1,
     maxHealth = 1, damage = 1, horror = 0, m_x = 0, m_y = 0, tier = 1\<rparr>"

definition threePlayerState :: GameState where
  "threePlayerState = demoState\<lparr>phase := Playing, players := [ann, bea, cal], monsters := [rats],
     tiles := [foyerTile], currentPlayerIndex := 0\<rparr>"

definition twoPlayerState :: GameState where
  "twoPlayerState = demoState\<lparr>phase := Playing, players := [ann, bea], monsters := [rats],
     tiles := [foyerTile], currentPlayerIndex := 0\<rparr>"

definition quotaError :: ApiError where
  "quotaError = \<lparr>err_status = Some 429, err_code = None, err_message = Some ''Resource has been exhausted (e.g. check quota).''\<rparr>"

definition quotaThenFine :: "nat \<Rightarrow> LiveResult" where
  "quotaThenFine k = (if k = 0 then Rejected quotaError else Resolved (Some ''A door slams upstairs.''))"

definition noParsers :: Parsers where
  "noParsers = \<lparr>parseIntro = (\<lambda>t. None), parseRoom = (\<lambda>t. None), parseMythos = (\<lambda>t. None)\<rparr>"

definition onlineBridge :: Bridge where
  "onlineBridge = \<lparr>isOffline = False, hasAi = True, liveCalls = 0\<rparr>"

definition trippedBridge :: Bridge where
  "trippedBridge = \<lparr>isOffline = True, hasAi = True, liveCalls = 1\<rparr>"

definition eastDoor :: Token where
  "eastDoor = \<lparr>tok_id = ''t_door_tile_start_2'', tok_type = Explore, tok_x = 0, tok_y = 0,
     tok_description = ''Heavy Door'', resolved = False, requiredAttribute = None,
     tok_difficulty = None, direction = Some East\<rparr>"

definition exploreState :: GameState where
  "exploreState = demoState\<lparr>phase := Playing, networkMode := Host, tiles := [foyerTile],
     tokens := [eastDoor]\<rparr>"

definition corridor :: RoomData where
  "corridor = getFallbackRoom 0 0 ''East'' ''study'' [''hallway'', ''study'']"

definition plainDraws :: ExploreDraws where
  "plainDraws = \<lparr>draw2x2 = 0, drawForward = 0, drawSideways = 0, drawExitCount = 0,
     drawExits = [0, 0], drawDoorTiles = [0, 0], shuffleOrder = [0]\<rparr>"

definition studyWest :: Tile where
  "studyWest = \<lparr>tile_id = ''tile_study_0'', roomId = ''room_study'', tile_name = ''The Study'',
     tile_description = ''Shelves of mouldering books.'', tile_x = 1, tile_y = 0, imageType = ''study''\<rparr>"

definition studyMid :: Tile where
  "studyMid = studyWest\<lparr>tile_id := ''tile_study_1'', tile_x := 2\<rparr>"

definition studyEast :: Tile where
  "studyEast = studyWest\<lparr>tile_id := ''tile_study_2'', tile_x := 3\<rparr>"

definition cellarTile :: Tile where
  "cellarTile = \<lparr>tile_id = ''tile_cellar_0'', roomId = ''room_cellar'', tile_name = ''The Cellar'',
     tile_description = ''Damp stone and old barrels.'', tile_x = 0, tile_y = 1, imageType = ''cellar''\<rparr>"

definition openedDoor :: Token where
  "openedDoor = eastDoor\<lparr>resolved := True\<rparr>"

definition dan :: Player where
  "dan = demoPlayer\<lparr>p_id := ''pD'', p_name := ''Dan'', p_x := 3\<rparr>"

definition shoggoth :: Monster where
  "shoggoth = \<lparr>m_id = ''mon_2'', templateId = ''m_shoggoth'', m_name = ''Shoggoth'', m_health = Num 10,
     maxHealth = 10, damage = 2, horror = 2, m_x = 0, m_y = 0, tier = 3\<rparr>"

definition hallState :: GameState where
  "hallState = demoState\<lparr>phase := Playing, players := [dan], monsters := [deepOne, shoggoth],
     tiles := [foyerTile, studyWest, studyMid, studyEast, cellarTile], tokens := [openedDoor]\<rparr>"

definition howlingWind :: MythosEventData where
  "howlingWind = \<lparr>me_narrative = ''A cold wind howls through the halls.'', me_type = FLAVOR, me_param = []\<rparr>"

definition cultist :: Monster where
  "cultist = \<lparr>m_id = ''m_2'', templateId = ''m_cultist'', m_name = ''Cultist'', m_health = Num 2,
     maxHealth = 2, damage = 0, horror = 1, m_x = 0, m_y = 0, tier = 1\<rparr>"

definition soloState :: GameState where
  "soloState = frailState\<lparr>monsters := [cultist], tiles := [foyerTile]\<rparr>"

definition darkOmen :: MythosEventData where
  "darkOmen = \<lparr>me_narrative = ''The shadows lengthen.'', me_type = TEST, me_param = []\<rparr>"


definition handOverState :: GameState where
  "handOverState = demoState\<lparr>phase := Playing, players := [demoPlayer, bea], currentPlayerIndex := 1,
     tiles := [foyerTile], tokens := [coatRack]\<rparr>"

section \<open>Skill checks: the success count decides the outcome\<close>

lemma filter_ElderSign_count: "length (filter (\<lambda>f. f = ElderSign) faces) = count_list faces ElderSign"
  by (induction faces) auto

lemma filter_ElderSign_append:
  "length (filter (\<lambda>f. f = ElderSign) (xs @ ys)) =
   length (filter (\<lambda>f. f = ElderSign) xs) + length (filter (\<lambda>f. f = ElderSign) ys)"
  by simp

text \<open>
  C1. For every dice outcome the success count is the number of faces showing Success
  (ElderSign), both in the roller's display and in the completion handler, and the check
  passes exactly when that count reaches the target; faces that do not show Success
  (Blank or Clue), wherever they sit among the dice, change neither the count nor the
  verdict.
\<close>

theorem dice_success_count_decides:
  "onComplete_successes faces = count_list faces ElderSign
   \<and> (onComplete_success faces tgt \<longleftrightarrow> tgt \<le> int (count_list faces ElderSign))
   \<and> passes \<lparr>results = Some faces, spentClues = sc, bonusDice = bd\<rparr> = count_list faces ElderSign
   \<and> (isPass props \<lparr>results = Some faces, spentClues = sc, bonusDice = bd\<rparr>
        \<longleftrightarrow> target props \<le> int (count_list faces ElderSign))
   \<and> (ElderSign \<notin> set others \<longrightarrow>
        onComplete_successes (pre @ others @ post) = onComplete_successes (pre @ post)
        \<and> onComplete_success (pre @ others @ post) tgt = onComplete_success (pre @ post) tgt)"
proof -
  have cnt: "\<And>xs. length (filter (\<lambda>f. f = ElderSign) xs) = count_list xs ElderSign"
    by (rule filter_ElderSign_count)
  have none: "ElderSign \<notin> set others \<Longrightarrow> filter (\<lambda>f. f = ElderSign) others = []"
    by (induction others) auto
  show ?thesis
    using none
    by (simp add: onComplete_successes_def onComplete_success_def passes_def isPass_def cnt)
qed

theorem dice_success_count_decides_witness:
  "ElderSign \<notin> set [Blank, Clue, Blank]
   \<and> onComplete_successes [ElderSign, Blank, Clue, Blank, ElderSign] = 2
   \<and> onComplete_success [ElderSign, Blank, Clue, Blank, ElderSign] 2
   \<and> onComplete_success [ElderSign, Blank, Clue, Blank, ElderSign] 2 = onComplete_success [ElderSign, ElderSign] 2
   \<and> \<not> onComplete_success [ElderSign, Blank, Clue, Blank, ElderSign] 3"
proof -
  have h: "ElderSign \<notin> set [Blank, Clue, Blank]"
    by simp
  have a: "onComplete_successes ([ElderSign] @ [Blank, Clue, Blank] @ [ElderSign]) = onComplete_successes ([ElderSign] @ [ElderSign])
      \<and> onComplete_success ([ElderSign] @ [Blank, Clue, Blank] @ [ElderSign]) 2 = onComplete_success ([ElderSign] @ [ElderSign]) 2"
    using dice_success_count_decides [where others = "[Blank, Clue, Blank]" and pre = "[ElderSign]"
        and post = "[ElderSign]" and tgt = 2] h
    by blast
  have b: "onComplete_successes [ElderSign, ElderSign] = 2" "onComplete_success [ElderSign, ElderSign] 2"
    by (simp_all add: onComplete_successes_def onComplete_success_def)
  have c: "\<not> onComplete_success [ElderSign, Blank, Clue, Blank, ElderSign] 3"
    by (simp add: onComplete_successes_def onComplete_success_def)
  show ?thesis
    using h a b c by simp
qed

section \<open>Spending clues on dice\<close>


















text \<open>
  A roll confirmed on a client. The deduction is made on the client's copy of the state;
  the message to the host is the same whatever the number of clues spent; the host only
  starts the resolver; and the next state the host broadcasts replaces the client's copy,
  the players with it.
\<close>

lemma onComplete_on_client:
  assumes "networkMode gameState = Client"
  shows "snd (onComplete gameState roll currentPlayer faces n prev)
           = SentToHost (ACTION_COMPLETE_TASK (adr_context roll) (onComplete_success faces (adr_target roll)) (Some faces))"
    and "networkMode hostState = Host \<Longrightarrow>
         handleNetworkData hostState hostRender
             (ACTION_COMPLETE_TASK (adr_context roll) (onComplete_success faces (adr_target roll)) (Some faces))
           = Some (handleActionComplete hostRender (adr_context roll) (onComplete_success faces (adr_target roll)) (Some faces))"
    and "players (receiveSync hostState' (fst (onComplete gameState roll currentPlayer faces n prev))) = players hostState'"
  using assms by (simp_all add: onComplete_def Let_def handleActionComplete_def handleNetworkData_def receiveSync_def)



section \<open>Insanity is entered once\<close>

lemma find_map_replace:
  assumes "\<And>x. P x \<Longrightarrow> P (f x)" "\<And>x. \<not> P x \<Longrightarrow> f x = x"
  shows "find P (map f xs) = map_option f (find P xs)"
  using assms by (induction xs) auto

lemma find_Some_P: "find P xs = Some x \<Longrightarrow> P x"
  by (induction xs) (auto split: if_splits)

lemma applyDamage_update_survivor:
  assumes "find (\<lambda>p. p_id p = pid) (players s) = Some player"
    and "\<not> (p_health player - dmg \<le> 0 \<and> isWounded player)"
  shows "find (\<lambda>p. p_id p = pid) (players (applyDamage_update pid dmg hor s))
         = Some (applyDamage_updatedPlayer player dmg hor)"
proof -
  have pid: "p_id player = pid"
    using find_Some_P [OF assms(1)] .
  have u: "players (applyDamage_update pid dmg hor s)
           = map (\<lambda>p. if p_id p = pid then applyDamage_updatedPlayer player dmg hor else p) (players s)"
    using assms by (auto simp add: applyDamage_update_def)
  have "find (\<lambda>p. p_id p = pid) (map (\<lambda>p. if p_id p = pid then applyDamage_updatedPlayer player dmg hor else p) (players s))
        = map_option (\<lambda>p. if p_id p = pid then applyDamage_updatedPlayer player dmg hor else p)
            (find (\<lambda>p. p_id p = pid) (players s))"
    by (rule find_map_replace) (auto simp: applyDamage_updatedPlayer_def Let_def pid)
  with u assms(1) pid show ?thesis
    by simp
qed

lemma applyDamage_updatedPlayer_fields:
  "isInsane (applyDamage_updatedPlayer player dmg hor) = (isInsane player \<or> sanity player - hor \<le> 0)"
  "sanity (applyDamage_updatedPlayer player dmg hor) = (if sanity player - hor \<le> 0 then 0 else sanity player - hor)"
  "secretObjective (applyDamage_updatedPlayer player dmg hor) = secretObjective player"
  "p_id (applyDamage_updatedPlayer player dmg hor) = p_id player"
  by (auto simp: applyDamage_updatedPlayer_def Let_def)

lemma setObjective_find:
  "find (\<lambda>p. p_id p = pid) (players s) = Some q \<Longrightarrow>
   find (\<lambda>p. p_id p = pid) (players (applyDamage_setObjective pid obj s)) = Some (q\<lparr>secretObjective := Some obj\<rparr>)"
proof -
  assume a: "find (\<lambda>p. p_id p = pid) (players s) = Some q"
  have "find (\<lambda>p. p_id p = pid) (map (\<lambda>p. if p_id p = pid then p\<lparr>secretObjective := Some obj\<rparr> else p) (players s))
        = map_option (\<lambda>p. if p_id p = pid then p\<lparr>secretObjective := Some obj\<rparr> else p) (find (\<lambda>p. p_id p = pid) (players s))"
    by (rule find_map_replace) auto
  with a find_Some_P [OF a] show ?thesis
    by (simp add: applyDamage_setObjective_def)
qed

text \<open>
  What \<^verbatim>\<open>applyDamage\<close> is written to do. When the state of the render is the state the
  updater runs on and the damage does not eliminate the player: horror that takes sanity to
  0 or below drives a player who is not yet insane insane, clamps sanity to 0 and stores
  the objective; for a player already insane the flag and the objective stay as they were.
\<close>

lemma applyDamage_in_step:
  assumes "find (\<lambda>p. p_id p = pid) (players s) = Some player"
    and "\<not> (p_health player - dmg \<le> 0 \<and> isWounded player)"
  shows "\<exists>player'. find (\<lambda>p. p_id p = pid) (players (applyDamage pid dmg hor obj s s)) = Some player'
     \<and> isInsane player' = (isInsane player \<or> sanity player - hor \<le> 0)
     \<and> sanity player' = (if sanity player - hor \<le> 0 then 0 else sanity player - hor)
     \<and> secretObjective player' =
         (if \<not> isInsane player \<and> sanity player - hor \<le> 0 then Some obj else secretObjective player)"
proof -
  note q = applyDamage_update_survivor [OF assms, of hor]
  show ?thesis
  proof (cases "\<not> isInsane player \<and> sanity player - hor \<le> 0")
    case True
    then have "applyDamage pid dmg hor obj s s = applyDamage_setObjective pid obj (applyDamage_update pid dmg hor s)"
      using assms(1) by (simp add: applyDamage_def applyDamage_wantsObjective_def)
    with setObjective_find [OF q, of obj] True show ?thesis
      by (simp add: applyDamage_updatedPlayer_fields)
  next
    case False
    then have "applyDamage pid dmg hor obj s s = applyDamage_update pid dmg hor s"
      using assms(1) by (auto simp add: applyDamage_def applyDamage_wantsObjective_def)
    with q False show ?thesis
      by (auto simp add: applyDamage_updatedPlayer_fields)
  qed
qed

text \<open>
  The test for the objective reads the state of the render. Two calls made from one
  render, on a player whom the first call drives insane, both pass it: the flag is set
  once, and the second objective replaces the first.
\<close>

lemma applyDamage_same_render_overwrites:
  "players (applyDamage ''p1'' 0 1 ''Trust nobody.'' frailState
              (applyDamage ''p1'' 0 1 ''Hoard three items.'' frailState frailState))
     = [frailPlayer\<lparr>sanity := 0, isInsane := True, secretObjective := Some ''Trust nobody.''\<rparr>]"
  by (simp add: applyDamage_def applyDamage_wantsObjective_def applyDamage_setObjective_def
      applyDamage_update_def applyDamage_updatedPlayer_def applyDamage_logMsg_def
      frailState_def frailPlayer_def demoPlayer_def demoState_def Let_def)

lemma solo_parts:
  "players soloState = [frailPlayer]" "monsters soloState = [cultist]" "currentPlayerIndex soloState = 0"
  "networkMode soloState = Offline" "round soloState = 1" "log soloState = []"
  by (simp_all add: soloState_def frailState_def demoState_def)

lemma solo_endTurn:
  assumes "players s = [frailPlayer]" "monsters s = [cultist]" "currentPlayerIndex s = 0" "networkMode s = Offline"
  shows "\<exists>s'. endTurn False s = Inr s' \<and> players s' = [frailPlayer\<lparr>sanity := 0, isInsane := True\<rparr>]
           \<and> monsters s' = [cultist] \<and> networkMode s' = Offline"
proof -
  have v: "p_id frailPlayer = ''p1''" "p_x frailPlayer = 0" "p_y frailPlayer = 0" "sanity frailPlayer = 1"
    "\<not> isInsane frailPlayer" "\<not> isWounded frailPlayer" "p_health frailPlayer = 7"
    by (simp_all add: frailPlayer_def demoPlayer_def)
  have c: "m_x cultist = 0" "m_y cultist = 0" "damage cultist = 0" "horror cultist = 1"
    by (simp_all add: cultist_def)
  define t where "t = addLog (p_name frailPlayer @ '' is attacked by enemies!'') s"
  define prev where "prev = applyDamage_update ''p1'' 0 1 t"
  have a: "at_index (players s) (currentPlayerIndex s) = Some frailPlayer"
    by (simp add: assms at_index_def)
  have n: "js_rem (currentPlayerIndex s + 1) (int (length (players s))) = 0"
    by (simp add: assms js_rem_def)
  have e: "endTurn False s = Inr (runMythosPhase_begin s prev)"
    unfolding endTurn_def endTurn_advance_def Let_def a n
    by (simp add: assms v c prev_def t_def)
  have pt: "players t = [frailPlayer]" "monsters t = [cultist]" "networkMode t = Offline"
    by (simp_all add: t_def addLog_def assms)
  have u: "applyDamage_updatedPlayer frailPlayer 0 1 = frailPlayer\<lparr>sanity := 0, isInsane := True\<rparr>"
    by (simp add: applyDamage_updatedPlayer_def Let_def frailPlayer_def demoPlayer_def)
  have pp: "players prev = [frailPlayer\<lparr>sanity := 0, isInsane := True\<rparr>]" "monsters prev = [cultist]"
    "networkMode prev = Offline"
    unfolding prev_def applyDamage_update_def using pt v by (simp_all add: u)
  show ?thesis
    using e pp by (simp add: runMythosPhase_begin_def)
qed

text \<open>
  C9 (the code at the failing input). A single investigator with sanity 1 ends the turn on
  the tile of a Cultist, whose horror is 1. The damage updater drives the investigator
  insane and clamps sanity to 0, and the objective is asked for and stored. The
  investigator being the last in turn order, the same handler starts the Mythos phase,
  which has read the players before the damage and, when its event arrives, writes that
  list back: the investigator is sane again, sanity 1, the objective gone. (Had the
  objective arrived after the event, it would sit on an investigator who is not insane.)
  In the next round the same turn end drives the investigator insane a second time and a
  second objective is stored. A Mythos event of kind TEST takes the sanity of an
  investigator from 1 to 0 without any insanity at all.
\<close>

theorem insanity_undone_by_mythos_phase:
  "players soloState = [frailPlayer] \<and> sanity frailPlayer = 1 \<and> \<not> isInsane frailPlayer
   \<and> secretObjective frailPlayer = None
   \<and> (\<exists>s1 s2 s3 s4 s5.
         endTurn False soloState = Inr s1
         \<and> players s1 = [frailPlayer\<lparr>sanity := 0, isInsane := True\<rparr>]
         \<and> applyDamage_wantsObjective ''p1'' 1 soloState
         \<and> s2 = applyDamage_setObjective ''p1'' ''Hoard three items.'' s1
         \<and> players s2 = [frailPlayer\<lparr>sanity := 0, isInsane := True, secretObjective := Some ''Hoard three items.''\<rparr>]
         \<and> s3 = runMythosPhase_event soloState howlingWind 0 ''1700000000000'' s2
         \<and> players s3 = [frailPlayer]
         \<and> players (applyDamage_setObjective ''p1'' ''Hoard three items.''
                      (runMythosPhase_event soloState howlingWind 0 ''1700000000000'' s1))
             = [frailPlayer\<lparr>secretObjective := Some ''Hoard three items.''\<rparr>]
         \<and> s4 = endMythosPhase s3 s3
         \<and> players s4 = [frailPlayer] \<and> phase s4 = Playing \<and> currentPlayerIndex s4 = 0
         \<and> endTurn False s4 = Inr s5
         \<and> players s5 = [frailPlayer\<lparr>sanity := 0, isInsane := True\<rparr>]
         \<and> applyDamage_wantsObjective ''p1'' 1 s4
         \<and> players (applyDamage_setObjective ''p1'' ''Trust nobody.'' s5)
             = [frailPlayer\<lparr>sanity := 0, isInsane := True, secretObjective := Some ''Trust nobody.''\<rparr>])
   \<and> players (runMythosPhase_event soloState darkOmen 0 ''1700000000000'' (runMythosPhase_begin soloState soloState))
       = [frailPlayer\<lparr>sanity := 0\<rparr>]"
proof -
  have v: "sanity frailPlayer = 1" "\<not> isInsane frailPlayer" "secretObjective frailPlayer = None"
    by (simp_all add: frailPlayer_def demoPlayer_def)
  from solo_endTurn [OF solo_parts(1-4)] obtain s1 where
    s1: "endTurn False soloState = Inr s1" "players s1 = [frailPlayer\<lparr>sanity := 0, isInsane := True\<rparr>]"
      "networkMode s1 = Offline"
    by blast
  have w1: "applyDamage_wantsObjective ''p1'' 1 soloState"
    by (simp add: applyDamage_wantsObjective_def solo_parts frailPlayer_def demoPlayer_def)
  define s2 where "s2 = applyDamage_setObjective ''p1'' ''Hoard three items.'' s1"
  have p2: "players s2 = [frailPlayer\<lparr>sanity := 0, isInsane := True, secretObjective := Some ''Hoard three items.''\<rparr>]"
    by (simp add: s2_def applyDamage_setObjective_def s1(2) frailPlayer_def demoPlayer_def)
  define s3 where "s3 = runMythosPhase_event soloState howlingWind 0 ''1700000000000'' s2"
  have p3: "players s3 = [frailPlayer]" "monsters s3 = [cultist]" "networkMode s3 = networkMode s2"
    by (simp_all add: s3_def runMythosPhase_event_def howlingWind_def solo_parts)
  have nm: "networkMode s2 = networkMode s1"
    by (simp add: s2_def applyDamage_setObjective_def)
  note nm1 = s1(3)
  have late: "players (applyDamage_setObjective ''p1'' ''Hoard three items.''
                      (runMythosPhase_event soloState howlingWind 0 ''1700000000000'' s1))
             = [frailPlayer\<lparr>secretObjective := Some ''Hoard three items.''\<rparr>]"
    by (simp add: applyDamage_setObjective_def runMythosPhase_event_def howlingWind_def solo_parts
        frailPlayer_def demoPlayer_def)
  define s4 where "s4 = endMythosPhase s3 s3"
  have p4: "players s4 = [frailPlayer]" "phase s4 = Playing" "currentPlayerIndex s4 = 0"
    "monsters s4 = [cultist]" "networkMode s4 = Offline"
    using p3 nm nm1
    by (simp_all add: s4_def endMythosPhase_def addLog_def refreshed_def frailPlayer_def demoPlayer_def)
  from solo_endTurn [OF p4(1) p4(4) p4(3) p4(5)] obtain s5 where
    s5: "endTurn False s4 = Inr s5" "players s5 = [frailPlayer\<lparr>sanity := 0, isInsane := True\<rparr>]"
    by blast
  have w4: "applyDamage_wantsObjective ''p1'' 1 s4"
    by (simp add: applyDamage_wantsObjective_def p4 frailPlayer_def demoPlayer_def)
  have p5: "players (applyDamage_setObjective ''p1'' ''Trust nobody.'' s5)
             = [frailPlayer\<lparr>sanity := 0, isInsane := True, secretObjective := Some ''Trust nobody.''\<rparr>]"
    by (simp add: applyDamage_setObjective_def s5(2) frailPlayer_def demoPlayer_def)
  have t: "players (runMythosPhase_event soloState darkOmen 0 ''1700000000000'' (runMythosPhase_begin soloState soloState))
       = [frailPlayer\<lparr>sanity := 0\<rparr>]"
    by (simp add: runMythosPhase_event_def darkOmen_def solo_parts Let_def frailPlayer_def demoPlayer_def)
  have "\<exists>s1 s2 s3 s4 s5.
         endTurn False soloState = Inr s1
         \<and> players s1 = [frailPlayer\<lparr>sanity := 0, isInsane := True\<rparr>]
         \<and> applyDamage_wantsObjective ''p1'' 1 soloState
         \<and> s2 = applyDamage_setObjective ''p1'' ''Hoard three items.'' s1
         \<and> players s2 = [frailPlayer\<lparr>sanity := 0, isInsane := True, secretObjective := Some ''Hoard three items.''\<rparr>]
         \<and> s3 = runMythosPhase_event soloState howlingWind 0 ''1700000000000'' s2
         \<and> players s3 = [frailPlayer]
         \<and> players (applyDamage_setObjective ''p1'' ''Hoard three items.''
                      (runMythosPhase_event soloState howlingWind 0 ''1700000000000'' s1))
             = [frailPlayer\<lparr>secretObjective := Some ''Hoard three items.''\<rparr>]
         \<and> s4 = endMythosPhase s3 s3
         \<and> players s4 = [frailPlayer] \<and> phase s4 = Playing \<and> currentPlayerIndex s4 = 0
         \<and> endTurn False s4 = Inr s5
         \<and> players s5 = [frailPlayer\<lparr>sanity := 0, isInsane := True\<rparr>]
         \<and> applyDamage_wantsObjective ''p1'' 1 s4
         \<and> players (applyDamage_setObjective ''p1'' ''Trust nobody.'' s5)
             = [frailPlayer\<lparr>sanity := 0, isInsane := True, secretObjective := Some ''Trust nobody.''\<rparr>]"
    by (intro exI [of _ s1] exI [of _ s2] exI [of _ s3] exI [of _ s4] exI [of _ s5] conjI)
       (rule s1(1) s1(2) w1 s2_def p2 s3_def p3(1) late s4_def p4(1) p4(2) p4(3) s5(1) s5(2) w4 p5)+
  then have run: "\<exists>s1 s2 s3 s4 s5.
         endTurn False soloState = Inr s1
         \<and> players s1 = [frailPlayer\<lparr>sanity := 0, isInsane := True\<rparr>]
         \<and> applyDamage_wantsObjective ''p1'' 1 soloState
         \<and> s2 = applyDamage_setObjective ''p1'' ''Hoard three items.'' s1
         \<and> players s2 = [frailPlayer\<lparr>sanity := 0, isInsane := True, secretObjective := Some ''Hoard three items.''\<rparr>]
         \<and> s3 = runMythosPhase_event soloState howlingWind 0 ''1700000000000'' s2
         \<and> players s3 = [frailPlayer]
         \<and> players (applyDamage_setObjective ''p1'' ''Hoard three items.''
                      (runMythosPhase_event soloState howlingWind 0 ''1700000000000'' s1))
             = [frailPlayer\<lparr>secretObjective := Some ''Hoard three items.''\<rparr>]
         \<and> s4 = endMythosPhase s3 s3
         \<and> players s4 = [frailPlayer] \<and> phase s4 = Playing \<and> currentPlayerIndex s4 = 0
         \<and> endTurn False s4 = Inr s5
         \<and> players s5 = [frailPlayer\<lparr>sanity := 0, isInsane := True\<rparr>]
         \<and> applyDamage_wantsObjective ''p1'' 1 s4
         \<and> players (applyDamage_setObjective ''p1'' ''Trust nobody.'' s5)
             = [frailPlayer\<lparr>sanity := 0, isInsane := True, secretObjective := Some ''Trust nobody.''\<rparr>]" .
  show ?thesis
    by (intro conjI) (rule solo_parts(1) v(1) v(2) v(3) run t)+
qed

section \<open>The finale is triggered once\<close>

lemma random_index_range:
  assumes "0 \<le> rand" "rand < 1" "0 < n"
  shows "0 \<le> random_index rand n \<and> random_index rand n < int n"
proof -
  have "0 \<le> rand * of_nat n"
    using assms by simp
  then have lo: "0 \<le> \<lfloor>rand * of_nat n\<rfloor>"
    by simp
  have "rand * of_nat n < 1 * of_nat n"
    using assms by (intro mult_strict_right_mono) simp_all
  then have "rand * of_nat n < of_int (int n)"
    by simp
  then have "\<lfloor>rand * of_nat n\<rfloor> < int n"
    by (simp only: floor_less_iff)
  with lo show ?thesis
    by (simp add: random_index_def)
qed

lemma at_index_random:
  assumes "0 \<le> rand" "rand < 1" "xs \<noteq> []"
  shows "\<exists>x. at_index xs (random_index rand (length xs)) = Some x \<and> x \<in> set xs"
  using random_index_range [OF assms(1,2), of "length xs"] assms(3)
  by (auto simp: at_index_def)

lemma finale_closed: "isEscapeOpen s \<Longrightarrow> resolveSearch_finale rand stamp s = Inr s"
  by (simp add: resolveSearch_finale_def)

lemma finale_below: "evidenceCollected s < evidenceRequired s \<Longrightarrow> resolveSearch_finale rand stamp s = Inr s"
  by (simp add: resolveSearch_finale_def)

lemma finale_fires:
  assumes "evidenceCollected s \<ge> evidenceRequired s" "\<not> isEscapeOpen s" "tiles s \<noteq> []" "0 \<le> rand" "rand < 1"
  shows "\<exists>s' boss esc. resolveSearch_finale rand stamp s = Inr s'
     \<and> isEscapeOpen s'
     \<and> monsters s' = monsters s @ [boss] \<and> tier boss = 3
     \<and> tokens s' = tokens s @ [esc] \<and> tok_type esc = Escape"
proof -
  from at_index_random [OF assms(4,5,3)] obtain t where
    "at_index (tiles s) (random_index rand (length (tiles s))) = Some t"
    by blast
  with assms(1,2) show ?thesis
    by (simp add: resolveSearch_finale_def Let_def)
qed

lemma length_filter_filter_le: "length (filter P (filter Q xs)) \<le> length (filter P xs)"
  by (induction xs) auto

lemma apply_keeps:
  assumes "resolveSearch_apply token success rewardType narrative prev = Inr s"
  shows "monsters s = monsters prev \<and> isEscapeOpen s = isEscapeOpen prev \<and> tiles s = tiles prev
     \<and> (tokens s = tokens prev \<or> tokens s = filter (\<lambda>t. tok_id t \<noteq> tok_id token) (tokens prev))"
  using assms
  by (auto simp: resolveSearch_apply_def Let_def split: option.splits if_splits prod.splits)

lemma resolveSearch_after_escape:
  assumes "isEscapeOpen s" "resolveSearch token success roll narrative rand stamp state s = Inr s''"
  shows "monsters s'' = monsters s \<and> isEscapeOpen s''
     \<and> length (filter (\<lambda>t. tok_type t = Escape) (tokens s'')) \<le> length (filter (\<lambda>t. tok_type t = Escape) (tokens s))"
proof -
  from assms(2) obtain s1 where
    a: "resolveSearch_apply token success (fst (resolveSearch_draw success roll state)) narrative (resolveSearch_begin s) = Inr s1"
    and f: "resolveSearch_finale rand stamp s1 = Inr s''"
    by (auto simp: resolveSearch_def split: sum.splits)
  note k = apply_keeps [OF a]
  have o: "isEscapeOpen s1"
    using k assms(1) by (simp add: resolveSearch_begin_def)
  then have e: "s'' = s1"
    using f by (simp add: finale_closed)
  have "length (filter (\<lambda>t. tok_type t = Escape) (filter (\<lambda>t. tok_id t \<noteq> tok_id token) (tokens s)))
        \<le> length (filter (\<lambda>t. tok_type t = Escape) (tokens s))"
    by (rule length_filter_filter_le)
  with k o e show ?thesis
    by (auto simp: resolveSearch_begin_def)
qed

text \<open>The boss of the sample session is the first tier-3 template, with 3 health per player added.\<close>

lemma finale_sample_run:
  "map m_name (monsters (projr (resolveSearch_finale (1 / 2) ''1700000000000'' thresholdState))) = [''Shoggoth'']
   \<and> map m_health (monsters (projr (resolveSearch_finale (1 / 2) ''1700000000000'' thresholdState))) = [Num 13]
   \<and> map tok_id (tokens (projr (resolveSearch_finale (1 / 2) ''1700000000000'' thresholdState)))
       = [''t_search_foyer'', ''tok_escape'']"
  by (simp add: resolveSearch_finale_def thresholdState_def demoState_def at_index_def random_index_def
      MONSTER_TEMPLATES_def foyerTile_def coatRack_def Let_def)

text \<open>
  C7. When the finale check runs on a session whose collected evidence has reached the
  required number and whose escape is not yet open (the map has a tile to spawn on), it
  opens the escape and adds exactly one monster, of tier 3, and exactly one Escape token;
  in a session that had no Escape token and no tier-3 monster before, these are then the
  only ones. Running the check again changes nothing, and no later search resolution adds
  a monster or an Escape token.
\<close>

theorem finale_spawns_once:
  assumes "evidenceCollected s \<ge> evidenceRequired s" "\<not> isEscapeOpen s" "tiles s \<noteq> []"
    and "0 \<le> rand" "rand < 1"
  shows "\<exists>s' boss esc. resolveSearch_finale rand stamp s = Inr s'
     \<and> isEscapeOpen s'
     \<and> monsters s' = monsters s @ [boss] \<and> tier boss = 3
     \<and> tokens s' = tokens s @ [esc] \<and> tok_type esc = Escape
     \<and> (filter (\<lambda>t. tok_type t = Escape) (tokens s) = [] \<longrightarrow> filter (\<lambda>t. tok_type t = Escape) (tokens s') = [esc])
     \<and> (filter (\<lambda>m. tier m = 3) (monsters s) = [] \<longrightarrow> filter (\<lambda>m. tier m = 3) (monsters s') = [boss])
     \<and> (\<forall>rand' stamp'. resolveSearch_finale rand' stamp' s' = Inr s')
     \<and> (\<forall>token success roll narrative rand' stamp' state s''.
           resolveSearch token success roll narrative rand' stamp' state s' = Inr s'' \<longrightarrow>
           monsters s'' = monsters s' \<and> isEscapeOpen s''
           \<and> length (filter (\<lambda>t. tok_type t = Escape) (tokens s''))
               \<le> length (filter (\<lambda>t. tok_type t = Escape) (tokens s')))"
proof -
  from finale_fires [OF assms, of stamp] obtain s' boss esc where
    f: "resolveSearch_finale rand stamp s = Inr s'" "isEscapeOpen s'"
       "monsters s' = monsters s @ [boss]" "tier boss = 3"
       "tokens s' = tokens s @ [esc]" "tok_type esc = Escape"
    by blast
  have again: "\<forall>rand' stamp'. resolveSearch_finale rand' stamp' s' = Inr s'"
    using f(2) by (simp add: finale_closed)
  have later: "\<forall>token success roll narrative rand' stamp' state s''.
           resolveSearch token success roll narrative rand' stamp' state s' = Inr s'' \<longrightarrow>
           monsters s'' = monsters s' \<and> isEscapeOpen s''
           \<and> length (filter (\<lambda>t. tok_type t = Escape) (tokens s''))
               \<le> length (filter (\<lambda>t. tok_type t = Escape) (tokens s'))"
    using resolveSearch_after_escape [OF f(2)] by blast
  show ?thesis
    using f again later by (intro exI [of _ s'] exI [of _ boss] exI [of _ esc]) simp
qed

theorem finale_spawns_once_witness:
  "evidenceCollected thresholdState \<ge> evidenceRequired thresholdState \<and> \<not> isEscapeOpen thresholdState
   \<and> tiles thresholdState \<noteq> [] \<and> (0::rat) \<le> 1 / 2 \<and> (1 / 2 :: rat) < 1
   \<and> filter (\<lambda>t. tok_type t = Escape) (tokens thresholdState) = []
   \<and> filter (\<lambda>m. tier m = 3) (monsters thresholdState) = []
   \<and> (\<exists>s' boss esc. resolveSearch_finale (1 / 2) ''1700000000000'' thresholdState = Inr s'
        \<and> isEscapeOpen s'
        \<and> filter (\<lambda>t. tok_type t = Escape) (tokens s') = [esc]
        \<and> filter (\<lambda>m. tier m = 3) (monsters s') = [boss]
        \<and> resolveSearch_finale (1 / 3) ''1700000000100'' s' = Inr s')"
proof -
  have h: "evidenceCollected thresholdState \<ge> evidenceRequired thresholdState" "\<not> isEscapeOpen thresholdState"
    "tiles thresholdState \<noteq> []" "(0::rat) \<le> 1 / 2" "(1 / 2 :: rat) < 1"
    by (simp_all add: thresholdState_def demoState_def)
  have n: "filter (\<lambda>t. tok_type t = Escape) (tokens thresholdState) = []"
    "filter (\<lambda>m. tier m = 3) (monsters thresholdState) = []"
    by (simp_all add: thresholdState_def demoState_def coatRack_def)
  from finale_spawns_once [OF h, of "''1700000000000''"] n
  have "\<exists>s' boss esc. resolveSearch_finale (1 / 2) ''1700000000000'' thresholdState = Inr s'
        \<and> isEscapeOpen s'
        \<and> filter (\<lambda>t. tok_type t = Escape) (tokens s') = [esc]
        \<and> filter (\<lambda>m. tier m = 3) (monsters s') = [boss]
        \<and> resolveSearch_finale (1 / 3) ''1700000000100'' s' = Inr s'"
    by metis
  with h n show ?thesis
    by simp
qed

section \<open>The reward of a successful search\<close>

lemma percent_less: "((of_nat k :: rat) / 100 < numeral n / 100) = (k < numeral n)"
proof -
  have "((of_nat k :: rat) / 100 < numeral n / 100) = ((of_nat k :: rat) < of_nat (numeral n))"
    by (simp add: divide_less_cancel)
  also have "\<dots> = (k < numeral n)"
    by (simp only: of_nat_less_iff)
  finally show ?thesis .
qed

lemma length_filter_band:
  "a \<le> b \<Longrightarrow> b \<le> m \<Longrightarrow> length (filter (\<lambda>k. a \<le> k \<and> k < b) [0..<m]) = b - a"
proof (induction m arbitrary: b)
  case 0
  then show ?case by simp
next
  case (Suc m)
  show ?case
  proof (cases "b \<le> m")
    case True
    with Suc show ?thesis by simp
  next
    case False
    with Suc.prems have b: "b = Suc m" by simp
    have "filter (\<lambda>k. a \<le> k \<and> k < Suc m) [0..<m] = filter (\<lambda>k. a \<le> k \<and> k < m) [0..<m]"
      by (rule filter_cong) auto
    moreover have "length (filter (\<lambda>k. a \<le> k \<and> k < m) [0..<m]) = m - a"
    proof (cases "a \<le> m")
      case True
      then show ?thesis using Suc.IH [of m] by simp
    next
      case False
      then have "filter (\<lambda>k. a \<le> k \<and> k < m) [0..<m] = []"
        by (auto simp: filter_empty_conv)
      with False show ?thesis by simp
    qed
    ultimately show ?thesis
      using b Suc.prems by auto
  qed
qed

lemma length_filter_below: "b \<le> m \<Longrightarrow> length (filter (\<lambda>k. k < b) [0..<m]) = b"
  using length_filter_band [of 0 b m] by simp

lemma draw_closed:
  "\<not> isEscapeOpen st \<Longrightarrow> itemDeck st \<noteq> [] \<Longrightarrow>
   fst (resolveSearch_draw True roll st) =
     (if roll < 20 / 100 then REvidence else if roll < 65 / 100 then RItem else RClue)"
  by (simp add: resolveSearch_draw_def)

lemma draw_open:
  "isEscapeOpen st \<Longrightarrow> itemDeck st \<noteq> [] \<Longrightarrow>
   fst (resolveSearch_draw True roll st) = (if roll < 65 / 100 then RItem else RClue)"
  by (simp add: resolveSearch_draw_def)

lemma percent_closed:
  assumes "\<not> isEscapeOpen st" "itemDeck st \<noteq> []"
  shows "rewardPercent st REvidence = 20" "rewardPercent st RItem = 45" "rewardPercent st RClue = 35"
proof -
  have d: "\<And>k. fst (resolveSearch_draw True (of_nat k / 100) st) =
     (if k < 20 then REvidence else if k < 65 then RItem else RClue)"
    by (simp add: draw_closed [OF assms] percent_less)
  have "filter (\<lambda>k. fst (resolveSearch_draw True (of_nat k / 100) st) = REvidence) [0..<100]
        = filter (\<lambda>k. 0 \<le> k \<and> k < 20) [0..<100]"
    by (rule filter_cong) (auto simp: d)
  then show "rewardPercent st REvidence = 20"
    by (simp add: rewardPercent_def length_filter_band length_filter_below)
  have "filter (\<lambda>k. fst (resolveSearch_draw True (of_nat k / 100) st) = RItem) [0..<100]
        = filter (\<lambda>k. 20 \<le> k \<and> k < 65) [0..<100]"
    by (rule filter_cong) (auto simp: d)
  then show "rewardPercent st RItem = 45"
    by (simp add: rewardPercent_def length_filter_band length_filter_below)
  have "filter (\<lambda>k. fst (resolveSearch_draw True (of_nat k / 100) st) = RClue) [0..<100]
        = filter (\<lambda>k. 65 \<le> k \<and> k < 100) [0..<100]"
    by (rule filter_cong) (auto simp: d)
  then show "rewardPercent st RClue = 35"
    by (simp add: rewardPercent_def length_filter_band length_filter_below)
qed

lemma percent_open:
  assumes "isEscapeOpen st" "itemDeck st \<noteq> []"
  shows "rewardPercent st REvidence = 0" "rewardPercent st RItem = 65" "rewardPercent st RClue = 35"
proof -
  have d: "\<And>k. fst (resolveSearch_draw True (of_nat k / 100) st) = (if k < 65 then RItem else RClue)"
    by (simp add: draw_open [OF assms] percent_less)
  have "filter (\<lambda>k. fst (resolveSearch_draw True (of_nat k / 100) st) = REvidence) [0..<100] = []"
    by (auto simp: filter_empty_conv d)
  then show "rewardPercent st REvidence = 0"
    by (simp add: rewardPercent_def)
  have "filter (\<lambda>k. fst (resolveSearch_draw True (of_nat k / 100) st) = RItem) [0..<100]
        = filter (\<lambda>k. 0 \<le> k \<and> k < 65) [0..<100]"
    by (rule filter_cong) (auto simp: d)
  then show "rewardPercent st RItem = 65"
    by (simp add: rewardPercent_def length_filter_band length_filter_below)
  have "filter (\<lambda>k. fst (resolveSearch_draw True (of_nat k / 100) st) = RClue) [0..<100]
        = filter (\<lambda>k. 65 \<le> k \<and> k < 100) [0..<100]"
    by (rule filter_cong) (auto simp: d)
  then show "rewardPercent st RClue = 35"
    by (simp add: rewardPercent_def length_filter_band length_filter_below)
qed

lemma at_index_update:
  "at_index xs i = Some x \<Longrightarrow> at_index (xs[nat i := y]) i = Some y"
  by (auto simp: at_index_def split: if_splits)

lemma apply_success:
  assumes "at_index (players prev) (currentPlayerIndex prev) = Some cp"
  shows "\<exists>s' cp'. resolveSearch_apply token True rewardType narrative prev = Inr s'
      \<and> at_index (players s') (currentPlayerIndex prev) = Some cp'
      \<and> tokens s' = filter (\<lambda>t. tok_id t \<noteq> tok_id token) (tokens prev)
      \<and> actionsRemaining cp' = actionsRemaining cp - 1
      \<and> (rewardType = REvidence \<longrightarrow>
           evidenceCollected s' = evidenceCollected prev + 1 \<and> items cp' = items cp
           \<and> clues cp' = clues cp \<and> itemDeck s' = itemDeck prev)
      \<and> (rewardType = RItem \<and> itemDeck prev \<noteq> [] \<and> last (itemDeck prev) \<noteq> [] \<longrightarrow>
           items cp' = items cp @ [last (itemDeck prev)] \<and> itemDeck s' = butlast (itemDeck prev)
           \<and> clues cp' = clues cp \<and> evidenceCollected s' = evidenceCollected prev)
      \<and> (rewardType = RItem \<and> itemDeck prev = [] \<or> rewardType = RClue \<or> rewardType = RNone \<longrightarrow>
           clues cp' = clues cp + 1 \<and> items cp' = items cp \<and> itemDeck s' = itemDeck prev
           \<and> evidenceCollected s' = evidenceCollected prev)"
  using assms at_index_update [OF assms]
  by (cases rewardType) (auto simp: resolveSearch_apply_def Let_def)

text \<open>
  What the draw and the reward updater do on a successful search, for the player at
  \<^verbatim>\<open>prev.currentPlayerIndex\<close> when the updater runs, where the item deck is not refilled
  between the draw and the moment the reward is applied and item names are non-empty: the
  draw gives Evidence when it is below 0.20 and the escape was not open at the draw;
  otherwise an Item when it is below 0.65, the last card of the item deck, taken off the
  deck, provided the deck is non-empty when the reward is applied; otherwise one Clue. The
  Search token is removed and that player's remaining actions go down by exactly 1. With a
  non-empty deck at the draw the chances are 20% Evidence, 45% Item and 35% Clue while the
  escape is closed, and 0%, 65% and 35% once it is open.
\<close>

lemma search_reward_draw_and_apply:
  assumes "at_index (players prev) (currentPlayerIndex prev) = Some cp"
    and "itemDeck prev \<noteq> [] \<longrightarrow> itemDeck st \<noteq> []"
    and "[] \<notin> set (itemDeck prev)"
  shows "\<exists>s' cp'. resolveSearch_apply token True (fst (resolveSearch_draw True roll st)) narrative prev = Inr s'
      \<and> at_index (players s') (currentPlayerIndex prev) = Some cp'
      \<and> tokens s' = filter (\<lambda>t. tok_id t \<noteq> tok_id token) (tokens prev)
      \<and> actionsRemaining cp' = actionsRemaining cp - 1
      \<and> (\<not> isEscapeOpen st \<and> roll < 20 / 100 \<longrightarrow>
           evidenceCollected s' = evidenceCollected prev + 1 \<and> items cp' = items cp
           \<and> clues cp' = clues cp \<and> itemDeck s' = itemDeck prev)
      \<and> (\<not> (\<not> isEscapeOpen st \<and> roll < 20 / 100) \<and> roll < 65 / 100 \<and> itemDeck prev \<noteq> [] \<longrightarrow>
           items cp' = items cp @ [last (itemDeck prev)] \<and> itemDeck s' = butlast (itemDeck prev)
           \<and> clues cp' = clues cp \<and> evidenceCollected s' = evidenceCollected prev)
      \<and> (\<not> (\<not> isEscapeOpen st \<and> roll < 20 / 100) \<and> (65 / 100 \<le> roll \<or> itemDeck prev = []) \<longrightarrow>
           clues cp' = clues cp + 1 \<and> items cp' = items cp \<and> itemDeck s' = itemDeck prev
           \<and> evidenceCollected s' = evidenceCollected prev)
      \<and> (itemDeck st \<noteq> [] \<longrightarrow>
           (\<not> isEscapeOpen st \<longrightarrow>
              rewardPercent st REvidence = 20 \<and> rewardPercent st RItem = 45 \<and> rewardPercent st RClue = 35)
           \<and> (isEscapeOpen st \<longrightarrow>
              rewardPercent st REvidence = 0 \<and> rewardPercent st RItem = 65 \<and> rewardPercent st RClue = 35))"
proof -
  let ?r = "fst (resolveSearch_draw True roll st)"
  from apply_success [OF assms(1), of token ?r narrative] obtain s' cp' where
    a: "resolveSearch_apply token True ?r narrative prev = Inr s'"
       "at_index (players s') (currentPlayerIndex prev) = Some cp'"
       "tokens s' = filter (\<lambda>t. tok_id t \<noteq> tok_id token) (tokens prev)"
       "actionsRemaining cp' = actionsRemaining cp - 1"
       "?r = REvidence \<longrightarrow>
           evidenceCollected s' = evidenceCollected prev + 1 \<and> items cp' = items cp
           \<and> clues cp' = clues cp \<and> itemDeck s' = itemDeck prev"
       "?r = RItem \<and> itemDeck prev \<noteq> [] \<and> last (itemDeck prev) \<noteq> [] \<longrightarrow>
           items cp' = items cp @ [last (itemDeck prev)] \<and> itemDeck s' = butlast (itemDeck prev)
           \<and> clues cp' = clues cp \<and> evidenceCollected s' = evidenceCollected prev"
       "?r = RItem \<and> itemDeck prev = [] \<or> ?r = RClue \<or> ?r = RNone \<longrightarrow>
           clues cp' = clues cp + 1 \<and> items cp' = items cp \<and> itemDeck s' = itemDeck prev
           \<and> evidenceCollected s' = evidenceCollected prev"
    by blast
  have l: "itemDeck prev \<noteq> [] \<Longrightarrow> last (itemDeck prev) \<noteq> []"
    using assms(3) last_in_set [of "itemDeck prev"] by metis
  have ev: "\<not> isEscapeOpen st \<and> roll < 20 / 100 \<Longrightarrow> ?r = REvidence"
    by (simp add: resolveSearch_draw_def)
  have it: "\<not> (\<not> isEscapeOpen st \<and> roll < 20 / 100) \<and> roll < 65 / 100 \<and> itemDeck prev \<noteq> [] \<Longrightarrow> ?r = RItem"
    using assms(2) by (auto simp: resolveSearch_draw_def)
  have cl: "\<not> (\<not> isEscapeOpen st \<and> roll < 20 / 100) \<and> (65 / 100 \<le> roll \<or> itemDeck prev = [])
        \<Longrightarrow> ?r = RItem \<and> itemDeck prev = [] \<or> ?r = RClue"
    by (auto simp: resolveSearch_draw_def)
  have pc: "itemDeck st \<noteq> [] \<longrightarrow>
           (\<not> isEscapeOpen st \<longrightarrow>
              rewardPercent st REvidence = 20 \<and> rewardPercent st RItem = 45 \<and> rewardPercent st RClue = 35)
           \<and> (isEscapeOpen st \<longrightarrow>
              rewardPercent st REvidence = 0 \<and> rewardPercent st RItem = 65 \<and> rewardPercent st RClue = 35)"
    using percent_closed [of st] percent_open [of st] by blast
  show ?thesis
    using a l ev it cl pc by (intro exI [of _ s'] exI [of _ cp']) blast
qed

lemma search_reward_draw_and_apply_sample:
  "at_index (players thresholdState) (currentPlayerIndex thresholdState) = Some demoPlayer
   \<and> itemDeck thresholdState \<noteq> [] \<and> [] \<notin> set (itemDeck thresholdState)
   \<and> \<not> isEscapeOpen thresholdState \<and> \<not> ((30 / 100 :: rat) < 20 / 100) \<and> (30 / 100 :: rat) < 65 / 100
   \<and> (\<exists>s' cp'. resolveSearch_apply coatRack True (fst (resolveSearch_draw True (30 / 100) thresholdState))
                  ''A shotgun hangs behind the coats.'' thresholdState = Inr s'
         \<and> at_index (players s') 0 = Some cp'
         \<and> tokens s' = [] \<and> actionsRemaining cp' = 1 \<and> items cp' = [''Shotgun'']
         \<and> itemDeck s' = [''Lantern''] \<and> clues cp' = 1 \<and> evidenceCollected s' = 4)
   \<and> rewardPercent thresholdState REvidence = 20 \<and> rewardPercent thresholdState RItem = 45
   \<and> rewardPercent thresholdState RClue = 35"
proof -
  have h: "at_index (players thresholdState) (currentPlayerIndex thresholdState) = Some demoPlayer"
    "itemDeck thresholdState \<noteq> [] \<longrightarrow> itemDeck thresholdState \<noteq> []"
    "[] \<notin> set (itemDeck thresholdState)"
    by (simp_all add: thresholdState_def demoState_def at_index_def)
  have v: "itemDeck thresholdState = [''Lantern'', ''Shotgun'']" "\<not> isEscapeOpen thresholdState"
    "tokens thresholdState = [coatRack]" "currentPlayerIndex thresholdState = 0"
    "evidenceCollected thresholdState = 4"
    "actionsRemaining demoPlayer = 2" "items demoPlayer = []" "clues demoPlayer = 1"
    by (simp_all add: thresholdState_def demoState_def demoPlayer_def)
  have r: "\<not> ((30 / 100 :: rat) < 20 / 100)" "(30 / 100 :: rat) < 65 / 100"
    by simp_all
  from search_reward_draw_and_apply [OF h, of coatRack "30 / 100" "''A shotgun hangs behind the coats.''"]
  obtain s' cp' where
    "resolveSearch_apply coatRack True (fst (resolveSearch_draw True (30 / 100) thresholdState))
        ''A shotgun hangs behind the coats.'' thresholdState = Inr s'"
    "at_index (players s') (currentPlayerIndex thresholdState) = Some cp'"
    "tokens s' = filter (\<lambda>t. tok_id t \<noteq> tok_id coatRack) (tokens thresholdState)"
    "actionsRemaining cp' = actionsRemaining demoPlayer - 1"
    "items cp' = items demoPlayer @ [last (itemDeck thresholdState)]"
    "itemDeck s' = butlast (itemDeck thresholdState)"
    "clues cp' = clues demoPlayer" "evidenceCollected s' = evidenceCollected thresholdState"
    "rewardPercent thresholdState REvidence = 20 \<and> rewardPercent thresholdState RItem = 45
     \<and> rewardPercent thresholdState RClue = 35"
    using v(1,2) r by auto
  then show ?thesis
    using h v r by (auto simp: coatRack_def)
qed

text \<open>
  The player rewarded and charged is the one at the current index when the updater runs.
  If the turn has passed on while the narrative was awaited, that is not the player who
  searched: here the search was Ann's, and Bea receives the clue and pays the action.
\<close>

lemma search_reward_goes_to_current_index:
  "map p_name (players handOverState) = [''Ann'', ''Bea''] \<and> currentPlayerIndex handOverState = 1
   \<and> (\<exists>s'. resolveSearch_apply coatRack True RClue ''Nothing but dust.'' handOverState = Inr s'
         \<and> players s' = [demoPlayer, bea\<lparr>clues := 2, actionsRemaining := - 1\<rparr>])"
  by (simp add: resolveSearch_apply_def handOverState_def demoState_def at_index_def Let_def
      demoPlayer_def bea_def)

text \<open>
  C4 (the code at the failing input). The comments on the draw say that Items cover the
  draws from 0.20 to 0.65, a 45% chance, and Clues the rest. Only the Evidence branch is
  guarded by the escape being closed; once the escape is open its draws fall through to
  the Item branch. With the escape open a draw of 0.10 yields an Item, and 65 of the
  hundred percent-points yield an Item, none Evidence and 35 a Clue; with the escape closed
  the Item chance is the 45 of the comment.
\<close>

theorem search_item_chance_with_escape_open:
  "isEscapeOpen escapeOpenState \<and> itemDeck escapeOpenState = [''Lantern'', ''Shotgun'']
   \<and> resolveSearch_draw True (10 / 100) escapeOpenState = (RItem, ''Shotgun'')
   \<and> rewardPercent escapeOpenState RItem = 65
   \<and> rewardPercent escapeOpenState REvidence = 0 \<and> rewardPercent escapeOpenState RClue = 35
   \<and> rewardPercent thresholdState RItem = 45"
proof -
  have a: "isEscapeOpen escapeOpenState" "itemDeck escapeOpenState = [''Lantern'', ''Shotgun'']"
    by (simp_all add: escapeOpenState_def thresholdState_def demoState_def)
  have c: "\<not> isEscapeOpen thresholdState" "itemDeck thresholdState \<noteq> []"
    by (simp_all add: thresholdState_def demoState_def)
  have o: "rewardPercent escapeOpenState RItem = 65" "rewardPercent escapeOpenState REvidence = 0"
    "rewardPercent escapeOpenState RClue = 35"
    using a by (simp_all add: percent_open)
  have d: "resolveSearch_draw True (10 / 100) escapeOpenState = (RItem, ''Shotgun'')"
    using a by (simp add: resolveSearch_draw_def)
  show ?thesis
    using a o d percent_closed(2) [OF c] by simp
qed

section \<open>Combat damage\<close>

lemma list_ex_isWeapon: "list_ex isWeapon xs = (\<exists>i \<in> set xs. isWeapon i)"
  by (simp add: list_ex_iff)

subsection \<open>The resolver that applies weapon damage\<close>

lemma combat_hits_formula:
  "combat_hits monster player rolls =
     (if ''Holy Water'' \<in> set (items player)
         \<and> (includes_str (m_name monster) ''Spirit'' \<or> includes_str (m_name monster) ''Ghost'')
      then 999
      else int (count_list rolls ElderSign)
           + (if ''Shotgun'' \<in> set (items player) then 2
              else if (\<exists>i \<in> set (items player). isWeapon i) then 1 else 0))"
  by (simp add: combat_hits_def Let_def list_ex_isWeapon filter_ElderSign_count)

lemma resolveCombat_faces_monsters:
  assumes "findIndex (\<lambda>p. p_id p = p_id player) (players gs) = Some pIndex"
    and "m_health monster = Num h"
  shows "\<exists>s'. resolveCombat_faces gs monster player rolls prev = Inr s'
     \<and> monsters s' =
         (if h - combat_hits monster player rolls \<le> 0
          then filter (\<lambda>m. m_id m \<noteq> m_id monster) (monsters gs)
          else map (\<lambda>m. if m_id m = m_id monster
                         then m\<lparr>m_health := Num (h - combat_hits monster player rolls)\<rparr> else m)
                   (monsters gs))
     \<and> phase s' = Playing \<and> activeDiceRoll s' = None"
  using assms by (simp add: resolveCombat_faces_def Let_def addLog_untrimmed_def)

text \<open>
  The hits of this resolver follow the dice: an unarmed player deals 2 hits with two
  Success faces and none with no Success face, and the Shotgun with two Success faces
  deals 4.
\<close>

lemma combat_hits_follow_the_dice:
  "items demoPlayer = []
   \<and> combat_hits deepOne demoPlayer [ElderSign, ElderSign, Blank] = 2
   \<and> combat_hits deepOne demoPlayer [Blank, Blank] = 0
   \<and> combat_hits deepOne shotgunPlayer [ElderSign, ElderSign, Blank] = 4"
  by (simp add: combat_hits_def Let_def demoPlayer_def deepOne_def shotgunPlayer_def isWeapon_def ITEMS_def)

text \<open>
  What this resolver does with the hits (the attacker being in the session and the
  monster's health a number): the monster is removed when its health minus the hits is 0
  or below, and otherwise its health is lowered by the hits. A player holding a Shotgun
  (and no Holy Water against a spirit) who rolls exactly 1 Success face deals 3 hits,
  which defeats a monster with health at most 3.
\<close>

lemma combat_hits_and_removal:
  assumes "findIndex (\<lambda>p. p_id p = p_id player) (players gs) = Some pIndex"
    and "m_health monster = Num h"
  shows "\<exists>s'. resolveCombat_faces gs monster player rolls prev = Inr s'
     \<and> (h - combat_hits monster player rolls \<le> 0 \<longrightarrow>
           monsters s' = filter (\<lambda>m. m_id m \<noteq> m_id monster) (monsters gs) \<and> monster \<notin> set (monsters s'))
     \<and> (h - combat_hits monster player rolls > 0 \<longrightarrow>
           monsters s' = map (\<lambda>m. if m_id m = m_id monster
                                  then m\<lparr>m_health := Num (h - combat_hits monster player rolls)\<rparr>
                                  else m) (monsters gs))
     \<and> (''Shotgun'' \<in> set (items player)
          \<and> \<not> (''Holy Water'' \<in> set (items player)
                \<and> (includes_str (m_name monster) ''Spirit'' \<or> includes_str (m_name monster) ''Ghost''))
          \<and> count_list rolls ElderSign = 1 \<longrightarrow>
           combat_hits monster player rolls = 3
           \<and> (h \<le> 3 \<longrightarrow> monster \<notin> set (monsters s')))"
proof -
  from resolveCombat_faces_monsters [OF assms, of rolls prev] obtain s' where
    s: "resolveCombat_faces gs monster player rolls prev = Inr s'"
    and m: "monsters s' =
         (if h - combat_hits monster player rolls \<le> 0
          then filter (\<lambda>m. m_id m \<noteq> m_id monster) (monsters gs)
          else map (\<lambda>m. if m_id m = m_id monster
                         then m\<lparr>m_health := Num (h - combat_hits monster player rolls)\<rparr> else m)
                   (monsters gs))"
    by blast
  note f = combat_hits_formula [of monster player rolls]
  have gone: "h - combat_hits monster player rolls \<le> 0 \<Longrightarrow> monster \<notin> set (monsters s')"
    using m by auto
  have ex: "''Shotgun'' \<in> set (items player)
          \<and> \<not> (''Holy Water'' \<in> set (items player)
                \<and> (includes_str (m_name monster) ''Spirit'' \<or> includes_str (m_name monster) ''Ghost''))
          \<and> count_list rolls ElderSign = 1 \<longrightarrow>
           combat_hits monster player rolls = 3
           \<and> (h \<le> 3 \<longrightarrow> monster \<notin> set (monsters s'))"
  proof (intro impI conjI)
    assume a: "''Shotgun'' \<in> set (items player)
          \<and> \<not> (''Holy Water'' \<in> set (items player)
                \<and> (includes_str (m_name monster) ''Spirit'' \<or> includes_str (m_name monster) ''Ghost''))
          \<and> count_list rolls ElderSign = 1"
    then show h3: "combat_hits monster player rolls = 3"
      by (subst f) auto
    assume "h \<le> 3"
    with h3 show "monster \<notin> set (monsters s')"
      by (intro gone) simp
  qed
  show ?thesis
    using s m gone ex by (intro exI [of _ s']) auto
qed

subsection \<open>The variant with tagged action contexts\<close>

text \<open>
  Here the value \<^verbatim>\<open>totalDmg\<close> that the click computes from the weapon is not part of the
  pending dice roll: whatever the player holds, the roll created carries the monster's id
  and the target 2 only.
\<close>

lemma handleMonsterClick_carries_no_damage:
  assumes "handleMonsterClick monster remote s = Inr s'" "phase s' = DiceRoll" "phase s = Playing"
  shows "\<exists>player. at_index (players s) (currentPlayerIndex s) = Some player
     \<and> activeDiceRoll s' = Some \<lparr>playerId = p_id player, adr_attribute = Strength,
          adr_count = attr_score (attributes player) Strength, adr_target = 2,
          adr_description = ''Attacking '' @ m_name monster, adr_context = COMBAT (m_id monster)\<rparr>"
  using assms
  by (auto simp: handleMonsterClick_def updatePlayerAction_def addLog_def split: if_splits option.splits)

text \<open>A hit with any dice at all leaves the monster in the session, its health no number.\<close>

lemma resolveCombat_hit_NaN:
  assumes "findIndex (\<lambda>m. m_id m = monsterId) (monsters prev) = Some mIdx" and "faces \<noteq> []"
  shows "monsters (resolveCombat monsterId True (Some faces) prev)
         = (monsters prev)[mIdx := (monsters prev ! mIdx)\<lparr>m_health := NaN\<rparr>]"
proof -
  have "js_minus (m_health (monsters prev ! mIdx)) (facesNumber (Some faces)) = NaN"
    using assms(2) by (cases "m_health (monsters prev ! mIdx)") (simp_all add: facesNumber_def)
  with assms(1) show ?thesis
    by (simp add: resolveCombat_def Let_def)
qed

text \<open>
  C2 (the code at the failing input). The investigator holds the Shotgun and stands on the
  tile of a Deep One of health 3. The click computes the damage of the claim, 1 + 2 = 3,
  and leaves it behind: the pending roll names only the monster. The roll is confirmed with
  two Success faces, which meets the target 2, and the resolver is handed the faces where
  it expects the damage. The health becomes \<^verbatim>\<open>NaN\<close>, the test \<^verbatim>\<open>health <= 0\<close> fails, and
  the monster stays; a second successful attack changes nothing. With one Success face
  the attack counts as missed and no damage is applied at all.
\<close>

theorem attack_applies_no_weapon_damage:
  "handleMonsterClick_totalDmg shotgunPlayer = 3 \<and> m_health deepOne = Num 3
   \<and> monsters combatState = [deepOne]
   \<and> (\<exists>s1 roll.
         handleMonsterClick deepOne False combatState = Inr s1
         \<and> activeDiceRoll s1 = Some roll \<and> adr_context roll = COMBAT ''mon_1'' \<and> adr_target roll = 2
         \<and> snd (onComplete s1 roll shotgunPlayer [ElderSign, ElderSign, Blank] 0 s1)
             = RunCombat ''mon_1'' True (Some [ElderSign, ElderSign, Blank])
         \<and> monsters (resolveCombat ''mon_1'' True (Some [ElderSign, ElderSign, Blank]) s1)
             = [deepOne\<lparr>m_health := NaN\<rparr>]
         \<and> last (log (resolveCombat ''mon_1'' True (Some [ElderSign, ElderSign, Blank]) s1))
             = ''You hit the Deep One for PASS,PASS,FAIL damage.''
         \<and> monsters (resolveCombat ''mon_1'' True (Some [ElderSign, ElderSign, ElderSign])
                       (resolveCombat ''mon_1'' True (Some [ElderSign, ElderSign, Blank]) s1))
             = [deepOne\<lparr>m_health := NaN\<rparr>]
         \<and> snd (onComplete s1 roll shotgunPlayer [ElderSign, Blank, Blank] 0 s1)
             = RunCombat ''mon_1'' False (Some [ElderSign, Blank, Blank])
         \<and> monsters (resolveCombat ''mon_1'' False (Some [ElderSign, Blank, Blank]) s1) = [deepOne])"
proof -
  define roll where "roll = \<lparr>playerId = ''p1'', adr_attribute = Strength, adr_count = 3, adr_target = 2,
     adr_description = ''Attacking Deep One'', adr_context = COMBAT ''mon_1''\<rparr>"
  define s1 where "s1 = updatePlayerAction ''p1'' (- 1) (combatState\<lparr>phase := DiceRoll, activeDiceRoll := Some roll\<rparr>)"
  have a: "handleMonsterClick_totalDmg shotgunPlayer = 3" "m_health deepOne = Num 3" "monsters combatState = [deepOne]"
    by (simp_all add: handleMonsterClick_totalDmg_def shotgunPlayer_def demoPlayer_def isWeapon_def ITEMS_def
        deepOne_def combatState_def demoState_def)
  have c: "handleMonsterClick deepOne False combatState = Inr s1"
    by (simp add: handleMonsterClick_def combatState_def demoState_def at_index_def shotgunPlayer_def
        demoPlayer_def deepOne_def s1_def roll_def)
  have r: "activeDiceRoll s1 = Some roll" "adr_context roll = COMBAT ''mon_1''" "adr_target roll = 2"
    "monsters s1 = [deepOne]" "networkMode s1 = Offline" "log s1 = []"
    by (simp_all add: s1_def roll_def updatePlayerAction_def combatState_def demoState_def)
  have h: "snd (onComplete s1 roll shotgunPlayer [ElderSign, ElderSign, Blank] 0 s1)
             = RunCombat ''mon_1'' True (Some [ElderSign, ElderSign, Blank])"
    "snd (onComplete s1 roll shotgunPlayer [ElderSign, Blank, Blank] 0 s1)
             = RunCombat ''mon_1'' False (Some [ElderSign, Blank, Blank])"
    using r by (simp_all add: onComplete_def handleActionComplete_def onComplete_success_def
        onComplete_successes_def Let_def)
  have f: "findIndex (\<lambda>m. m_id m = ''mon_1'') (monsters s1) = Some 0"
    using r by (simp add: deepOne_def)
  have m1: "monsters (resolveCombat ''mon_1'' True (Some [ElderSign, ElderSign, Blank]) s1) = [deepOne\<lparr>m_health := NaN\<rparr>]"
    using resolveCombat_hit_NaN [OF f, of "[ElderSign, ElderSign, Blank]"] r by simp
  have f2: "findIndex (\<lambda>m. m_id m = ''mon_1'') (monsters (resolveCombat ''mon_1'' True (Some [ElderSign, ElderSign, Blank]) s1)) = Some 0"
    using m1 by (simp add: deepOne_def)
  have m2: "monsters (resolveCombat ''mon_1'' True (Some [ElderSign, ElderSign, ElderSign])
                       (resolveCombat ''mon_1'' True (Some [ElderSign, ElderSign, Blank]) s1))
             = [deepOne\<lparr>m_health := NaN\<rparr>]"
    using resolveCombat_hit_NaN [OF f2, of "[ElderSign, ElderSign, ElderSign]"] m1 by simp
  have l: "last (log (resolveCombat ''mon_1'' True (Some [ElderSign, ElderSign, Blank]) s1))
             = ''You hit the Deep One for PASS,PASS,FAIL damage.''"
    using f r by (simp add: resolveCombat_def Let_def facesNumber_def deepOne_def slice_last50_def
        facesText_def faceText_def)
  have m0: "monsters (resolveCombat ''mon_1'' False (Some [ElderSign, Blank, Blank]) s1) = [deepOne]"
    using r by (simp add: resolveCombat_def)
  show ?thesis
    using a c r h m1 m2 l m0 by (intro conjI exI [of _ s1] exI [of _ roll]) simp_all
qed

section \<open>Turn rotation\<close>

lemma find_distinct_nth:
  assumes "distinct (map f xs)" "i < length xs"
  shows "find (\<lambda>q. f q = f (xs ! i)) xs = Some (xs ! i)"
  using assms
proof (induction xs arbitrary: i)
  case Nil
  then show ?case by simp
next
  case (Cons x xs)
  show ?case
  proof (cases i)
    case 0
    then show ?thesis by simp
  next
    case (Suc j)
    with Cons.prems have "f (xs ! j) \<in> set (map f xs)" "f x \<notin> set (map f xs)"
      by auto
    then have "f x \<noteq> f (xs ! j)"
      by metis
    with Suc Cons show ?thesis
      by auto
  qed
qed

lemma applyDamage_update_ids:
  assumes "find (\<lambda>p. p_id p = pid) (players s) = Some player"
    and "\<not> (p_health player - dmg \<le> 0 \<and> isWounded player)"
  shows "map p_id (players (applyDamage_update pid dmg hor s)) = map p_id (players s)"
proof -
  have "p_id player = pid"
    using find_Some_P [OF assms(1)] .
  then have "p_id (applyDamage_updatedPlayer player dmg hor) = pid"
    by (simp add: applyDamage_updatedPlayer_def Let_def)
  then show ?thesis
    using assms by (auto simp: applyDamage_update_def)
qed

lemma applyDamage_update_other:
  "round (applyDamage_update pid dmg hor s) = round s"
  "currentPlayerIndex (applyDamage_update pid dmg hor s) = currentPlayerIndex s"
  "phase (applyDamage_update pid dmg hor s) = phase s"
  by (auto simp: applyDamage_update_def split: option.splits)

lemma at_index_map_ids:
  assumes "map f xs = map f ys" "at_index ys i = Some y"
  shows "\<exists>x. at_index xs i = Some x \<and> f x = f y"
proof -
  have l: "length xs = length ys"
    using assms(1) by (metis length_map)
  from assms(2) have i: "0 \<le> i" "nat i < length ys" "y = ys ! nat i"
    by (auto simp: at_index_def split: if_splits)
  have "f (xs ! nat i) = f (ys ! nat i)"
    using assms(1) i l by (metis nth_map)
  with i l show ?thesis
    by (auto simp: at_index_def)
qed

lemma endTurn_unfold:
  assumes "at_index (players s) (currentPlayerIndex s) = Some player" "networkMode s \<noteq> Client \<or> remote"
    and "prev = (if filter (\<lambda>m. m_x m = p_x player \<and> m_y m = p_y player) (monsters s) \<noteq> []
                    \<and> (sum_list (map damage (filter (\<lambda>m. m_x m = p_x player \<and> m_y m = p_y player) (monsters s))) > 0
                       \<or> sum_list (map horror (filter (\<lambda>m. m_x m = p_x player \<and> m_y m = p_y player) (monsters s))) > 0)
                 then applyDamage_update (p_id player)
                        (sum_list (map damage (filter (\<lambda>m. m_x m = p_x player \<and> m_y m = p_y player) (monsters s))))
                        (sum_list (map horror (filter (\<lambda>m. m_x m = p_x player \<and> m_y m = p_y player) (monsters s))))
                        (addLog (p_name player @ '' is attacked by enemies!'') s)
                 else s)"
    and "nextIndex = (currentPlayerIndex s + 1) mod int (length (players s))"
  shows "endTurn remote s =
     (if nextIndex = 0 then Inr (runMythosPhase_begin s prev)
      else case at_index (players prev) nextIndex of
             None \<Rightarrow> (if players prev = [] then Inr (prev\<lparr>currentPlayerIndex := nextIndex\<rparr>) else Inl TypeError)
           | Some next \<Rightarrow>
               Inr (prev\<lparr>currentPlayerIndex := nextIndex,
                         players := map (\<lambda>p. if p_id p = p_id next then refreshed p else p) (players prev)\<rparr>))"
proof -
  from assms(1) have i: "0 \<le> currentPlayerIndex s" "players s \<noteq> []"
    by (auto simp: at_index_def split: if_splits)
  then have n: "nextIndex = js_rem (currentPlayerIndex s + 1) (int (length (players s)))"
    by (simp add: js_rem_def assms(4))
  have "0 \<le> nextIndex" "nextIndex < int (length (players s))"
    using i by (simp_all add: assms(4))
  then have a: "at_index (players s) nextIndex = Some (players s ! nat nextIndex)"
    by (simp add: at_index_def)
  have "endTurn remote s = endTurn_advance s prev"
    using assms(1,2) i unfolding endTurn_def Let_def assms(3) by auto
  then show ?thesis
    using a unfolding endTurn_advance_def Let_def n [symmetric] by simp
qed

lemma map_refreshed_ids:
  "map p_id (map (\<lambda>p. if p_id p = k then refreshed p else p) ps) = map p_id ps"
  by (induction ps) (auto simp: refreshed_def)

text \<open>
  As long as the monsters on the tile do not eliminate the player whose turn ends, the
  rotation is a round-robin: the index moves to the next player of the list, and after the
  last player the round number goes up by exactly 1 and the end of the Mythos phase hands
  the turn to the first player.
\<close>

lemma endTurn_round_robin:
  assumes cur: "at_index (players s) (currentPlayerIndex s) = Some player"
    and host: "networkMode s \<noteq> Client \<or> remote"
    and ids: "distinct (map p_id (players s))"
    and alive: "\<not> (p_health player - endTurn_totalDmg s player \<le> 0 \<and> isWounded player)"
  shows "\<exists>s'. endTurn remote s = Inr s'
     \<and> map p_id (players s') = map p_id (players s)
     \<and> (currentPlayerIndex s + 1 < int (length (players s)) \<longrightarrow>
          currentPlayerIndex s' = currentPlayerIndex s + 1 \<and> round s' = round s)
     \<and> (currentPlayerIndex s + 1 = int (length (players s)) \<longrightarrow>
          round s' = round s + 1 \<and> phase s' = Mythos
          \<and> currentPlayerIndex (endMythosPhase s' s') = 0 \<and> round (endMythosPhase s' s') = round s + 1)"
proof -
  from cur have i: "0 \<le> currentPlayerIndex s" "nat (currentPlayerIndex s) < length (players s)"
    "player = players s ! nat (currentPlayerIndex s)"
    by (auto simp: at_index_def split: if_splits)
  define enemies where "enemies = filter (\<lambda>m. m_x m = p_x player \<and> m_y m = p_y player) (monsters s)"
  define dmg where "dmg = sum_list (map damage enemies)"
  define hor where "hor = sum_list (map horror enemies)"
  define prev where "prev = (if enemies \<noteq> [] \<and> (dmg > 0 \<or> hor > 0)
                then applyDamage_update (p_id player) dmg hor
                       (addLog (p_name player @ '' is attacked by enemies!'') s)
                else s)"
  define nextIndex where "nextIndex = (currentPlayerIndex s + 1) mod int (length (players s))"
  note u = endTurn_unfold [OF cur host prev_def [unfolded dmg_def hor_def enemies_def] nextIndex_def]
  have f: "find (\<lambda>p. p_id p = p_id player) (players (addLog (p_name player @ '' is attacked by enemies!'') s))
           = Some player"
    using find_distinct_nth [OF ids i(2)] i(3) by (simp add: addLog_def)
  have alive': "\<not> (p_health player - dmg \<le> 0 \<and> isWounded player)"
    using alive by (simp add: endTurn_totalDmg_def dmg_def enemies_def)
  have pids: "map p_id (players prev) = map p_id (players s)"
    using applyDamage_update_ids [OF f alive', of hor] by (simp add: addLog_def prev_def)
  have rest: "round prev = round s" "currentPlayerIndex prev = currentPlayerIndex s"
    by (simp_all add: applyDamage_update_other addLog_def prev_def)
  have len: "length (players prev) = length (players s)"
    using pids by (metis length_map)
  show ?thesis
  proof (cases "currentPlayerIndex s + 1 < int (length (players s))")
    case True
    then have n: "nextIndex = currentPlayerIndex s + 1"
      using i by (simp add: nextIndex_def)
    have a: "at_index (players prev) nextIndex = Some (players prev ! nat nextIndex)"
      using True i len n by (simp add: at_index_def)
    have nz: "nextIndex \<noteq> 0"
      using n i by simp
    have "endTurn remote s = Inr (prev\<lparr>currentPlayerIndex := nextIndex,
             players := map (\<lambda>p. if p_id p = p_id (players prev ! nat nextIndex) then refreshed p else p) (players prev)\<rparr>)"
      using u a nz by simp
    then show ?thesis
      using True n pids rest by (simp add: map_refreshed_ids del: map_map)
  next
    case False
    with i have last: "currentPlayerIndex s + 1 = int (length (players s))"
      by simp
    then have n: "nextIndex = 0"
      by (simp add: nextIndex_def)
    have ne: "players prev \<noteq> []"
      using len i by auto
    have e: "endTurn remote s = Inr (runMythosPhase_begin s prev)"
      using u n by simp
    have "currentPlayerIndex (endMythosPhase (runMythosPhase_begin s prev) (runMythosPhase_begin s prev)) = 0"
      "round (endMythosPhase (runMythosPhase_begin s prev) (runMythosPhase_begin s prev)) = round s + 1"
      using ne by (simp_all add: endMythosPhase_def runMythosPhase_begin_def addLog_def)
    then show ?thesis
      using e last pids by (simp add: runMythosPhase_begin_def)
  qed
qed

lemma endTurn_three:
  "endTurn False threePlayerState =
     Inr (threePlayerState\<lparr>players := [bea, refreshed cal], currentPlayerIndex := 1,
            log := [''Ann is attacked by enemies!'', ''Ann has succumbed to their wounds!'']\<rparr>)"
  by (simp add: endTurn_def endTurn_advance_def js_rem_def threePlayerState_def demoState_def at_index_def
      ann_def bea_def cal_def demoPlayer_def rats_def applyDamage_update_def addLog_def slice_last50_def Let_def)

text \<open>
  C8 (the code at the failing input). Ann, Bea and Cal play in this order and it is Ann's
  turn; Ann is wounded with 1 health and shares her tile with a monster of damage 1. Ending
  her turn removes her, and the index computed before the removal is installed after it:
  the turn goes to Cal and Bea, who is still in the session, is passed over in this round.
  With only Ann and Bea in the session the same step reads a player beyond the end of the
  list and throws.
\<close>

theorem endTurn_skips_after_elimination:
  "map p_name (players threePlayerState) = [''Ann'', ''Bea'', ''Cal'']
   \<and> currentPlayerIndex threePlayerState = 0
   \<and> (\<exists>s'. endTurn False threePlayerState = Inr s'
         \<and> map p_name (players s') = [''Bea'', ''Cal'']
         \<and> currentPlayerIndex s' = 1
         \<and> map_option p_name (at_index (players s') (currentPlayerIndex s')) = Some ''Cal''
         \<and> map actionsRemaining (players s') = [0, 2]
         \<and> round s' = round threePlayerState)
   \<and> map p_name (players twoPlayerState) = [''Ann'', ''Bea'']
   \<and> endTurn False twoPlayerState = Inl TypeError"
proof -
  have a: "map p_name (players threePlayerState) = [''Ann'', ''Bea'', ''Cal'']"
    "currentPlayerIndex threePlayerState = 0" "map p_name (players twoPlayerState) = [''Ann'', ''Bea'']"
    by (simp_all add: threePlayerState_def twoPlayerState_def demoState_def ann_def bea_def cal_def demoPlayer_def)
  have b: "endTurn False twoPlayerState = Inl TypeError"
    by (simp add: endTurn_def endTurn_advance_def js_rem_def twoPlayerState_def demoState_def at_index_def
      ann_def bea_def demoPlayer_def rats_def applyDamage_update_def addLog_def slice_last50_def Let_def)
  have c: "map p_name [bea, refreshed cal] = [''Bea'', ''Cal'']" "map actionsRemaining [bea, refreshed cal] = [0, 2]"
    by (simp_all add: bea_def cal_def demoPlayer_def refreshed_def)
  show ?thesis
    using a b c by (simp add: endTurn_three at_index_def)
qed

section \<open>The offline latch of the content bridge\<close>

lemma gwr_offline: "isOffline br \<Longrightarrow> generateWithRetry env n br = (Inl OfflineMode, br)"
  by (simp add: generateWithRetry.simps)

lemma serve_offline: "isOffline br \<Longrightarrow> serve ps env req br = (fallbackFor req, br)"
  by (cases req)
    (simp_all add: generateIntro_def generateRoomDiscovery_def generateInvestigationOutcome_def
      generateMythosEvent_def generateInsanityCondition_def)

lemma serveAll_offline: "isOffline br \<Longrightarrow> serveAll ps env reqs br = (map fallbackFor reqs, br)"
  by (induction reqs) (simp_all add: serve_offline)

lemma gwr_step:
  assumes "\<not> (isOffline br \<or> \<not> hasAi br)"
  shows "generateWithRetry env n br =
     (case env (liveCalls br) of
        Resolved t \<Rightarrow> (Inr t, br\<lparr>liveCalls := Suc (liveCalls br)\<rparr>)
      | Rejected e \<Rightarrow>
          if isQuotaError e
          then (Inl QuotaExceeded, br\<lparr>liveCalls := Suc (liveCalls br), isOffline := True\<rparr>)
          else (case n of
                  Suc m \<Rightarrow> generateWithRetry env m (br\<lparr>liveCalls := Suc (liveCalls br)\<rparr>)
                | 0 \<Rightarrow> (Inl (ApiFailure e), br\<lparr>liveCalls := Suc (liveCalls br)\<rparr>)))"
  using assms by (subst generateWithRetry.simps) simp

lemma gwr_observe:
  assumes "generateWithRetry env n br = (r, br')"
    and "liveCalls br \<le> k" "k < liveCalls br'" "env k = Rejected e" "isQuotaError e"
  shows "isOffline br'"
  using assms
proof (induction n arbitrary: br)
  case 0
  show ?case
  proof (cases "isOffline br \<or> \<not> hasAi br")
    case True
    with "0.prems" show ?thesis
      by (simp add: generateWithRetry.simps)
  next
    case False
    note st = gwr_step [OF False, of env 0]
    show ?thesis
    proof (cases "isOffline br'")
      case True
      then show ?thesis .
    next
      case off: False
      have "liveCalls br' = Suc (liveCalls br)"
        using "0.prems"(1) st by (auto split: LiveResult.splits if_splits)
      with "0.prems"(2,3) have k: "k = liveCalls br"
        by simp
      with "0.prems" st off show ?thesis
        by (auto split: LiveResult.splits if_splits)
    qed
  qed
next
  case (Suc n)
  show ?case
  proof (cases "isOffline br \<or> \<not> hasAi br")
    case True
    with Suc.prems show ?thesis
      by (simp add: generateWithRetry.simps)
  next
    case False
    note st = gwr_step [OF False, of env "Suc n"]
    show ?thesis
    proof (cases "env (liveCalls br)")
      case (Resolved t)
      with st Suc.prems(1) have "liveCalls br' = Suc (liveCalls br)"
        by auto
      with Suc.prems(2,3) have "k = liveCalls br"
        by simp
      with Resolved Suc.prems(4) show ?thesis
        by simp
    next
      case (Rejected e0)
      show ?thesis
      proof (cases "isQuotaError e0")
        case True
        with Rejected st Suc.prems(1) show ?thesis
          by auto
      next
        case nq: False
        with Rejected st Suc.prems(1)
        have rec: "generateWithRetry env n (br\<lparr>liveCalls := Suc (liveCalls br)\<rparr>) = (r, br')"
          by simp
        have "k \<noteq> liveCalls br"
          using Rejected nq Suc.prems(4,5) by auto
        with Suc.prems(2) have "liveCalls (br\<lparr>liveCalls := Suc (liveCalls br)\<rparr>) \<le> k"
          by simp
        from Suc.IH [OF rec this Suc.prems(3,4,5)] show ?thesis .
      qed
    qed
  qed
qed

lemma serve_bridge:
  assumes "serve ps env req br = (c, br')"
  shows "br' = br \<or> (\<exists>r. generateWithRetry env 1 br = (r, br'))"
  using assms
  by (cases req)
    (auto simp: generateIntro_def generateRoomDiscovery_def generateInvestigationOutcome_def
      generateMythosEvent_def generateInsanityCondition_def
      split: if_splits prod.splits sum.splits option.splits)

text \<open>
  C10. If, while the bridge serves a request, one of its live calls is rejected with a
  quota or rate-limit error, the offline flag is set when the request returns. From then
  on every request, whatever the external service would answer, returns the fallback
  content of that request and leaves the bridge as it is: no live call is attempted (the
  counter of live calls does not move) and the flag is never reset. The fallback is a
  function of the request alone, where the request of a room or of a secret objective
  includes the clock and random readings its fallback picks with.
\<close>

theorem offline_latch:
  assumes "serve ps env req br = (c, br')"
    and "liveCalls br \<le> k" "k < liveCalls br'" "env k = Rejected e" "isQuotaError e"
  shows "isOffline br'
     \<and> (\<forall>ps' env' reqs. serveAll ps' env' reqs br' = (map fallbackFor reqs, br'))
     \<and> (\<forall>ps' env' req'. serve ps' env' req' br' = (fallbackFor req', br'))"
proof -
  from serve_bridge [OF assms(1)] assms(2,3) obtain r where "generateWithRetry env 1 br = (r, br')"
    by auto
  from gwr_observe [OF this assms(2-5)] have "isOffline br'" .
  then show ?thesis
    by (simp add: serveAll_offline serve_offline)
qed

theorem offline_latch_witness:
  "serve noParsers quotaThenFine (ReqMythos 4) onlineBridge = (CMythos (getFallbackMythos 4), trippedBridge)
   \<and> liveCalls onlineBridge \<le> 0 \<and> 0 < liveCalls trippedBridge
   \<and> quotaThenFine 0 = Rejected quotaError \<and> isQuotaError quotaError
   \<and> isOffline trippedBridge
   \<and> serveAll noParsers quotaThenFine [ReqInsanity 6, ReqOutcome ''Coat Rack'' True (Some ''Lantern''), ReqIntro] trippedBridge
       = ([CText (Some ''You must try to set fire to the mansion (Roleplay only).''),
           CText (Some ''You rummage through the Coat Rack and find Lantern.''),
           CIntro getFallbackIntro], trippedBridge)"
proof -
  have s: "serve noParsers quotaThenFine (ReqMythos 4) onlineBridge = (CMythos (getFallbackMythos 4), trippedBridge)"
    by (simp add: generateMythosEvent_def generateWithRetry.simps onlineBridge_def trippedBridge_def
        quotaThenFine_def quotaError_def isQuotaError_def)
  have h: "liveCalls onlineBridge \<le> 0" "0 < liveCalls trippedBridge"
    "quotaThenFine 0 = Rejected quotaError" "isQuotaError quotaError"
    by (simp_all add: onlineBridge_def trippedBridge_def quotaThenFine_def quotaError_def isQuotaError_def)
  note l = offline_latch [OF s h]
  have f: "map fallbackFor [ReqInsanity 6, ReqOutcome ''Coat Rack'' True (Some ''Lantern''), ReqIntro]
      = [CText (Some ''You must try to set fire to the mansion (Roleplay only).''),
           CText (Some ''You rummage through the Coat Rack and find Lantern.''),
           CIntro getFallbackIntro]"
    by (simp add: getFallbackInsanity_def offlineOutcome_def)
  show ?thesis
    using s h l f by simp
qed

section \<open>New tiles and occupied cells\<close>

lemma tileAt_coords: "tileAt ts x y \<longleftrightarrow> (x, y) \<in> set (tileCoords ts)"
  by (auto simp: tileAt_def tileCoords_def list_ex_iff)

lemma mkTile_coord [simp]: "tile_x (mkTile i room n d pos t) = fst pos" "tile_y (mkTile i room n d pos t) = snd pos"
  by (simp_all add: mkTile_def)

lemma explore_newTiles_fresh:
  assumes "\<not> tileAt (tiles cs) (fst (entryCell token)) (snd (entryCell token))"
  shows "distinct (tileCoords (explore_newTiles token rd draws stamp cs))
     \<and> set (tileCoords (explore_newTiles token rd draws stamp cs)) \<inter> set (tileCoords (tiles cs)) = {}
     \<and> entryCell token \<in> set (tileCoords (explore_newTiles token rd draws stamp cs))"
proof -
  obtain ex ey where e: "entryCell token = (ex, ey)"
    by (cases "entryCell token") auto
  have n: "(ex, ey) \<notin> set (tileCoords (tiles cs))"
    using assms e by (simp add: tileAt_coords)
  show ?thesis
    using n
    by (cases "tokenDir token")
      (auto simp: explore_newTiles_def Let_def e tileAt_coords tileCoords_def)
qed

lemma place_tiles:
  assumes "handleTokenClick_place token rd draws stamp cs prev = Inr s'"
  shows "tiles s' = tiles prev @ explore_newTiles token rd draws stamp cs"
  using assms
  by (auto simp: handleTokenClick_place_def Let_def split: option.splits prod.splits)

lemma place_defined:
  assumes "at_index (players cs) (currentPlayerIndex cs) = Some player"
  shows "\<exists>s'. handleTokenClick_place token rd draws stamp cs prev = Inr s'"
  using assms
  by (auto simp: handleTokenClick_place_def Let_def split: option.splits prod.splits)

lemma start_awaits:
  assumes "handleTokenClick_start token remote rand rand2 cs = Inr AwaitRoom"
  shows "\<not> tileAt (tiles cs) (fst (entryCell token)) (snd (entryCell token))
     \<and> (\<exists>player. at_index (players cs) (currentPlayerIndex cs) = Some player)"
  using assms
  by (auto simp: handleTokenClick_start_def split: if_splits option.splits)

text \<open>
  When the state has not changed between the click on the door and the placement of the
  room, the collision checks do their work: the new tiles lie on cells that are pairwise
  different and free in the session, so a map without two tiles on one cell stays so.
\<close>

lemma explore_keeps_cells_distinct:
  assumes "handleTokenClick_start token remote rand rand2 cs = Inr AwaitRoom"
    and "tiles prev = tiles cs"
    and "distinct (tileCoords (tiles cs))"
  shows "\<exists>s'. handleTokenClick_place token rd draws stamp cs prev = Inr s'
     \<and> tiles s' = tiles prev @ explore_newTiles token rd draws stamp cs
     \<and> set (tileCoords (explore_newTiles token rd draws stamp cs)) \<inter> set (tileCoords (tiles prev)) = {}
     \<and> distinct (tileCoords (tiles s'))"
proof -
  from start_awaits [OF assms(1)] obtain player where
    free: "\<not> tileAt (tiles cs) (fst (entryCell token)) (snd (entryCell token))"
    and p: "at_index (players cs) (currentPlayerIndex cs) = Some player"
    by blast
  from place_defined [OF p, of token rd draws stamp prev] obtain s' where
    s: "handleTokenClick_place token rd draws stamp cs prev = Inr s'"
    by blast
  note t = place_tiles [OF s]
  note f = explore_newTiles_fresh [OF free, of rd draws stamp]
  have "distinct (tileCoords (tiles prev @ explore_newTiles token rd draws stamp cs))"
    using f assms(2,3) by (auto simp: tileCoords_def)
  with s t f assms(2) show ?thesis
    by auto
qed

lemma corridor_room: "corridor = mkRoom ''Corridor'' ''A narrow, paneled hallway stretching into darkness.'' ''hallway''
             [(''A discarded note'', ''Observation''), (''A loose floorboard'', ''Strength'')]"
  by (simp add: corridor_def getFallbackRoom_def)

lemma corridor_tiles:
  "explore_newTiles eastDoor corridor plainDraws stamp exploreState
     = [mkTile (''tile_'' @ stamp @ ''_entry'') (''room_'' @ stamp) ''The Corridor''
          ''A narrow, paneled hallway stretching into darkness.'' (1, 0) ''hallway'']"
  by (simp add: explore_newTiles_def corridor_room mkRoom_def Let_def eastDoor_def entryCell_def tokenDir_def
      formatRoomName_def toLowerCase_def lower_char_def)

text \<open>
  C6 (the code at the failing input). The host receives two clicks on the same closed door
  while the room of the first is still being generated, so both handlers have read the
  same state, in which the cell east of the foyer is free. The first continuation places
  the corridor on that cell. The second one checked the cell against the state it read at
  the click, not against the tiles present when it places its room: it appends a second
  tile on the same cell.
\<close>

theorem explore_twice_from_one_snapshot:
  "handleTokenClick_start eastDoor True 0 0 exploreState = Inr AwaitRoom
   \<and> tileCoords (tiles exploreState) = [(0, 0)]
   \<and> (\<exists>s1 s2.
         handleTokenClick_place eastDoor corridor plainDraws ''1700000000001'' exploreState exploreState = Inr s1
         \<and> tileCoords (tiles s1) = [(0, 0), (1, 0)]
         \<and> handleTokenClick_place eastDoor corridor plainDraws ''1700000000002'' exploreState s1 = Inr s2
         \<and> tileCoords (tiles s2) = [(0, 0), (1, 0), (1, 0)]
         \<and> \<not> distinct (tileCoords (tiles s2)))"
proof -
  have a: "handleTokenClick_start eastDoor True 0 0 exploreState = Inr AwaitRoom"
    by (simp add: handleTokenClick_start_def exploreState_def demoState_def demoPlayer_def at_index_def
        eastDoor_def entryCell_def tokenDir_def tileAt_def foyerTile_def)
  have c: "tileCoords (tiles exploreState) = [(0, 0)]"
    by (simp add: tileCoords_def exploreState_def demoState_def foyerTile_def)
  have p: "at_index (players exploreState) (currentPlayerIndex exploreState) = Some demoPlayer"
    by (simp add: exploreState_def demoState_def at_index_def)
  from place_defined [OF p, of eastDoor corridor plainDraws "''1700000000001''" exploreState] obtain s1 where
    s1: "handleTokenClick_place eastDoor corridor plainDraws ''1700000000001'' exploreState exploreState = Inr s1"
    by blast
  from place_defined [OF p, of eastDoor corridor plainDraws "''1700000000002''" s1] obtain s2 where
    s2: "handleTokenClick_place eastDoor corridor plainDraws ''1700000000002'' exploreState s1 = Inr s2"
    by blast
  have t1: "tileCoords (tiles s1) = [(0, 0), (1, 0)]"
    using place_tiles [OF s1] c by (simp add: corridor_tiles tileCoords_def)
  have t2: "tileCoords (tiles s2) = [(0, 0), (1, 0), (1, 0)]"
    using place_tiles [OF s2] t1 by (simp add: corridor_tiles tileCoords_def)
  show ?thesis
    using a c s1 s2 t1 t2 by simp
qed

text \<open>The two continuations end with two tiles on the cell east of the foyer.\<close>

theorem explore_twice_from_one_snapshot_witness:
  "\<exists>s1 s2.
     handleTokenClick_place eastDoor corridor plainDraws ''1700000000001'' exploreState exploreState = Inr s1
     \<and> handleTokenClick_place eastDoor corridor plainDraws ''1700000000002'' exploreState s1 = Inr s2
     \<and> length (filter (\<lambda>c. c = (1, 0)) (tileCoords (tiles s2))) = 2"
proof -
  from explore_twice_from_one_snapshot obtain s1 s2 where
    "handleTokenClick_place eastDoor corridor plainDraws ''1700000000001'' exploreState exploreState = Inr s1"
    "handleTokenClick_place eastDoor corridor plainDraws ''1700000000002'' exploreState s1 = Inr s2"
    "tileCoords (tiles s2) = [(0, 0), (1, 0), (1, 0)]"
    by blast
  then show ?thesis
    by (intro exI [of _ s1] exI [of _ s2]) simp
qed

section \<open>Monster movement\<close>

lemma walk_append:
  "walk ts toks u (p @ q) = (walk ts toks u p \<and> walk ts toks (last (u # p)) q)"
  by (induction p arbitrary: u) auto

lemma walk_snoc:
  "walk ts toks u (p @ [v]) = (walk ts toks u p \<and> linked ts toks (last (u # p)) v)"
  by (simp add: walk_append)

lemma walk_take: "walk ts toks u p \<Longrightarrow> walk ts toks u (take k p)"
  using walk_append [of ts toks u "take k p" "drop k p"] by simp

lemma neighbors_distinct: "distinct (neighbors c)"
  by (simp add: neighbors_def)

lemma visitNeighbors_filter:
  assumes "distinct ns"
  shows "visitNeighbors ts toks currentTile path ns (queue, visited) =
     (queue @ map (\<lambda>n. (n, path @ [n])) (filter (\<lambda>n. n \<notin> set visited \<and> passable ts toks currentTile n) ns),
      visited @ filter (\<lambda>n. n \<notin> set visited \<and> passable ts toks currentTile n) ns)"
  using assms
proof (induction ns arbitrary: queue visited)
  case Nil
  then show ?case by simp
next
  case (Cons n ns)
  then have d: "distinct ns" "n \<notin> set ns"
    by simp_all
  show ?case
  proof (cases "n \<notin> set visited \<and> passable ts toks currentTile n")
    case True
    then obtain t where t: "tileOn ts n = Some t" "canMove toks currentTile t"
      by (auto simp: passable_def split: option.splits)
    have f: "filter (\<lambda>m. m \<notin> set (visited @ [n]) \<and> passable ts toks currentTile m) ns
           = filter (\<lambda>m. m \<notin> set visited \<and> passable ts toks currentTile m) ns"
      using d(2) by (intro filter_cong) auto
    show ?thesis
      using True t Cons.IH [OF d(1), of "queue @ [(n, path @ [n])]" "visited @ [n]"] f
      by simp
  next
    case False
    then have "visitNeighbors ts toks currentTile path (n # ns) (queue, visited)
        = visitNeighbors ts toks currentTile path ns (queue, visited)"
      by (auto simp: passable_def split: option.splits)
    with False Cons.IH [OF d(1), of queue visited] show ?thesis
      by auto
  qed
qed

lemma fresh_props:
  "distinct (fresh ts toks c visited)"
  "set (fresh ts toks c visited) \<inter> set visited = {}"
  "\<And>n. n \<in> set (fresh ts toks c visited) \<Longrightarrow> linked ts toks c n"
  "\<And>v. linked ts toks c v \<Longrightarrow> v \<in> set visited \<or> v \<in> set (fresh ts toks c visited)"
  by (auto simp: fresh_def neighbors_distinct linked_def)

lemma bfs_inv_start: "bfs_inv ps ts toks s [(s, [])] [s]"
  by (auto simp: bfs_inv_def shortest_to_def)

lemma bfs_inv_step:
  assumes inv: "bfs_inv ps ts toks s ((c, p) # rest) visited"
    and np: "\<not> playerOn ps c"
  shows "bfs_inv ps ts toks s (rest @ map (\<lambda>n. (n, p @ [n])) (fresh ts toks c visited))
           (visited @ fresh ts toks c visited)"
proof -
  define F where "F = fresh ts toks c visited"
  define Q' where "Q' = rest @ map (\<lambda>n. (n, p @ [n])) F"
  define L where "L = length p"
  note fp = fresh_props [where ts = ts and toks = toks and c = c and visited = visited, folded F_def]
  have i1: "s \<in> set visited" "c \<in> set visited" "fst ` set rest \<subseteq> set visited"
    "c \<notin> fst ` set rest" "distinct (map fst rest)"
    using inv by (auto simp: bfs_inv_def)
  have i2: "shortest_to ts toks s p c" "\<And>e. e \<in> set rest \<Longrightarrow> shortest_to ts toks s (snd e) (fst e)"
    using inv by (auto simp: bfs_inv_def)
  have i3: "\<And>e. e \<in> set rest \<Longrightarrow> L \<le> length (snd e)" "sorted (map (\<lambda>e. length (snd e)) rest)"
    using inv by (auto simp: bfs_inv_def L_def)
  have i4: "\<And>e. e \<in> set rest \<Longrightarrow> length (snd e) \<le> Suc L"
    using inv by (auto simp: bfs_inv_def L_def)
  have i5: "\<And>q. walk ts toks s q \<Longrightarrow> length q \<le> L \<Longrightarrow> last (s # q) \<in> set visited"
    using inv unfolding bfs_inv_def L_def by (metis list.sel(1) list.simps(3) snd_conv)
  have i6: "\<And>u. u \<in> set visited \<Longrightarrow> u \<noteq> c \<Longrightarrow> u \<notin> fst ` set rest \<Longrightarrow>
              \<not> playerOn ps u \<and> (\<forall>v. linked ts toks u v \<longrightarrow> v \<in> set visited)"
    using inv by (auto simp: bfs_inv_def)
  have wp: "walk ts toks s p" "last (s # p) = c"
    using i2(1) by (auto simp: shortest_to_def)
  have cells: "fst ` set Q' = fst ` set rest \<union> set F"
    by (simp add: Q'_def image_Un image_image)
  have new_len: "\<And>e. e \<in> set Q' \<Longrightarrow> e \<notin> set rest \<Longrightarrow> length (snd e) = Suc L"
    by (auto simp: Q'_def L_def)
  have lens: "\<And>e. e \<in> set Q' \<Longrightarrow> L \<le> length (snd e) \<and> length (snd e) \<le> Suc L"
    using i3(1) i4 new_len by (metis le_Suc_eq order_refl)
  have g1: "s \<in> set (visited @ F)"
    using i1 by simp
  have g2: "fst ` set Q' \<subseteq> set (visited @ F)"
    using i1 cells by auto
  have g3: "distinct (map fst Q')"
  proof -
    have "map fst Q' = map fst rest @ F"
      by (simp add: Q'_def comp_def)
    moreover have "set (map fst rest) \<inter> set F = {}"
      using i1(3) fp(2) by auto
    ultimately show ?thesis
      using i1(5) fp(1) by simp
  qed
  have g4: "\<forall>e \<in> set Q'. shortest_to ts toks s (snd e) (fst e)"
  proof
    fix e assume e: "e \<in> set Q'"
    show "shortest_to ts toks s (snd e) (fst e)"
    proof (cases "e \<in> set rest")
      case True
      then show ?thesis by (rule i2(2))
    next
      case False
      with e obtain n where n: "n \<in> set F" "e = (n, p @ [n])"
        by (auto simp: Q'_def)
      have w: "walk ts toks s (p @ [n])"
        using wp fp(3) [OF n(1)] by (simp add: walk_snoc)
      have m: "\<And>q. walk ts toks s q \<Longrightarrow> last (s # q) = n \<Longrightarrow> length (p @ [n]) \<le> length q"
      proof (rule ccontr)
        fix q assume q: "walk ts toks s q" "last (s # q) = n" "\<not> length (p @ [n]) \<le> length q"
        then have "length q \<le> L"
          by (simp add: L_def)
        from i5 [OF q(1) this] q(2) have "n \<in> set visited"
          by simp
        with n(1) fp(2) show False
          by auto
      qed
      show ?thesis
        using w m n(2) by (auto simp: shortest_to_def)
    qed
  qed
  have g5: "sorted (map (\<lambda>e. length (snd e)) Q')"
  proof -
    have "map (\<lambda>e. length (snd e)) Q' = map (\<lambda>e. length (snd e)) rest @ replicate (length F) (Suc L)"
      by (simp add: Q'_def comp_def L_def map_replicate_const)
    moreover have "sorted (replicate (length F) (Suc L))"
      by simp
    ultimately show ?thesis
      using i3(2) i4 by (auto simp: sorted_append)
  qed
  have hd_in: "Q' \<noteq> [] \<Longrightarrow> hd Q' \<in> set Q'"
    by simp
  have g6: "\<forall>e \<in> set Q'. length (snd e) \<le> Suc (length (snd (hd Q')))"
  proof
    fix e assume e: "e \<in> set Q'"
    then have "Q' \<noteq> []" by auto
    from lens [OF hd_in [OF this]] lens [OF e]
    show "length (snd e) \<le> Suc (length (snd (hd Q')))"
      by simp
  qed
  have step_c: "\<And>v. linked ts toks c v \<Longrightarrow> v \<in> set (visited @ F)"
    using fp(4) by auto
  have g7: "Q' \<noteq> [] \<longrightarrow>
          (\<forall>q. walk ts toks s q \<and> length q \<le> length (snd (hd Q')) \<longrightarrow> last (s # q) \<in> set (visited @ F))"
  proof (intro impI allI)
    fix q assume ne: "Q' \<noteq> []" and q: "walk ts toks s q \<and> length q \<le> length (snd (hd Q'))"
    note h = lens [OF hd_in [OF ne]]
    show "last (s # q) \<in> set (visited @ F)"
    proof (cases "length q \<le> L")
      case True
      with i5 q show ?thesis by auto
    next
      case False
      with q h have lq: "length q = Suc L" and hl: "length (snd (hd Q')) = Suc L"
        by simp_all
      have all: "\<And>e. e \<in> set Q' \<Longrightarrow> length (snd e) = Suc L"
      proof -
        fix e assume e: "e \<in> set Q'"
        have "length (snd (hd Q')) \<le> length (snd e)"
          using g5 ne e by (cases Q') (auto simp: )
        with hl lens [OF e] show "length (snd e) = Suc L"
          by simp
      qed
      from lq obtain q0 v where qv: "q = q0 @ [v]"
        by (cases q rule: rev_cases) auto
      define u where "u = last (s # q0)"
      from q qv have w0: "walk ts toks s q0" and cv: "linked ts toks u v"
        by (auto simp: walk_snoc u_def)
      have l0: "length q0 = L"
        using lq qv by simp
      from i5 [OF w0] l0 have uv: "u \<in> set visited"
        by (simp add: u_def)
      have notq: "u \<notin> fst ` set Q'"
      proof
        assume "u \<in> fst ` set Q'"
        then obtain e where e: "e \<in> set Q'" "fst e = u"
          by auto
        from g4 e have "shortest_to ts toks s (snd e) u"
          by auto
        then have "length (snd e) \<le> length q0"
          using w0 by (auto simp: shortest_to_def u_def)
        with all [OF e(1)] l0 show False
          by simp
      qed
      have "v \<in> set (visited @ F)"
      proof (cases "u = c")
        case True
        with cv step_c show ?thesis by simp
      next
        case False
        from notq cells have "u \<notin> fst ` set rest"
          by simp
        from i6 [OF uv False this] cv have "v \<in> set visited"
          by blast
        then show ?thesis
          by simp
      qed
      then show ?thesis
        by (simp add: qv)
    qed
  qed
  have g8: "\<forall>u \<in> set (visited @ F) - fst ` set Q'.
          \<not> playerOn ps u \<and> (\<forall>v. linked ts toks u v \<longrightarrow> v \<in> set (visited @ F))"
  proof
    fix u assume "u \<in> set (visited @ F) - fst ` set Q'"
    then have u: "u \<in> set visited" "u \<notin> fst ` set rest"
      using cells by auto
    show "\<not> playerOn ps u \<and> (\<forall>v. linked ts toks u v \<longrightarrow> v \<in> set (visited @ F))"
    proof (cases "u = c")
      case True
      with np step_c show ?thesis by simp
    next
      case False
      from i6 [OF u(1) False u(2)] show ?thesis by (metis UnCI set_append)
    qed
  qed
  show ?thesis
    unfolding bfs_inv_def
    using g1 g2 g3 g4 g5 g6 g7 g8
    unfolding Q'_def F_def by blast
qed

lemma fresh_no_tile: "tileOn ts c = None \<Longrightarrow> fresh ts toks c visited = []"
  by (simp add: fresh_def linked_def)

lemma visitNeighbors_fresh:
  assumes "tileOn ts c = Some currentTile"
  shows "visitNeighbors ts toks currentTile path (neighbors c) (queue, visited)
     = (queue @ map (\<lambda>n. (n, path @ [n])) (fresh ts toks c visited), visited @ fresh ts toks c visited)"
proof -
  have "fresh ts toks c visited = filter (\<lambda>n. n \<notin> set visited \<and> passable ts toks currentTile n) (neighbors c)"
    unfolding fresh_def by (rule filter_cong) (auto simp: linked_def assms)
  then show ?thesis
    by (simp add: visitNeighbors_filter [OF neighbors_distinct])
qed

lemma bfs_reaches_final:
  "bfs_inv ps ts toks s queue visited \<Longrightarrow> bfs_final ps ts toks s (bfs ps ts toks queue visited)"
proof (induction ps ts toks queue visited rule: bfs.induct)
  case (1 ps ts toks visited)
  then show ?case
    by (auto simp: bfs_final_def bfs.simps)
next
  case (2 ps ts toks c path queue visited)
  show ?case
  proof (cases "playerOn ps c")
    case True
    with "2.prems" have "\<exists>c' rest visited'. bfs_inv ps ts toks s ((c', path) # rest) visited' \<and> playerOn ps c'"
      by blast
    with True show ?thesis
      by (simp add: bfs_final_def bfs.simps)
  next
    case False
    note inv' = bfs_inv_step [OF "2.prems" False]
    show ?thesis
    proof (cases "tileOn ts c")
      case None
      from inv' have "bfs_inv ps ts toks s queue visited"
        by (simp add: fresh_no_tile [OF None])
      from "2.IH"(1) [OF False None this] False None show ?thesis
        by (simp add: bfs.simps)
    next
      case (Some currentTile)
      note v = visitNeighbors_fresh [OF Some, of toks path queue visited]
      from inv' have "bfs_inv ps ts toks s
          (fst (visitNeighbors ts toks currentTile path (neighbors c) (queue, visited)))
          (snd (visitNeighbors ts toks currentTile path (neighbors c) (queue, visited)))"
        by (simp add: v)
      from "2.IH"(2) [OF False Some this] False Some show ?thesis
        by (simp add: bfs.simps)
    qed
  qed
qed

lemma bfs_inv_found:
  assumes inv: "bfs_inv ps ts toks s ((c, p) # rest) visited"
    and pl: "playerOn ps c"
  shows "walk ts toks s p" "last (s # p) = c"
    "\<And>q. walk ts toks s q \<Longrightarrow> playerOn ps (last (s # q)) \<Longrightarrow> length p \<le> length q"
proof -
  from inv have sh: "shortest_to ts toks s p c"
    by (auto simp: bfs_inv_def)
  then show "walk ts toks s p" "last (s # p) = c"
    by (auto simp: shortest_to_def)
  fix q assume q: "walk ts toks s q" "playerOn ps (last (s # q))"
  show "length p \<le> length q"
  proof (rule ccontr)
    assume "\<not> length p \<le> length q"
    then have lt: "length q < length p"
      by simp
    define t where "t = last (s # q)"
    from inv q(1) lt have tv: "t \<in> set visited"
      unfolding bfs_inv_def t_def by (metis less_imp_le_nat list.sel(1) list.simps(3) snd_conv)
    have "t \<in> fst ` set ((c, p) # rest)"
    proof (rule ccontr)
      assume "t \<notin> fst ` set ((c, p) # rest)"
      with tv inv have "\<not> playerOn ps t"
        unfolding bfs_inv_def by blast
      with q(2) show False
        by (simp add: t_def)
    qed
    then obtain e where e: "e \<in> set ((c, p) # rest)" "fst e = t"
      unfolding image_iff by blast
    from inv e have "shortest_to ts toks s (snd e) t"
      unfolding bfs_inv_def by blast
    with q(1) have "length (snd e) \<le> length q"
      by (auto simp: shortest_to_def t_def)
    moreover from inv e(1) have "length p \<le> length (snd e)"
      by (auto simp: bfs_inv_def)
    ultimately show False
      using lt by simp
  qed
qed

lemma bfs_inv_closed:
  assumes inv: "bfs_inv ps ts toks s [] visited"
  shows "walk ts toks u q \<Longrightarrow> u \<in> set visited \<Longrightarrow> last (u # q) \<in> set visited"
proof (induction q arbitrary: u)
  case Nil
  then show ?case by simp
next
  case (Cons v q)
  from inv have "\<forall>u \<in> set visited. \<forall>v. linked ts toks u v \<longrightarrow> v \<in> set visited"
    by (simp add: bfs_inv_def)
  with Cons.prems have "v \<in> set visited"
    by (cases v) auto
  with Cons.IH [of v] Cons.prems show ?case
    by simp
qed

lemma bfs_inv_none:
  assumes inv: "bfs_inv ps ts toks s [] visited" and w: "walk ts toks s q"
  shows "\<not> playerOn ps (last (s # q))"
proof -
  from inv have "s \<in> set visited"
    by (simp add: bfs_inv_def)
  from bfs_inv_closed [OF inv w this] inv show ?thesis
    by (auto simp: bfs_inv_def)
qed

text \<open>What the search from a cell returns.\<close>

lemma bfs_Some:
  assumes "bfs ps ts toks [(s, [])] [s] = Some path"
  shows "walk ts toks s path" "playerOn ps (last (s # path))"
    "\<And>q. walk ts toks s q \<Longrightarrow> playerOn ps (last (s # q)) \<Longrightarrow> length path \<le> length q"
proof -
  from bfs_reaches_final [OF bfs_inv_start, of ps ts toks s] assms
  obtain c rest visited where f: "bfs_inv ps ts toks s ((c, path) # rest) visited" "playerOn ps c"
    by (auto simp: bfs_final_def)
  from bfs_inv_found [OF f] f(2)
  show "walk ts toks s path" "playerOn ps (last (s # path))"
    "\<And>q. walk ts toks s q \<Longrightarrow> playerOn ps (last (s # q)) \<Longrightarrow> length path \<le> length q"
    by auto
qed

lemma bfs_None:
  assumes "bfs ps ts toks [(s, [])] [s] = None" and "walk ts toks s q"
  shows "\<not> playerOn ps (last (s # q))"
proof -
  from bfs_reaches_final [OF bfs_inv_start, of ps ts toks s] assms(1)
  obtain visited where "bfs_inv ps ts toks s [] visited"
    by (auto simp: bfs_final_def)
  from bfs_inv_none [OF this assms(2)] show ?thesis .
qed

lemma find_list_ex: "(\<exists>y. find P xs = Some y) = list_ex P xs"
  by (induction xs) auto

lemma list_ex_eqI: "(\<And>x. x \<in> set xs \<Longrightarrow> P x = Q x) \<Longrightarrow> list_ex P xs = list_ex Q xs"
  by (induction xs) auto

lemma doorToward_dir:
  assumes "(tile_x t2, tile_y t2) = (case d of North \<Rightarrow> (tile_x t1, tile_y t1 - 1) | South \<Rightarrow> (tile_x t1, tile_y t1 + 1)
                                      | East \<Rightarrow> (tile_x t1 + 1, tile_y t1) | West \<Rightarrow> (tile_x t1 - 1, tile_y t1))"
  shows "doorToward toks t1 t2 =
     list_ex (\<lambda>k. tok_type k = Explore \<and> resolved k \<and> tok_x k = tile_x t1 \<and> tok_y k = tile_y t1
                  \<and> direction k = Some d) toks"
  unfolding doorToward_def
proof (rule list_ex_eqI)
  fix k
  show "(tok_type k = Explore \<and> resolved k \<and> tok_x k = tile_x t1 \<and> tok_y k = tile_y t1
          \<and> direction k \<noteq> None \<and> entryCell k = (tile_x t2, tile_y t2))
      = (tok_type k = Explore \<and> resolved k \<and> tok_x k = tile_x t1 \<and> tok_y k = tile_y t1 \<and> direction k = Some d)"
  proof (cases "direction k")
    case None
    then show ?thesis by simp
  next
    case (Some e)
    with assms show ?thesis
      by (cases d; cases e) (auto simp: entryCell_def tokenDir_def)
  qed
qed

lemma canMove_step:
  assumes "(tile_x t2, tile_y t2) = (case d of North \<Rightarrow> (tile_x t1, tile_y t1 - 1) | South \<Rightarrow> (tile_x t1, tile_y t1 + 1)
                                      | East \<Rightarrow> (tile_x t1 + 1, tile_y t1) | West \<Rightarrow> (tile_x t1 - 1, tile_y t1))"
  shows "canMove toks t1 t2 = traversable toks t1 t2"
proof -
  have opp: "(tile_x t1, tile_y t1) = (case oppositeDir d of North \<Rightarrow> (tile_x t2, tile_y t2 - 1) | South \<Rightarrow> (tile_x t2, tile_y t2 + 1)
                                      | East \<Rightarrow> (tile_x t2 + 1, tile_y t2) | West \<Rightarrow> (tile_x t2 - 1, tile_y t2))"
    using assms by (cases d) (auto simp: oppositeDir_def)
  show ?thesis
    unfolding traversable_def doorToward_dir [OF assms] doorToward_dir [OF opp]
    using assms
    by (cases d) (simp_all add: canMove_def Let_def find_list_ex oppositeDir_def)
qed

lemma canMove_traversable:
  assumes "(tile_x t2, tile_y t2) \<in> set (neighbors (tile_x t1, tile_y t1))"
  shows "canMove toks t1 t2 = traversable toks t1 t2"
proof -
  from assms consider
      "(tile_x t2, tile_y t2) = (tile_x t1, tile_y t1 - 1)" | "(tile_x t2, tile_y t2) = (tile_x t1, tile_y t1 + 1)"
    | "(tile_x t2, tile_y t2) = (tile_x t1 + 1, tile_y t1)" | "(tile_x t2, tile_y t2) = (tile_x t1 - 1, tile_y t1)"
    by (auto simp: neighbors_def)
  then show ?thesis
  proof cases
    case 1
    then show ?thesis by (intro canMove_step [of _ _ North]) simp
  next
    case 2
    then show ?thesis by (intro canMove_step [of _ _ South]) simp
  next
    case 3
    then show ?thesis by (intro canMove_step [of _ _ East]) simp
  next
    case 4
    then show ?thesis by (intro canMove_step [of _ _ West]) simp
  qed
qed

lemma tileOn_Some_cell: "tileOn ts c = Some t \<Longrightarrow> (tile_x t, tile_y t) = c"
  by (auto simp: tileOn_def find_Some_iff)

lemma linked_traversable:
  "linked ts toks u v \<longleftrightarrow>
     v \<in> set (neighbors u) \<and> (\<exists>tu tv. tileOn ts u = Some tu \<and> tileOn ts v = Some tv \<and> traversable toks tu tv)"
proof (cases "v \<in> set (neighbors u)")
  case False
  then show ?thesis by (simp add: linked_def)
next
  case True
  show ?thesis
  proof (cases "tileOn ts u")
    case None
    then show ?thesis by (simp add: linked_def)
  next
    case tu: (Some tu)
    show ?thesis
    proof (cases "tileOn ts v")
      case None
      with tu show ?thesis by (simp add: linked_def passable_def)
    next
      case tv: (Some tv)
      from True tileOn_Some_cell [OF tu] tileOn_Some_cell [OF tv]
      have "(tile_x tv, tile_y tv) \<in> set (neighbors (tile_x tu, tile_y tu))"
        by simp
      from canMove_traversable [OF this, of toks] True tu tv show ?thesis
        by (simp add: linked_def passable_def)
    qed
  qed
qed

lemma moveMonster_dest:
  assumes "bfs ps ts toks [((m_x m, m_y m), [])] [(m_x m, m_y m)] = Some path"
  shows "moveMonster ps ts toks m =
     m\<lparr>m_x := fst (last ((m_x m, m_y m) # take (monsterSpeed m) path)),
       m_y := snd (last ((m_x m, m_y m) # take (monsterSpeed m) path))\<rparr>"
proof (cases "path = []")
  case True
  with assms show ?thesis
    by (simp add: moveMonster_def)
next
  case False
  define k where "k = min (monsterSpeed m) (length path)"
  have k: "0 < k" "k \<le> length path"
    using False by (auto simp: k_def monsterSpeed_def)
  have tk: "take (monsterSpeed m) path = take k path"
    by (simp add: k_def min_def)
  have "take k path \<noteq> []"
    using k False by simp
  then have "last ((m_x m, m_y m) # take k path) = take k path ! (length (take k path) - 1)"
    by (simp add: last_conv_nth)
  also have "\<dots> = path ! (k - 1)"
    using k by simp
  finally show ?thesis
    using assms False unfolding tk by (simp add: moveMonster_def Let_def k_def)
qed

lemma speed_values: "monsterSpeed m = (if tier m = 3 then 3 else 2)"
  by (simp add: monsterSpeed_def)

lemma moveMonster_cases:
  fixes ps :: "Player list" and ts :: "Tile list" and toks :: "Token list" and m :: Monster
  defines "s \<equiv> (m_x m, m_y m)"
  shows "(\<exists>path. walk ts toks s path \<and> playerOn ps (last (s # path))
            \<and> (\<forall>q. walk ts toks s q \<and> playerOn ps (last (s # q)) \<longrightarrow> length path \<le> length q)
            \<and> (\<forall>k < length path. \<not> playerOn ps (last (s # take k path)))
            \<and> walk ts toks s (take (monsterSpeed m) path)
            \<and> moveMonster ps ts toks m =
                m\<lparr>m_x := fst (last (s # take (monsterSpeed m) path)),
                  m_y := snd (last (s # take (monsterSpeed m) path))\<rparr>)
        \<or> ((\<forall>q. walk ts toks s q \<longrightarrow> \<not> playerOn ps (last (s # q))) \<and> moveMonster ps ts toks m = m)"
proof (cases "bfs ps ts toks [(s, [])] [s]")
  case None
  then have "moveMonster ps ts toks m = m"
    by (simp add: moveMonster_def s_def)
  with bfs_None [OF None] show ?thesis
    by blast
next
  case (Some path)
  note b = bfs_Some [OF Some]
  have early: "\<forall>k < length path. \<not> playerOn ps (last (s # take k path))"
  proof (intro allI impI notI)
    fix k assume k: "k < length path" and pl: "playerOn ps (last (s # take k path))"
    from b(3) [OF walk_take [OF b(1), of k] pl] k show False
      by simp
  qed
  from Some have "moveMonster ps ts toks m =
              m\<lparr>m_x := fst (last (s # take (monsterSpeed m) path)),
                m_y := snd (last (s # take (monsterSpeed m) path))\<rparr>"
    unfolding s_def by (rule moveMonster_dest)
  with b early walk_take [OF b(1), of "monsterSpeed m"] show ?thesis
    by blast
qed

text \<open>
  The round transition of the other variant, \<^verbatim>\<open>runMythosPhase\<close>, has no movement step: the
  monsters it stores are the ones it read, with at most a spawned one added (or, when the
  spawn fails on a map without tiles, the ones of the state it updates).
\<close>

lemma runMythosPhase_keeps_monsters:
  "monsters (runMythosPhase_begin cs prev) = monsters prev"
  "\<exists>spawned. monsters (runMythosPhase_event cs event rand stamp prev)
      \<in> {monsters cs, monsters cs @ [spawned], monsters prev}"
proof -
  show "monsters (runMythosPhase_begin cs prev) = monsters prev"
    by (simp add: runMythosPhase_begin_def)
  show "\<exists>spawned. monsters (runMythosPhase_event cs event rand stamp prev)
      \<in> {monsters cs, monsters cs @ [spawned], monsters prev}"
  proof (cases "me_type event")
    case SPAWN
    show ?thesis
    proof (cases "at_index (tiles cs) (random_index rand (length (tiles cs)))")
      case None
      with SPAWN show ?thesis
        by (simp add: runMythosPhase_event_def endMythosPhase_def addLog_def)
    next
      case (Some tile)
      with SPAWN show ?thesis
        by (simp add: runMythosPhase_event_def Let_def)
    qed
  next
    case TEST
    then show ?thesis
      by (simp add: runMythosPhase_event_def Let_def)
  next
    case FLAVOR
    then show ?thesis
      by (simp add: runMythosPhase_event_def)
  qed
qed

text \<open>
  C3, as amended. In the variant whose round transition is \<^verbatim>\<open>startMythosPhase\<close>, every
  monster is moved on the round transition. A monster's speed is 3 on tier 3 and 2
  otherwise. Either no walk of open moves from the monster's cell ends on a cell with a
  player, and the monster stays; or the search finds a walk of open moves that ends on a
  cell with a player, no walk to a cell with a player is shorter, no earlier cell of it
  carries a player, and the monster advances along it by its speed (to its end when it is
  shorter), every step an open move. A move between two cells is open exactly when they
  are 4-neighbours, both carry a tile and the tiles share a room or a resolved Explore
  token on one of them points toward the other. The round transition of the other variant,
  \<^verbatim>\<open>runMythosPhase\<close>, moves no monster.
\<close>

theorem monsters_take_shortest_open_path:
  fixes ps :: "Player list" and ts :: "Tile list" and toks :: "Token list" and m :: Monster
  defines "s \<equiv> (m_x m, m_y m)"
  shows "monsters (startMythosPhase_move cs prev)
           = map (moveMonster (players cs) (tiles cs) (tokens cs)) (monsters cs)
     \<and> monsterSpeed m = (if tier m = 3 then 3 else 2)
     \<and> ((\<exists>path. walk ts toks s path \<and> playerOn ps (last (s # path))
            \<and> (\<forall>q. walk ts toks s q \<and> playerOn ps (last (s # q)) \<longrightarrow> length path \<le> length q)
            \<and> (\<forall>k < length path. \<not> playerOn ps (last (s # take k path)))
            \<and> walk ts toks s (take (monsterSpeed m) path)
            \<and> moveMonster ps ts toks m =
                m\<lparr>m_x := fst (last (s # take (monsterSpeed m) path)),
                  m_y := snd (last (s # take (monsterSpeed m) path))\<rparr>)
        \<or> ((\<forall>q. walk ts toks s q \<longrightarrow> \<not> playerOn ps (last (s # q))) \<and> moveMonster ps ts toks m = m))
     \<and> (\<forall>u v. linked ts toks u v \<longleftrightarrow>
           v \<in> set (neighbors u)
           \<and> (\<exists>tu tv. tileOn ts u = Some tu \<and> tileOn ts v = Some tv \<and> traversable toks tu tv))
     \<and> monsters (runMythosPhase_begin cs prev) = monsters prev
     \<and> (\<exists>spawned. monsters (runMythosPhase_event cs event rand stamp prev)
           \<in> {monsters cs, monsters cs @ [spawned], monsters prev})"
proof -
  have a: "monsters (startMythosPhase_move cs prev)
           = map (moveMonster (players cs) (tiles cs) (tokens cs)) (monsters cs)"
    by (simp add: startMythosPhase_move_def moveMonsters_def)
  from a speed_values [of m] moveMonster_cases [where ts = ts and toks = toks and m = m and ps = ps, folded s_def]
    linked_traversable [of ts toks]
    runMythosPhase_keeps_monsters(1) [of cs prev] runMythosPhase_keeps_monsters(2) [of cs event rand stamp prev]
  show ?thesis
    by blast
qed

lemma hall_parts:
  "players hallState = [dan]" "tokens hallState = [openedDoor]"
  "tiles hallState = [foyerTile, studyWest, studyMid, studyEast, cellarTile]"
  "monsters hallState = [deepOne, shoggoth]"
  by (simp_all add: hallState_def demoState_def)

lemma hall_moves:
  "moveMonster [dan] [foyerTile, studyWest, studyMid, studyEast, cellarTile] [openedDoor] deepOne
     = deepOne\<lparr>m_x := 2, m_y := 0\<rparr>"
  "moveMonster [dan] [foyerTile, studyWest, studyMid, studyEast, cellarTile] [openedDoor] shoggoth
     = shoggoth\<lparr>m_x := 3, m_y := 0\<rparr>"
  by code_simp+

text \<open>
  C3, as stated, fails on the round transition of \<^verbatim>\<open>runMythosPhase\<close>. In the sample
  session both monsters stand in the foyer and an investigator stands three open moves
  away; the round transition advances the round and leaves both monsters where they are,
  where the search would take them two and three cells toward the investigator.
\<close>

theorem runMythosPhase_moves_no_monster:
  "monsters (runMythosPhase_event hallState howlingWind 0 ''1700000000000'' (runMythosPhase_begin hallState hallState))
     = [deepOne, shoggoth]
   \<and> round (runMythosPhase_event hallState howlingWind 0 ''1700000000000'' (runMythosPhase_begin hallState hallState))
     = round hallState + 1
   \<and> (m_x deepOne, m_y deepOne) = (0, 0) \<and> (m_x shoggoth, m_y shoggoth) = (0, 0)
   \<and> walk (tiles hallState) (tokens hallState) (0, 0) [(1, 0), (2, 0), (3, 0)]
   \<and> playerOn (players hallState) (3, 0)
   \<and> moveMonsters hallState = [deepOne\<lparr>m_x := 2, m_y := 0\<rparr>, shoggoth\<lparr>m_x := 3, m_y := 0\<rparr>]"
proof -
  have a: "monsters (runMythosPhase_event hallState howlingWind 0 ''1700000000000'' (runMythosPhase_begin hallState hallState))
     = [deepOne, shoggoth]"
    by (simp add: runMythosPhase_event_def howlingWind_def hall_parts)
  have b: "round (runMythosPhase_event hallState howlingWind 0 ''1700000000000'' (runMythosPhase_begin hallState hallState))
     = round hallState + 1"
    by (simp add: runMythosPhase_event_def runMythosPhase_begin_def howlingWind_def)
  have c: "(m_x deepOne, m_y deepOne) = (0, 0)" "(m_x shoggoth, m_y shoggoth) = (0, 0)"
    by (simp_all add: deepOne_def shoggoth_def)
  have d: "walk [foyerTile, studyWest, studyMid, studyEast, cellarTile] [openedDoor] (0, 0) [(1, 0), (2, 0), (3, 0)]"
    by code_simp
  have e: "playerOn (players hallState) (3, 0)"
    by (simp add: hall_parts playerOn_def dan_def demoPlayer_def)
  have f: "moveMonsters hallState = [deepOne\<lparr>m_x := 2, m_y := 0\<rparr>, shoggoth\<lparr>m_x := 3, m_y := 0\<rparr>]"
    by (simp add: moveMonsters_def hall_parts hall_moves)
  from a b c d e f show ?thesis
    by (simp add: hall_parts)
qed

text \<open>The amended statement on the sample session.\<close>

theorem monsters_take_shortest_open_path_witness:
  "monsters (startMythosPhase_move hallState hallState) = [deepOne\<lparr>m_x := 2, m_y := 0\<rparr>, shoggoth\<lparr>m_x := 3, m_y := 0\<rparr>]
   \<and> monsterSpeed deepOne = 2 \<and> monsterSpeed shoggoth = 3
   \<and> \<not> (\<exists>q. walk (tiles hallState) (tokens hallState) (0, 0) q
            \<and> playerOn (players hallState) (last ((0, 0) # q)) \<and> length q < 3)
   \<and> linked (tiles hallState) (tokens hallState) (0, 0) (1, 0)
   \<and> \<not> linked (tiles hallState) (tokens hallState) (0, 0) (0, 1)"
proof -
  note t = monsters_take_shortest_open_path [where cs = hallState and prev = hallState
      and ps = "players hallState" and ts = "tiles hallState" and toks = "tokens hallState" and m = deepOne
      and event = howlingWind and rand = 0 and stamp = "''1700000000000''"]
  have s: "(m_x deepOne, m_y deepOne) = (0, 0)" "monsterSpeed deepOne = 2"
    by (simp_all add: deepOne_def monsterSpeed_def)
  have sh: "monsterSpeed shoggoth = 3"
    by (simp add: shoggoth_def monsterSpeed_def)
  have mv: "moveMonster (players hallState) (tiles hallState) (tokens hallState) deepOne = deepOne\<lparr>m_x := 2, m_y := 0\<rparr>"
    by (simp add: hall_parts hall_moves)
  have stay: "deepOne\<lparr>m_x := 2, m_y := 0\<rparr> \<noteq> deepOne"
    by (simp add: deepOne_def)
  have np: "\<not> playerOn (players hallState) (2, 0)"
    by (simp add: hall_parts playerOn_def dan_def demoPlayer_def)
  from t have a: "monsters (startMythosPhase_move hallState hallState)
      = [deepOne\<lparr>m_x := 2, m_y := 0\<rparr>, shoggoth\<lparr>m_x := 3, m_y := 0\<rparr>]"
    by (simp add: hall_parts hall_moves)
  from t mv stay s obtain path where
    p: "\<forall>q. walk (tiles hallState) (tokens hallState) (0, 0) q \<and> playerOn (players hallState) (last ((0, 0) # q))
            \<longrightarrow> length path \<le> length q"
      "playerOn (players hallState) (last ((0, 0) # path))"
      "deepOne\<lparr>m_x := 2, m_y := 0\<rparr> = deepOne\<lparr>m_x := fst (last ((0, 0) # take 2 path)), m_y := snd (last ((0, 0) # take 2 path))\<rparr>"
    by auto
  from arg_cong [OF p(3), of m_x] arg_cong [OF p(3), of m_y]
  have d: "last ((0, 0) # take 2 path) = (2, 0)"
    by (simp add: prod_eq_iff)
  have "3 \<le> length path"
  proof (rule ccontr)
    assume "\<not> 3 \<le> length path"
    then have "take 2 path = path"
      by simp
    with d p(2) np show False
      by simp
  qed
  with p(1) have b: "\<not> (\<exists>q. walk (tiles hallState) (tokens hallState) (0, 0) q
            \<and> playerOn (players hallState) (last ((0, 0) # q)) \<and> length q < 3)"
    by fastforce
  from t have c: "\<And>u v. linked (tiles hallState) (tokens hallState) u v \<longleftrightarrow>
           v \<in> set (neighbors u)
           \<and> (\<exists>tu tv. tileOn (tiles hallState) u = Some tu \<and> tileOn (tiles hallState) v = Some tv
                 \<and> traversable (tokens hallState) tu tv)"
    by blast
  have e: "linked (tiles hallState) (tokens hallState) (0, 0) (1, 0)"
    unfolding c
    by (simp add: hall_parts neighbors_def tileOn_def foyerTile_def studyWest_def traversable_def
        doorToward_def openedDoor_def eastDoor_def entryCell_def tokenDir_def)
  have f: "\<not> linked (tiles hallState) (tokens hallState) (0, 0) (0, 1)"
    unfolding c
    by (simp add: hall_parts neighbors_def tileOn_def foyerTile_def studyWest_def studyMid_def studyEast_def
        cellarTile_def traversable_def doorToward_def openedDoor_def eastDoor_def entryCell_def tokenDir_def)
  from a s(2) sh b e f show ?thesis
    by blast
qed

end
